(* ===== verification/Prelude.thy ===== *)
theory Prelude
  imports Main "HOL-Library.Sublist"
begin

text \<open>
  Shared vocabulary of the heading-extractor model: the named theorem collections the
  component theories fill, the type synonyms for the values the Python code passes
  around, and generic lemmas on lists and maps (dictionary comprehensions built by
  successive updates, strictly descending lists) that the ranker and the assembler share.
\<close>

named_theorems pylib "equations of the modelled Python library operations"
named_theorems outline_inv "facts that the assembler's loop keeps its invariant"

type_synonym pystr = string
type_synonym page_no = nat

text \<open>A Python dictionary comprehension inserts its pairs in order; a later pair wins.\<close>

definition dict_of :: "('k \<times> 'v) list \<Rightarrow> ('k \<rightharpoonup> 'v)" where
  "dict_of kvs = fold (\<lambda>(k, v) m. m(k \<mapsto> v)) kvs Map.empty"

lemma fold_upd_map_add:
  "fold (\<lambda>(k, v) m. m(k \<mapsto> v)) kvs m0 = m0 ++ map_of (rev kvs)"
proof (induction kvs arbitrary: m0)
  case Nil
  then show ?case by simp
next
  case (Cons kv kvs)
  obtain k v where "kv = (k, v)" by fastforce
  with Cons.IH show ?case
    by (simp add: map_add_def fun_eq_iff split: option.splits)
qed

lemma map_of_rev_distinct:
  assumes "distinct (map fst kvs)"
  shows "map_of (rev kvs) = map_of kvs"
proof
  fix k
  have d: "distinct (map fst (rev kvs))" using assms by (simp add: rev_map [symmetric])
  show "map_of (rev kvs) k = map_of kvs k"
  proof (cases "map_of kvs k")
    case None
    then show ?thesis by (metis map_of_eq_None_iff set_rev)
  next
    case (Some v)
    then have "(k, v) \<in> set (rev kvs)" by (simp add: map_of_SomeD)
    with d Some show ?thesis by simp
  qed
qed

lemma dict_of_distinct [simp]:
  "distinct (map fst kvs) \<Longrightarrow> dict_of kvs = map_of kvs"
  by (simp add: dict_of_def fold_upd_map_add map_of_rev_distinct)

lemma in_set_map_filter:
  "y \<in> set (List.map_filter f xs) \<longleftrightarrow> (\<exists>x\<in>set xs. f x = Some y)"
  by (induction xs) (auto split: option.splits)

lemma map_filter_append:
  "List.map_filter f (xs @ ys) = List.map_filter f xs @ List.map_filter f ys"
  by (simp add: List.map_filter_def)

lemma map_filter_filter_None:
  "\<forall>x\<in>set xs. \<not> P x \<longrightarrow> f x = None \<Longrightarrow> List.map_filter f (filter P xs) = List.map_filter f xs"
  by (induction xs) (auto simp: List.map_filter_simps split: option.splits)

text \<open>A map built from pairs in order, a later pair winning, holds the last value per key.\<close>

lemma map_of_rev_map_last:
  "x \<in> set xs \<Longrightarrow>
   map_of (rev (map (\<lambda>y. (k y, v y)) xs)) (k x) = Some (v (last (filter (\<lambda>y. k y = k x) xs)))"
proof (induction xs rule: rev_induct)
  case Nil
  then show ?case by simp
next
  case (snoc a xs)
  show ?case
  proof (cases "k a = k x")
    case True
    then show ?thesis by simp
  next
    case False
    then have "x \<in> set xs" using snoc.prems by auto
    with False show ?thesis using snoc.IH by simp
  qed
qed

lemma sorted_const:
  "(\<forall>x\<in>set xs. x = c) \<Longrightarrow> sorted xs"
  by (induction xs) auto

lemma subseq_sorted_wrt:
  "subseq xs ys \<Longrightarrow> sorted_wrt R ys \<Longrightarrow> sorted_wrt R xs"
proof (induction rule: list_emb.induct)
  case (list_emb_Nil ys)
  then show ?case by simp
next
  case (list_emb_Cons xs ys y)
  then show ?case by simp
next
  case (list_emb_Cons2 x y xs ys)
  then show ?case by (auto dest: list_emb_set)
qed

text \<open>In a strictly descending list the element at index \<open>i\<close> has exactly \<open>i\<close> larger elements.\<close>

lemma sorted_desc_card_greater:
  fixes xs :: "'a::linorder list"
  assumes "sorted_wrt (>) xs" and "i < length xs"
  shows "card {t \<in> set xs. xs ! i < t} = i"
  using assms
proof (induction xs arbitrary: i)
  case Nil
  then show ?case by simp
next
  case (Cons x xs)
  show ?case
  proof (cases i)
    case 0
    with Cons.prems show ?thesis by auto
  next
    case (Suc j)
    with Cons.prems have j: "j < length xs" and xj: "xs ! j < x" by auto
    have "{t \<in> set (x # xs). (x # xs) ! i < t} = insert x {t \<in> set xs. xs ! j < t}"
      using Suc xj by auto
    moreover have "x \<notin> set xs" using Cons.prems(1) by auto
    ultimately show ?thesis
      using Suc Cons.IH [of j] Cons.prems(1) j by simp
  qed
qed


text \<open>Two runs of a deterministic relation from one state to states without successor agree.\<close>

lemma rtranclp_det_final:
  assumes det: "\<And>x y z. R x y \<Longrightarrow> R x z \<Longrightarrow> y = z"
    and "R\<^sup>*\<^sup>* x y" and "R\<^sup>*\<^sup>* x z" and fy: "\<And>w. \<not> R y w" and fz: "\<And>w. \<not> R z w"
  shows "y = z"
  using assms(2,3)
proof (induction rule: converse_rtranclp_induct)
  case base
  then show ?case using fy by (auto elim: converse_rtranclpE)
next
  case (step x x')
  note h = step.hyps(1) and ih = step.IH
  from step.prems show ?case
  proof (cases rule: converse_rtranclpE)
    case base
    then show ?thesis using h fz [of x'] by simp
  next
    case (step x'')
    with det [OF h] have "x'' = x'" by blast
    with step ih show ?thesis by blast
  qed
qed

end
