(* ===== verification/PyStr.thy ===== *)
theory PyStr
  imports Prelude
begin

text \<open>
  The Python string and path operations that src/main.py calls, as executable HOL
  functions on \<open>char list\<close> (a \<open>char\<close> is read as a Latin-1 code point):
  \<open>str.strip()\<close> (line 26), \<open>str.endswith\<close> (lines 12 and 82), the substring test
  \<open>in\<close> (line 31), \<open>str.replace\<close> (lines 66 and 85), \<open>os.path.basename\<close> (line 66)
  and \<open>os.path.join\<close> (lines 83 and 85), with their characteristic lemmas.
\<close>

subsection \<open>Whitespace and strip\<close>

text \<open>CPython's \<open>str.isspace\<close> restricted to the code points 0..255.\<close>

definition py_isspace :: "char \<Rightarrow> bool" where
  "py_isspace c \<longleftrightarrow>
     (let n = of_char c :: nat in
      (9 \<le> n \<and> n \<le> 13) \<or> (28 \<le> n \<and> n \<le> 32) \<or> n = 133 \<or> n = 160)"

definition py_strip :: "pystr \<Rightarrow> pystr" where
  "py_strip s = rev (dropWhile py_isspace (rev (dropWhile py_isspace s)))"

subsection \<open>endswith, in, replace\<close>

definition py_endswith :: "pystr \<Rightarrow> pystr \<Rightarrow> bool" where
  "py_endswith s suf \<longleftrightarrow>
     length suf \<le> length s \<and> drop (length s - length suf) s = suf"

fun py_contains :: "pystr \<Rightarrow> pystr \<Rightarrow> bool" where
  "py_contains sub [] \<longleftrightarrow> sub = []"
| "py_contains sub (c # cs) \<longleftrightarrow> prefix sub (c # cs) \<or> py_contains sub cs"

text \<open>
  \<open>s.replace(old, new)\<close>: every non-overlapping occurrence of \<open>old\<close>, scanned left
  to right, is replaced; an empty \<open>old\<close> inserts \<open>new\<close> around every character.
\<close>

fun py_replace :: "pystr \<Rightarrow> pystr \<Rightarrow> pystr \<Rightarrow> pystr" where
  "py_replace [] new s = new @ concat (map (\<lambda>c. c # new) s)"
| "py_replace (x # xs) new [] = []"
| "py_replace (x # xs) new (c # cs) =
     (if prefix (x # xs) (c # cs)
      then new @ py_replace (x # xs) new (drop (length xs) cs)
      else c # py_replace (x # xs) new cs)"

subsection \<open>posixpath\<close>

definition py_basename :: "pystr \<Rightarrow> pystr" where
  "py_basename p = rev (takeWhile (\<lambda>c. c \<noteq> CHR ''/'') (rev p))"

definition py_join :: "pystr \<Rightarrow> pystr \<Rightarrow> pystr" where
  "py_join a b =
     (if prefix ''/'' b then b
      else if a = [] \<or> py_endswith a ''/'' then a @ b
      else a @ ''/'' @ b)"

text \<open>
  A pattern without a border (a non-empty proper suffix that is also a prefix) cannot
  overlap its own occurrences; \<open>replace\<close> then treats a trailing occurrence on its own.
\<close>

definition no_border :: "pystr \<Rightarrow> bool" where
  "no_border old \<longleftrightarrow> (\<forall>u v. old = u @ v \<and> u \<noteq> [] \<and> v \<noteq> [] \<longrightarrow> \<not> prefix v old)"

subsection \<open>Characteristic lemmas\<close>

lemma py_endswith_suffix: "py_endswith s suf \<longleftrightarrow> suffix suf s"
proof
  assume "py_endswith s suf"
  then have "s = take (length s - length suf) s @ suf"
    unfolding py_endswith_def by (metis append_take_drop_id)
  then show "suffix suf s" unfolding suffix_def by blast
next
  assume "suffix suf s"
  then obtain zs where "s = zs @ suf" by (auto simp: suffix_def)
  then show "py_endswith s suf" by (simp add: py_endswith_def)
qed

lemma py_endswith_single [pylib]:
  "py_endswith s [c] \<longleftrightarrow> s \<noteq> [] \<and> last s = c"
  by (auto simp: py_endswith_suffix suffix_def) (metis append_butlast_last_id)

lemma py_contains_sublist [pylib]: "py_contains sub s \<longleftrightarrow> sublist sub s"
  by (induction s) (auto simp: sublist_Cons_right)

lemma rev_dropWhile_rev_split:
  "\<exists>t. xs = rev (dropWhile P (rev xs)) @ t \<and> (\<forall>c\<in>set t. P c)"
proof -
  have "rev xs = takeWhile P (rev xs) @ dropWhile P (rev xs)" by simp
  then have "xs = rev (dropWhile P (rev xs)) @ rev (takeWhile P (rev xs))"
    by (metis rev_append rev_rev_ident)
  moreover have "\<forall>c\<in>set (rev (takeWhile P (rev xs))). P c"
    by (auto dest: set_takeWhileD)
  ultimately show ?thesis by blast
qed

text \<open>
  The strip lemmas hold for any whitespace predicate \<open>P\<close>; they are stated on the
  expression \<open>rev (dropWhile P (rev (dropWhile P s)))\<close> that both \<open>py_strip\<close> and the
  code-point strip of theory \<open>Unicode\<close> unfold to.
\<close>

lemma strip_by_split:
  "\<exists>a b. s = a @ rev (dropWhile P (rev (dropWhile P s))) @ b \<and> (\<forall>c\<in>set a. P c) \<and> (\<forall>c\<in>set b. P c)"
proof -
  let ?d = "dropWhile P s"
  have "s = takeWhile P s @ ?d" by simp
  moreover obtain t where "?d = rev (dropWhile P (rev ?d)) @ t" "\<forall>c\<in>set t. P c"
    using rev_dropWhile_rev_split [of ?d P] by auto
  moreover have "\<forall>c\<in>set (takeWhile P s). P c"
    by (auto dest: set_takeWhileD)
  ultimately show ?thesis by (metis append.assoc)
qed

lemma strip_by_hd:
  assumes m: "m = rev (dropWhile P (rev (dropWhile P s)))" and ne: "m \<noteq> []"
  shows "\<not> P (hd m)"
proof -
  obtain t where d: "dropWhile P s = m @ t"
    using rev_dropWhile_rev_split [of "dropWhile P s" P] m by auto
  with ne have "dropWhile P s \<noteq> []" and "hd (dropWhile P s) = hd m" by auto
  then show ?thesis by (metis hd_dropWhile)
qed

lemma strip_by_last:
  assumes m: "m = rev (dropWhile P (rev (dropWhile P s)))" and ne: "m \<noteq> []"
  shows "\<not> P (last m)"
proof -
  let ?r = "dropWhile P (rev (dropWhile P s))"
  have r0: "?r \<noteq> []" using m ne by simp
  then have "last m = hd ?r" using m by (simp add: last_rev)
  with r0 show ?thesis using hd_dropWhile [of P "rev (dropWhile P s)"] by simp
qed

text \<open>
  Conversely, a decomposition \<open>a @ m @ b\<close> with whitespace-only \<open>a\<close> and \<open>b\<close> and a
  core \<open>m\<close> that starts and ends with a non-whitespace element determines the strip:
  it is \<open>m\<close>.
\<close>

lemma strip_by_decomp:
  assumes a: "\<forall>c\<in>set a. P c" and b: "\<forall>c\<in>set b. P c"
    and m: "m \<noteq> []" "\<not> P (hd m)" "\<not> P (last m)"
  shows "rev (dropWhile P (rev (dropWhile P (a @ m @ b)))) = m"
proof -
  obtain c cs where mc: "m = c # cs" using m(1) by (cases m) auto
  obtain ys y where my: "m = ys @ [y]" using m(1) by (cases m rule: rev_cases) auto
  have "dropWhile P (a @ m @ b) = m @ b"
    using a m(2) by (simp add: dropWhile_append2 mc)
  moreover have "dropWhile P (rev (m @ b)) = rev m"
    using b m(3) by (simp add: dropWhile_append my)
  ultimately show ?thesis by simp
qed

lemma py_strip_split:
  "\<exists>a b. s = a @ py_strip s @ b \<and> (\<forall>c\<in>set a. py_isspace c) \<and> (\<forall>c\<in>set b. py_isspace c)"
  unfolding py_strip_def by (rule strip_by_split)

lemma py_strip_hd:
  "py_strip s \<noteq> [] \<Longrightarrow> \<not> py_isspace (hd (py_strip s))"
  by (rule strip_by_hd [OF py_strip_def])

lemma py_strip_last:
  "py_strip s \<noteq> [] \<Longrightarrow> \<not> py_isspace (last (py_strip s))"
  by (rule strip_by_last [OF py_strip_def])

lemma dropWhile_all_Nil:
  "(\<forall>c\<in>set (dropWhile P xs). P c) \<longleftrightarrow> dropWhile P xs = []"
proof
  assume all: "\<forall>c\<in>set (dropWhile P xs). P c"
  show "dropWhile P xs = []"
  proof (rule ccontr)
    assume ne: "dropWhile P xs \<noteq> []"
    then have "\<not> P (hd (dropWhile P xs))" by (rule hd_dropWhile)
    moreover have "hd (dropWhile P xs) \<in> set (dropWhile P xs)" using ne by simp
    ultimately show False using all by blast
  qed
qed (auto dest: set_dropWhileD)

lemma strip_by_Nil_iff:
  "rev (dropWhile P (rev (dropWhile P s))) = [] \<longleftrightarrow> (\<forall>c\<in>set s. P c)"
proof -
  let ?d = "dropWhile P s"
  have "rev (dropWhile P (rev ?d)) = [] \<longleftrightarrow> (\<forall>c\<in>set ?d. P c)"
    by (simp add: dropWhile_eq_Nil_conv)
  also have "\<dots> \<longleftrightarrow> ?d = []"
    by (rule dropWhile_all_Nil)
  also have "\<dots> \<longleftrightarrow> (\<forall>c\<in>set s. P c)"
    by (rule dropWhile_eq_Nil_conv)
  finally show ?thesis .
qed

lemma py_strip_Nil_iff: "py_strip s = [] \<longleftrightarrow> (\<forall>c\<in>set s. py_isspace c)"
  unfolding py_strip_def by (rule strip_by_Nil_iff)

lemma py_strip_idem: "py_strip (py_strip s) = py_strip s"
proof (cases "py_strip s = []")
  case True
  then show ?thesis by (simp add: py_strip_def [of "[]"])
next
  case False
  then have h: "\<not> py_isspace (hd (py_strip s))" and l: "\<not> py_isspace (last (py_strip s))"
    using py_strip_hd py_strip_last by blast+
  obtain c cs where e: "py_strip s = c # cs" using False by (meson neq_Nil_conv)
  have d1: "dropWhile py_isspace (py_strip s) = py_strip s"
    using h by (simp add: e)
  obtain c' cs' where e': "rev (py_strip s) = c' # cs'"
    using False by (meson neq_Nil_conv rev_is_Nil_conv)
  have "c' = last (py_strip s)" using e' by (metis hd_rev list.sel(1))
  then have d2: "dropWhile py_isspace (rev (py_strip s)) = rev (py_strip s)"
    using l by (simp add: e')
  show ?thesis
    unfolding py_strip_def [of "py_strip s"] d1 d2 by (rule rev_rev_ident)
qed

lemma py_basename_append:
  "CHR ''/'' \<notin> set ys \<Longrightarrow> py_basename (xs @ ys) = py_basename xs @ ys"
proof -
  assume "CHR ''/'' \<notin> set ys"
  then have "takeWhile (\<lambda>c. c \<noteq> CHR ''/'') (rev ys @ rev xs) =
             rev ys @ takeWhile (\<lambda>c. c \<noteq> CHR ''/'') (rev xs)"
    by (intro takeWhile_append2) auto
  then show ?thesis by (simp add: py_basename_def)
qed

lemma py_basename_slash_end: "py_basename (xs @ ''/'') = []"
  by (simp add: py_basename_def)

lemma py_replace_no_sublist:
  "\<not> sublist (x # xs) s \<Longrightarrow> py_replace (x # xs) new s = s"
proof (induction s)
  case Nil
  then show ?case by simp
next
  case (Cons c cs)
  then have "\<not> prefix (x # xs) (c # cs)" "\<not> sublist (x # xs) cs"
    by (auto simp: sublist_Cons_right)
  with Cons.IH show ?case by auto
qed

lemma py_replace_append_old:
  assumes nb: "no_border (x # xs)"
  shows "py_replace (x # xs) new (s @ x # xs) = py_replace (x # xs) new s @ new"
proof (induction s rule: length_induct)
  case (1 s)
  show ?case
  proof (cases s)
    case Nil
    then show ?thesis by simp
  next
    case (Cons c cs)
    show ?thesis
    proof (cases "prefix (x # xs) (c # cs)")
      case True
      then have l: "length xs \<le> length cs" by (auto dest: prefix_length_le)
      have "py_replace (x # xs) new (drop (length xs) cs @ x # xs) =
            py_replace (x # xs) new (drop (length xs) cs) @ new"
        using "1.IH" Cons by simp
      with True l show ?thesis by (simp add: Cons prefix_prefix)
    next
      case False
      have np: "\<not> prefix (x # xs) (c # cs @ x # xs)"
      proof
        assume p: "prefix (x # xs) (c # cs @ x # xs)"
        with False obtain v where "x # xs = (c # cs) @ v" "v \<noteq> []" "prefix v (x # xs)"
          by (auto simp: prefix_append prefix_Cons split: if_splits)
        with nb show False unfolding no_border_def by blast
      qed
      have "py_replace (x # xs) new (cs @ x # xs) = py_replace (x # xs) new cs @ new"
        using "1.IH" Cons by simp
      moreover have "py_replace (x # xs) new (c # cs @ x # xs) = c # py_replace (x # xs) new (cs @ x # xs)"
        using np by (simp only: py_replace.simps(3) if_False)
      moreover have "py_replace (x # xs) new (c # cs) = c # py_replace (x # xs) new cs"
        using False by (simp only: py_replace.simps(3) if_False)
      ultimately show ?thesis by (simp add: Cons)
    qed
  qed
qed

lemma no_border_pdf: "no_border ''.pdf''"
  unfolding no_border_def
proof (intro allI impI notI)
  fix u v
  assume a: "''.pdf'' = u @ v \<and> u \<noteq> [] \<and> v \<noteq> []" and p: "prefix v ''.pdf''"
  then have "set v \<subseteq> set ''pdf''" by (cases u) auto
  moreover have "v \<noteq> []" using a by simp
  with p have "hd v = CHR ''.''" by (cases v) auto
  moreover have "hd v \<in> set v" using a by simp
  ultimately show False by auto
qed

text \<open>
  \<open>str.strip()\<close> removes exactly a whitespace prefix and a whitespace suffix:
  the input is the result surrounded by whitespace, and a non-empty result starts and ends
  with a non-whitespace character.
\<close>

theorem py_strip_trims:
  "\<exists>a b. s = a @ py_strip s @ b \<and> (\<forall>c\<in>set a. py_isspace c) \<and> (\<forall>c\<in>set b. py_isspace c) \<and>
     (py_strip s \<noteq> [] \<longrightarrow> \<not> py_isspace (hd (py_strip s)) \<and> \<not> py_isspace (last (py_strip s)))"
  using py_strip_split [of s] py_strip_hd [of s] py_strip_last [of s] by blast

text \<open>
  For a file name without a slash, as \<open>os.listdir\<close> returns them,
  \<open>os.path.basename(os.path.join(d, name))\<close> gives the name back, so the title
  fallback of a batch document is computed from its listed file name.
\<close>

theorem py_basename_join:
  "CHR ''/'' \<notin> set f \<Longrightarrow> py_basename (py_join d f) = f"
proof -
  assume f: "CHR ''/'' \<notin> set f"
  then have np: "\<not> prefix ''/'' f" by (auto simp: prefix_def)
  show ?thesis
  proof (cases "d = [] \<or> py_endswith d ''/''")
    case True
    then have "py_basename d = []"
      by (auto simp: py_endswith_suffix suffix_def py_basename_def)
    with True np f show ?thesis by (simp add: py_join_def py_basename_append)
  next
    case False
    with np f show ?thesis
      by (simp add: py_join_def py_basename_append [of f "d @ ''/''", simplified]
          py_basename_slash_end)
  qed
qed

end
