(* ===== verification/Heading_Filter.thy ===== *)
theory Heading_Filter
  imports PyStr
begin

text \<open>
  The Fragment Filter, \<open>is_heading\<close> of src/main.py (lines 10--12): a span's text is
  heading-shaped when it is non-empty, shorter than 100 characters and does not end
  with a period. The caller strips the text first (line 26), so the filter proper is the
  composition \<open>is_heading (py_strip t)\<close>; \<open>is_heading\<close> alone accepts blank text.
\<close>

definition is_heading :: "pystr \<Rightarrow> bool" where
  "is_heading t \<longleftrightarrow> t \<noteq> [] \<and> length t < 100 \<and> \<not> py_endswith t ''.''"

lemma is_heading_iff [simp]:
  "is_heading t \<longleftrightarrow> t \<noteq> [] \<and> length t < 100 \<and> last t \<noteq> CHR ''.''"
  by (auto simp: is_heading_def pylib)

lemma is_heading_stripped_nonblank:
  "is_heading (py_strip t) \<Longrightarrow> \<exists>c\<in>set t. \<not> py_isspace c"
  by (auto simp: py_strip_Nil_iff)

text \<open>
  The filter as the code applies it (strip, then \<open>is_heading\<close>) rejects blank
  text, text of 100 characters or more and text that ends with a period.
\<close>

theorem is_heading_rejects:
  "(\<forall>c\<in>set t. py_isspace c) \<or> 100 \<le> length (py_strip t) \<or> py_endswith (py_strip t) ''.'' \<Longrightarrow>
   \<not> is_heading (py_strip t)"
  by (auto simp: py_strip_Nil_iff py_endswith_single)

text \<open>
  C19: \<open>is_heading\<close> on its own accepts every non-empty whitespace-only text shorter than
  100 characters, which the spec's contract for the filter excludes; only the strip at
  line 26 keeps such spans out.
\<close>

theorem is_heading_accepts_blank:
  assumes blank: "\<forall>c\<in>set t. py_isspace c" and ne: "t \<noteq> []" and short: "length t < 100"
  shows "is_heading t \<and> \<not> is_heading (py_strip t)"
proof -
  have "py_isspace (last t)" using blank ne by simp
  moreover have "\<not> py_isspace CHR ''.''" by (simp add: py_isspace_def)
  ultimately have "last t \<noteq> CHR ''.''" by auto
  with ne short have "is_heading t" by simp
  moreover have "py_strip t = []" using blank by (simp add: py_strip_Nil_iff)
  ultimately show ?thesis by simp
qed

end
