(* ===== verification/Source.thy ===== *)
theory Source
  imports Heading_Filter
begin

text \<open>
  The Fragment Source and the span loop of \<open>extract_headings\<close> (src/main.py lines
  16--44). A document is what \<open>fitz.open\<close> yields: a list of pages, each the result
  of \<open>page.get_text("dict")\<close>, which may fail (\<open>Inl\<close>); a page is a list of blocks,
  and only blocks with a \<open>"lines"\<close> key (\<open>Text_Block\<close>) carry lines of spans.
  Every span whose stripped text passes \<open>is_heading\<close> becomes a \<open>text_block\<close> record
  (the dictionary appended at line 37), tagged with its 1-based page number. The
  language detector is a parameter; \<open>None\<close> is the exception that line 35 swallows.
  \<open>error\<close> names every exception the model raises: a document that cannot be opened or
  a page that cannot be read (caught by \<open>extract_headings\<close>), and the output path,
  output directory or input directory of the batch that \<open>open\<close>, \<open>os.makedirs\<close>
  or \<open>os.listdir\<close> rejects (never caught).
\<close>

record 's span =
  span_text :: pystr
  span_size :: 's
  span_font :: pystr

datatype 's block = Text_Block "'s span list list" | Other_Block

type_synonym 's page = "'s block list"

datatype error =
  Open_Error pystr | Page_Error page_no pystr | Write_Error pystr | Mkdir_Error pystr | List_Error pystr

type_synonym 's document = "(error + 's page) list"

record 's text_block =
  block_text :: pystr
  font_size :: 's
  font :: pystr
  is_bold :: bool
  lang :: pystr
  page :: page_no

type_synonym detector = "pystr \<Rightarrow> pystr option"

definition detect_lang :: "detector \<Rightarrow> pystr \<Rightarrow> pystr" where
  "detect_lang detect t = (case detect t of Some l \<Rightarrow> l | None \<Rightarrow> '''')"

definition span_block :: "detector \<Rightarrow> page_no \<Rightarrow> 's span \<Rightarrow> 's text_block option" where
  "span_block detect page_num sp =
     (let t = py_strip (span_text sp) in
      if \<not> is_heading t then None
      else Some \<lparr>block_text = t, font_size = span_size sp, font = span_font sp,
                 is_bold = py_contains ''Bold'' (span_font sp),
                 lang = detect_lang detect t, page = page_num\<rparr>)"

definition block_blocks :: "detector \<Rightarrow> page_no \<Rightarrow> 's block \<Rightarrow> 's text_block list" where
  "block_blocks detect page_num b =
     (case b of
        Other_Block \<Rightarrow> []
      | Text_Block lines \<Rightarrow>
          concat (map (\<lambda>line. List.map_filter (span_block detect page_num) line) lines))"

definition page_blocks :: "detector \<Rightarrow> page_no \<Rightarrow> 's page \<Rightarrow> 's text_block list" where
  "page_blocks detect page_num blocks = concat (map (block_blocks detect page_num) blocks)"

fun extract_pages ::
  "detector \<Rightarrow> page_no \<Rightarrow> 's document \<Rightarrow> error + 's text_block list" where
  "extract_pages detect n [] = Inr []"
| "extract_pages detect n (p # ps) =
     (case p of
        Inl e \<Rightarrow> Inl e
      | Inr blocks \<Rightarrow>
          (case extract_pages detect (Suc n) ps of
             Inl e \<Rightarrow> Inl e
           | Inr tbs \<Rightarrow> Inr (page_blocks detect n blocks @ tbs)))"

subsection \<open>The spans of a page\<close>

definition block_spans :: "'s block \<Rightarrow> 's span list" where
  "block_spans b = (case b of Other_Block \<Rightarrow> [] | Text_Block lines \<Rightarrow> concat lines)"

definition page_spans :: "'s page \<Rightarrow> 's span list" where
  "page_spans blocks = concat (map block_spans blocks)"

lemma map_filter_concat:
  "List.map_filter f (concat xss) = concat (map (List.map_filter f) xss)"
  by (induction xss) (simp_all add: map_filter_simps List.map_filter_def)

lemma block_blocks_spans:
  "block_blocks detect n b = List.map_filter (span_block detect n) (block_spans b)"
  by (cases b) (simp_all add: block_blocks_def block_spans_def map_filter_concat)

lemma page_blocks_spans:
  "page_blocks detect n blocks = List.map_filter (span_block detect n) (page_spans blocks)"
  by (simp add: page_blocks_def page_spans_def map_filter_concat block_blocks_spans [abs_def] comp_def)

lemma span_block_Some:
  "span_block detect n sp = Some b \<Longrightarrow>
     block_text b = py_strip (span_text sp) \<and> is_heading (block_text b) \<and>
     font_size b = span_size sp \<and> font b = span_font sp \<and>
     is_bold b = py_contains ''Bold'' (font b) \<and> page b = n"
  by (auto simp: span_block_def Let_def split: if_splits)

subsection \<open>The page loop\<close>

lemma extract_pages_error:
  "extract_pages detect n (map Inr pre @ Inl e # post) = Inl e"
  by (induction pre arbitrary: n) auto

lemma extract_pages_ok:
  "extract_pages detect n (map Inr pages) =
     Inr (concat (map (\<lambda>(i, bs). page_blocks detect i bs) (enumerate n pages)))"
  by (induction pages arbitrary: n) auto

lemma page_blocks_page:
  "b \<in> set (page_blocks detect i bs) \<Longrightarrow> page b = i"
  by (auto simp: page_blocks_spans in_set_map_filter dest: span_block_Some)

lemma pages_sorted:
  "sorted (map page (concat (map (\<lambda>(i, bs). page_blocks detect i bs) (enumerate n pages))))"
proof (induction pages arbitrary: n)
  case Nil
  then show ?case by simp
next
  case (Cons bs pages)
  have "b \<in> set (concat (map (\<lambda>(i, bs). page_blocks detect i bs) (enumerate (Suc n) pages)))
        \<Longrightarrow> n \<le> page b" for b
    by (auto simp: in_set_enumerate_eq dest!: page_blocks_page)
  moreover have "sorted (map page (page_blocks detect n bs))"
    by (rule sorted_const [where c = n]) (auto dest: page_blocks_page)
  ultimately show ?case using Cons.IH [of "Suc n"]
    by (auto simp: sorted_append page_blocks_page)
qed

lemma extract_pages_block:
  "b \<in> set (concat (map (\<lambda>(i, bs). page_blocks detect i bs) (enumerate n pages))) \<Longrightarrow>
   \<exists>i sp. n \<le> i \<and> i < n + length pages \<and> sp \<in> set (page_spans (pages ! (i - n))) \<and>
          span_block detect i sp = Some b"
  by (fastforce simp: in_set_enumerate_eq page_blocks_spans in_set_map_filter)

end
