(* ===== verification/Ranker.thy ===== *)
theory Ranker
  imports Source
begin

text \<open>
  The Font-Level Ranker, lines 46--48 of src/main.py: the distinct font sizes of the
  extracted blocks sorted in descending order (\<open>font_sizes\<close>), and the dictionary
  comprehension that maps the first three of them to the labels \<open>"H1"\<close>, \<open>"H2"\<close>,
  \<open>"H3"\<close> (\<open>size_to_level\<close>). Font sizes are any linear order (PyMuPDF's floats
  without NaN). The abstract specification is \<open>rank_level\<close>: a size gets the label
  \<open>H(r+1)\<close> where \<open>r\<close> is the number of strictly larger sizes of the document,
  provided \<open>r < 3\<close>.
\<close>

definition font_sizes :: "'s::linorder text_block list \<Rightarrow> 's list" where
  "font_sizes text_blocks = rev (sorted_list_of_set (set (map font_size text_blocks)))"

text \<open>Python's \<open>str\<close> of a non-negative integer, used by the f-string \<open>f"H{i+1}"\<close>.\<close>

fun nat_str :: "nat \<Rightarrow> pystr" where
  "nat_str n =
     (if n < 10 then [char_of (48 + n)] else nat_str (n div 10) @ [char_of (48 + n mod 10)])"

declare nat_str.simps [simp del]

definition level_label :: "nat \<Rightarrow> pystr" where
  "level_label i = ''H'' @ nat_str (i + 1)"

definition size_to_level :: "'s list \<Rightarrow> ('s \<rightharpoonup> pystr)" where
  "size_to_level sizes = dict_of (map (\<lambda>(i, size). (size, level_label i)) (enumerate 0 (take 3 sizes)))"

subsection \<open>Abstract specification\<close>

definition rank :: "'s::linorder set \<Rightarrow> 's \<Rightarrow> nat" where
  "rank S s = card {t \<in> S. s < t}"

definition rank_level :: "'s::linorder set \<Rightarrow> 's \<Rightarrow> pystr option" where
  "rank_level S s = (if s \<in> S \<and> rank S s < 3 then Some (level_label (rank S s)) else None)"

subsection \<open>Lemmas\<close>

lemma level_label_small [simp]:
  "level_label 0 = ''H1''" "level_label (Suc 0) = ''H2''" "level_label (Suc (Suc 0)) = ''H3''"
  "level_label 1 = ''H2''" "level_label 2 = ''H3''"
  by code_simp+

lemma font_sizes_desc: "sorted_wrt (>) (font_sizes tbs)"
  by (simp add: font_sizes_def sorted_wrt_rev)

lemma font_sizes_distinct: "distinct (font_sizes tbs)"
  by (simp add: font_sizes_def)

lemma set_font_sizes [simp]: "set (font_sizes tbs) = font_size ` set tbs"
  by (simp add: font_sizes_def)

lemma enumerate_swap_zip:
  "map (\<lambda>(i, x). (x, f i)) (enumerate k xs) = zip xs (map f [k..<k + length xs])"
proof (induction xs arbitrary: k)
  case Nil
  then show ?case by simp
next
  case (Cons x xs)
  have "[k..<k + length (x # xs)] = k # [Suc k..<Suc k + length xs]"
    by (simp add: upt_rec)
  with Cons.IH [of "Suc k"] show ?case by simp
qed

lemma size_to_level_zip:
  "distinct xs \<Longrightarrow>
   size_to_level xs = map_of (zip (take 3 xs) (map level_label [0..<length (take 3 xs)]))"
  by (simp add: size_to_level_def enumerate_swap_zip)

lemma size_to_level_rank_level:
  "size_to_level (font_sizes tbs) = rank_level (font_size ` set tbs)"
proof
  fix s
  let ?xs = "font_sizes tbs" and ?S = "font_size ` set tbs"
  have d: "distinct ?xs" and sd: "sorted_wrt (>) ?xs" and S: "set ?xs = ?S"
    by (simp_all add: font_sizes_distinct font_sizes_desc)
  show "size_to_level ?xs s = rank_level ?S s"
  proof (cases "s \<in> ?S")
    case False
    then have "s \<notin> set (take 3 ?xs)" using S by (auto dest: in_set_takeD)
    then show ?thesis using False d
      by (auto simp: size_to_level_zip rank_level_def map_of_eq_None_iff dest: set_zip_leftD)
  next
    case True
    then obtain i where i: "i < length ?xs" "?xs ! i = s" using S by (metis in_set_conv_nth)
    have r: "rank ?S s = i"
      using sorted_desc_card_greater [OF sd i(1)] i(2) S by (simp add: rank_def)
    show ?thesis
    proof (cases "i < 3")
      case True
      have "map_of (zip (take 3 ?xs) (map level_label [0..<length (take 3 ?xs)])) (take 3 ?xs ! i)
            = Some (map level_label [0..<length (take 3 ?xs)] ! i)"
        by (rule map_of_zip_nth) (use d i True in auto)
      then show ?thesis using True i r d \<open>s \<in> ?S\<close>
        by (simp add: size_to_level_zip rank_level_def)
    next
      case False
      have "s \<notin> set (take 3 ?xs)"
      proof
        assume "s \<in> set (take 3 ?xs)"
        then obtain j where "j < length (take 3 ?xs)" "take 3 ?xs ! j = s"
          by (metis in_set_conv_nth)
        then have "j < 3" "?xs ! j = s" by auto
        with i d False show False by (metis nth_eq_iff_index_eq le_less_trans less_le_not_le
            length_take min_less_iff_conj \<open>j < length (take 3 ?xs)\<close> not_less)
      qed
      then show ?thesis using False r d
        by (auto simp: size_to_level_zip rank_level_def map_of_eq_None_iff dest: set_zip_leftD)
    qed
  qed
qed

lemma rank_strict_mono:
  assumes "finite S" and "s2 \<in> S" and "s1 < s2"
  shows "rank S s2 < rank S s1"
proof -
  have "{t \<in> S. s2 < t} \<subset> {t \<in> S. s1 < t}"
    using assms(2,3) by auto
  then show ?thesis
    unfolding rank_def using assms(1) by (simp add: psubset_card_mono)
qed

text \<open>
  The sizes of rank below 3 keep their rank among themselves: every larger size has a
  smaller rank. So the levels computed from those sizes alone are the same.
\<close>

lemma rank_restrict:
  assumes "finite S" and "rank S x < 3"
  shows "rank {y \<in> S. rank S y < 3} x = rank S x"
proof -
  have "{t \<in> {y \<in> S. rank S y < 3}. x < t} = {t \<in> S. x < t}"
    using rank_strict_mono [OF assms(1)] assms(2) by (auto intro: less_trans)
  then show ?thesis by (simp add: rank_def)
qed

lemma rank_level_restrict:
  "finite S \<Longrightarrow> rank_level {y \<in> S. rank S y < 3} = rank_level S"
  by (auto simp: fun_eq_iff rank_level_def rank_restrict)

lemma rank_Max: "finite S \<Longrightarrow> rank S (Max S) = 0"
proof -
  assume "finite S"
  then have "{t \<in> S. Max S < t} = {}" using Max_ge leD by blast
  then show ?thesis unfolding rank_def by (metis card.empty)
qed

lemma rank_level_Some:
  "rank_level S s = Some l \<Longrightarrow> s \<in> S \<and> rank S s < 3 \<and> l = level_label (rank S s)"
  by (simp add: rank_level_def split: if_splits)

lemma size_to_level_SomeD:
  "size_to_level (font_sizes tbs) s = Some l \<Longrightarrow>
   s \<in> font_size ` set tbs \<and> rank (font_size ` set tbs) s < 3 \<and>
   l = level_label (rank (font_size ` set tbs) s)"
  by (intro rank_level_Some) (simp add: size_to_level_rank_level)

lemma level_label_rank_set: "r < 3 \<Longrightarrow> level_label r \<in> {''H1'', ''H2'', ''H3''}"
  by (auto simp: less_Suc_eq numeral_3_eq_3)

text \<open>
  C2: the ranker implements its abstract specification: the level dictionary built from
  the sorted distinct sizes maps a size \<open>s\<close> to \<open>H(r+1)\<close>, where \<open>r\<close> is the
  number of distinct sizes of the document strictly larger than \<open>s\<close>, when \<open>r < 3\<close>,
  and has no entry for \<open>s\<close> otherwise.
\<close>

theorem size_to_level_refines:
  "size_to_level (font_sizes tbs) = rank_level (font_size ` set tbs)"
  by (rule size_to_level_rank_level)

text \<open>
  C12: \<open>font_sizes\<close> (line 47) lists exactly the font sizes of the blocks, without
  duplicates, in strictly descending order.
\<close>

theorem font_sizes_spec:
  "sorted_wrt (>) (font_sizes tbs) \<and> distinct (font_sizes tbs) \<and>
   set (font_sizes tbs) = font_size ` set tbs"
  by (simp add: font_sizes_desc font_sizes_distinct)

text \<open>
  The level dictionary has exactly \<open>min 3 n\<close> entries, \<open>n\<close> the number of
  distinct font sizes: never more than three heading levels.
\<close>

theorem size_to_level_card:
  "card (dom (size_to_level (font_sizes tbs))) = min 3 (card (font_size ` set tbs))"
proof -
  let ?xs = "font_sizes tbs"
  have "dom (size_to_level ?xs) = set (take 3 ?xs)"
    by (simp add: size_to_level_zip font_sizes_distinct)
  moreover have "card (set (take 3 ?xs)) = min 3 (length ?xs)"
    by (simp add: distinct_card font_sizes_distinct)
  moreover have "length ?xs = card (font_size ` set tbs)"
    using distinct_card [OF font_sizes_distinct [of tbs]] by simp
  ultimately show ?thesis by simp
qed

text \<open>C13: every level the dictionary hands out is one of \<open>"H1"\<close>, \<open>"H2"\<close>, \<open>"H3"\<close>.\<close>

theorem size_to_level_labels:
  "size_to_level (font_sizes tbs) s = Some l \<Longrightarrow> l \<in> {''H1'', ''H2'', ''H3''}"
proof -
  assume "size_to_level (font_sizes tbs) s = Some l"
  then have "rank (font_size ` set tbs) s < 3" and "l = level_label (rank (font_size ` set tbs) s)"
    by (simp_all add: size_to_level_SomeD)
  then show ?thesis using level_label_rank_set by metis
qed

text \<open>
  Levels are assigned in strict descending size order: of two sizes that both get a
  level, the larger one gets the smaller index.
\<close>

theorem size_to_level_mono:
  assumes "s1 < s2"
    and "size_to_level (font_sizes tbs) s1 = Some l1"
    and "size_to_level (font_sizes tbs) s2 = Some l2"
  shows "\<exists>i j. j < i \<and> i < 3 \<and> l1 = level_label i \<and> l2 = level_label j"
proof -
  let ?S = "font_size ` set tbs"
  have 1: "s1 \<in> ?S \<and> rank ?S s1 < 3 \<and> l1 = level_label (rank ?S s1)"
    using assms(2) by (rule size_to_level_SomeD)
  have 2: "s2 \<in> ?S \<and> rank ?S s2 < 3 \<and> l2 = level_label (rank ?S s2)"
    using assms(3) by (rule size_to_level_SomeD)
  have "rank ?S s2 < rank ?S s1"
    using rank_strict_mono [of ?S s2 s1] 2 assms(1) by simp
  with 1 2 show ?thesis by blast
qed

text \<open>The largest font size of a non-empty document is level \<open>"H1"\<close>.\<close>

theorem size_to_level_max:
  "tbs \<noteq> [] \<Longrightarrow> size_to_level (font_sizes tbs) (Max (font_size ` set tbs)) = Some ''H1''"
  by (simp add: size_to_level_rank_level rank_level_def rank_Max)


end
