(* ===== verification/Assembler.thy ===== *)
theory Assembler
  imports Ranker
begin

text \<open>
  The Outline Assembler, lines 50--70 of src/main.py. The loop over \<open>text_blocks\<close>
  keeps two variables, \<open>seen\<close> (a set of \<open>(text, page)\<close> pairs) and \<open>outline\<close> (the
  entries so far); they form the record \<open>asm_state\<close>, and one iteration is
  \<open>assemble_step\<close>: look the block's size up in the level dictionary, skip it when the
  level is missing or empty (\<open>if not level\<close>), skip it when its identifier was seen,
  otherwise record the identifier and append an entry. The title (line 66) is the text of
  the first entry, or the file's base name with \<open>".pdf"\<close> removed.
  The reference \<open>first_by_key\<close> keeps the first element of every key, and the loop is
  proved to compute it on the candidate entries.
\<close>

record outline_entry =
  level :: pystr
  entry_text :: pystr
  entry_page :: page_no

record asm_state =
  seen :: "(pystr \<times> page_no) set"
  outline :: "outline_entry list"

record result =
  res_title :: pystr
  res_outline :: "outline_entry list"

definition asm_init :: asm_state where
  "asm_init = \<lparr>seen = {}, outline = []\<rparr>"

definition assemble_step :: "('s \<rightharpoonup> pystr) \<Rightarrow> asm_state \<Rightarrow> 's text_block \<Rightarrow> asm_state" where
  "assemble_step lvl st block =
     (case lvl (font_size block) of
        None \<Rightarrow> st
      | Some lv \<Rightarrow>
          if lv = [] then st
          else
            (let identifier = (block_text block, page block) in
             if identifier \<in> seen st then st
             else \<lparr>seen = insert identifier (seen st),
                   outline = outline st @
                     [\<lparr>level = lv, entry_text = block_text block, entry_page = page block\<rparr>]\<rparr>))"

fun assemble_loop :: "('s \<rightharpoonup> pystr) \<Rightarrow> asm_state \<Rightarrow> 's text_block list \<Rightarrow> asm_state" where
  "assemble_loop lvl st [] = st"
| "assemble_loop lvl st (b # bs) = assemble_loop lvl (assemble_step lvl st b) bs"

definition assemble :: "('s \<rightharpoonup> pystr) \<Rightarrow> 's text_block list \<Rightarrow> outline_entry list" where
  "assemble lvl text_blocks = outline (assemble_loop lvl asm_init text_blocks)"

definition title_of :: "outline_entry list \<Rightarrow> pystr \<Rightarrow> pystr" where
  "title_of outl pdf_path =
     (case outl of
        e # _ \<Rightarrow> entry_text e
      | [] \<Rightarrow> py_replace ''.pdf'' '''' (py_basename pdf_path))"

definition make_result :: "outline_entry list \<Rightarrow> pystr \<Rightarrow> result" where
  "make_result outl pdf_path = \<lparr>res_title = title_of outl pdf_path, res_outline = outl\<rparr>"

subsection \<open>Reference definition\<close>

definition entry_key :: "outline_entry \<Rightarrow> pystr \<times> page_no" where
  "entry_key e = (entry_text e, entry_page e)"

definition candidate :: "('s \<rightharpoonup> pystr) \<Rightarrow> 's text_block \<Rightarrow> outline_entry option" where
  "candidate lvl b =
     (case lvl (font_size b) of
        None \<Rightarrow> None
      | Some lv \<Rightarrow>
          if lv = [] then None
          else Some \<lparr>level = lv, entry_text = block_text b, entry_page = page b\<rparr>)"

fun first_by_key :: "('a \<Rightarrow> 'k) \<Rightarrow> 'a list \<Rightarrow> 'a list" where
  "first_by_key f [] = []"
| "first_by_key f (x # xs) = x # first_by_key f (filter (\<lambda>y. f y \<noteq> f x) xs)"

definition asm_inv :: "asm_state \<Rightarrow> bool" where
  "asm_inv st \<longleftrightarrow>
     seen st = entry_key ` set (outline st) \<and> distinct (map entry_key (outline st))"

subsection \<open>The step in terms of candidates\<close>

lemma assemble_step_candidate:
  "assemble_step lvl st b =
     (case candidate lvl b of
        None \<Rightarrow> st
      | Some e \<Rightarrow>
          if entry_key e \<in> seen st then st
          else \<lparr>seen = insert (entry_key e) (seen st), outline = outline st @ [e]\<rparr>)"
  by (auto simp: assemble_step_def candidate_def entry_key_def Let_def split: option.splits)

lemma assemble_loop_first_by_key:
  "outline (assemble_loop lvl st bs) =
     outline st @
     first_by_key entry_key
       (filter (\<lambda>e. entry_key e \<notin> seen st) (List.map_filter (candidate lvl) bs))"
proof (induction bs arbitrary: st)
  case Nil
  then show ?case by simp
next
  case (Cons b bs)
  show ?case
  proof (cases "candidate lvl b")
    case None
    then show ?thesis using Cons.IH by (simp add: assemble_step_candidate)
  next
    case (Some e)
    show ?thesis
    proof (cases "entry_key e \<in> seen st")
      case True
      then show ?thesis using Some Cons.IH by (simp add: assemble_step_candidate)
    next
      case False
      have "filter (\<lambda>y. entry_key y \<noteq> entry_key e) (filter (\<lambda>e. entry_key e \<notin> seen st) xs) =
            filter (\<lambda>y. entry_key y \<notin> insert (entry_key e) (seen st)) xs" for xs
        by (simp add: filter_filter conj_commute)
      then show ?thesis using Some False Cons.IH by (simp add: assemble_step_candidate)
    qed
  qed
qed

lemma assemble_eq_first_by_key:
  "assemble lvl tbs = first_by_key entry_key (List.map_filter (candidate lvl) tbs)"
  by (simp add: assemble_def assemble_loop_first_by_key asm_init_def)

subsection \<open>Properties of the reference\<close>

lemma set_first_by_key: "set (first_by_key f xs) \<subseteq> set xs"
  by (induction f xs rule: first_by_key.induct) auto

lemma distinct_first_by_key: "distinct (map f (first_by_key f xs))"
  by (induction f xs rule: first_by_key.induct) (auto dest: set_mp [OF set_first_by_key])

lemma keys_first_by_key: "f ` set (first_by_key f xs) = f ` set xs"
  by (induction f xs rule: first_by_key.induct) auto

lemma subseq_first_by_key: "subseq (first_by_key f xs) xs"
proof (induction f xs rule: first_by_key.induct)
  case (1 f)
  then show ?case by simp
next
  case (2 f x xs)
  then have "subseq (first_by_key f (filter (\<lambda>y. f y \<noteq> f x) xs)) xs"
    using subseq_order.trans subseq_filter_left by blast
  then show ?case by simp
qed

lemma first_by_key_append:
  "first_by_key f (xs @ ys) = first_by_key f xs @ first_by_key f (filter (\<lambda>y. f y \<notin> f ` set xs) ys)"
proof (induction f xs arbitrary: ys rule: first_by_key.induct)
  case (1 f)
  then show ?case by simp
next
  case (2 f x xs)
  have "filter (\<lambda>y. f y \<notin> f ` set (filter (\<lambda>y. f y \<noteq> f x) xs)) (filter (\<lambda>y. f y \<noteq> f x) ys) =
        filter (\<lambda>y. f y \<notin> f ` set (x # xs)) ys"
    by (auto simp: filter_filter intro!: filter_cong)
  with "2.IH" [of "filter (\<lambda>y. f y \<noteq> f x) ys"] show ?case by simp
qed

lemma first_by_key_append_seen:
  "f ` set ys \<subseteq> f ` set xs \<Longrightarrow> first_by_key f (xs @ ys) = first_by_key f xs"
proof -
  assume "f ` set ys \<subseteq> f ` set xs"
  then have "filter (\<lambda>y. f y \<notin> f ` set xs) ys = []" by (auto simp: filter_empty_conv)
  then show ?thesis by (simp add: first_by_key_append)
qed

lemma find_filter_weaker:
  "(\<And>z. P z \<Longrightarrow> Q z) \<Longrightarrow> find P (filter Q xs) = find P xs"
  by (induction xs) auto

lemma first_by_key_find:
  "y \<in> set (first_by_key f xs) \<Longrightarrow> find (\<lambda>z. f z = f y) xs = Some y"
proof (induction f xs rule: first_by_key.induct)
  case (1 f)
  then show ?case by simp
next
  case (2 f x xs)
  show ?case
  proof (cases "y = x")
    case True
    then show ?thesis by simp
  next
    case False
    with "2.prems" have y: "y \<in> set (first_by_key f (filter (\<lambda>z. f z \<noteq> f x) xs))" by simp
    then have "y \<in> set (filter (\<lambda>z. f z \<noteq> f x) xs)" by (rule subsetD [OF set_first_by_key])
    then have fy: "f y \<noteq> f x" by simp
    then have fx: "\<not> f x = f y" by metis
    have "find (\<lambda>z. f z = f y) (filter (\<lambda>z. f z \<noteq> f x) xs) = Some y"
      using y by (rule "2.IH")
    moreover have "find (\<lambda>z. f z = f y) (filter (\<lambda>z. f z \<noteq> f x) xs) = find (\<lambda>z. f z = f y) xs"
      by (rule find_filter_weaker) (use fy in auto)
    ultimately have "find (\<lambda>z. f z = f y) xs = Some y" by simp
    then show ?thesis using fx by simp
  qed
qed

subsection \<open>The loop invariant\<close>

lemma asm_inv_init [outline_inv]: "asm_inv asm_init"
  by (simp add: asm_inv_def asm_init_def)

lemma assemble_step_inv [outline_inv]:
  "asm_inv st \<Longrightarrow> asm_inv (assemble_step lvl st b)"
  by (auto simp: asm_inv_def assemble_step_candidate split: option.splits)

subsection \<open>Properties of the assembler\<close>

text \<open>
  C1: the loop of lines 50--64 computes the reference: the outline is the list of
  candidate entries (blocks whose size has a non-empty level) in which only the first entry
  of every \<open>(text, page)\<close> identifier is kept.
\<close>

theorem assemble_refines:
  "assemble lvl tbs = first_by_key entry_key (List.map_filter (candidate lvl) tbs)"
  by (rule assemble_eq_first_by_key)

text \<open>
  C9: first occurrence wins: the entry kept for an identifier is the first candidate
  entry with that identifier, so a later fragment with the same text and page but another
  size or font never replaces it.
\<close>

theorem assemble_first_wins:
  "e \<in> set (assemble lvl tbs) \<Longrightarrow>
   find (\<lambda>c. entry_key c = entry_key e) (List.map_filter (candidate lvl) tbs) = Some e"
  unfolding assemble_eq_first_by_key by (rule first_by_key_find)

text \<open>
  C14: the loop keeps its invariant: \<open>seen\<close> is exactly the set of identifiers of the
  entries in \<open>outline\<close>, and no identifier occurs twice in \<open>outline\<close>.
\<close>

theorem assemble_loop_inv:
  "asm_inv st \<Longrightarrow> asm_inv (assemble_loop lvl st bs)"
  by (induction bs arbitrary: st) (simp_all add: outline_inv)

text \<open>
  C15: the outline keeps the encounter order: it is a subsequence of the candidate
  entries.
\<close>

theorem assemble_subseq:
  "subseq (assemble lvl tbs) (List.map_filter (candidate lvl) tbs)"
  by (simp add: assemble_eq_first_by_key subseq_first_by_key)

text \<open>
  C16: fragments whose identifiers already occurred add nothing: appending to a sequence
  fragments whose candidate entries all have \<open>(text, page)\<close> identifiers of earlier
  candidates (for instance the same sequence again) leaves the outline unchanged.
\<close>

theorem assemble_repeated:
  "entry_key ` set (List.map_filter (candidate lvl) tbs') \<subseteq> entry_key ` set (List.map_filter (candidate lvl) tbs) \<Longrightarrow>
   assemble lvl (tbs @ tbs') = assemble lvl tbs"
  by (simp add: assemble_eq_first_by_key map_filter_append first_by_key_append_seen)

end
