(* ===== verification/Extract.thy ===== *)
theory Extract
  imports Assembler
begin

text \<open>
  \<open>extract_headings\<close> of src/main.py (lines 14--77) composed from the components: open
  the document (\<open>fitz.open\<close>, a parameter that may fail), run the span loop over its
  pages, rank the font sizes, assemble the outline and shape the result. The body of the
  \<open>try\<close> (lines 15--70) is \<open>extract_try\<close>, whose \<open>Inl\<close> is the exception it raises (an
  unreadable document, a page whose text cannot be read); the \<open>except\<close> branch (lines
  71--77) logs the failure (\<open>extract_log\<close>, line 73) and returns the fixed record
  \<open>{"title": "Error", "outline": []}\<close>.
\<close>

type_synonym 's opener = "pystr \<Rightarrow> error + 's document"

text \<open>
  The messages the program logs: the start of the run (line 91, with the time stamp of
  \<open>datetime.now().isoformat()\<close>), a document that failed (line 73, with the path and the
  exception) and a file that was written (line 88, with the listed name and the base name
  of the output path). \<open>basicConfig(level=logging.INFO)\<close> (line 8) lets all of them through.
\<close>

datatype log_msg = Started pystr | Failed pystr error | Processed pystr pystr

definition error_result :: result where
  "error_result = \<lparr>res_title = ''Error'', res_outline = []\<rparr>"

definition extract_try :: "detector \<Rightarrow> 's::linorder opener \<Rightarrow> pystr \<Rightarrow> error + result" where
  "extract_try detect fitz_open pdf_path =
     (case fitz_open pdf_path of
        Inl e \<Rightarrow> Inl e
      | Inr doc \<Rightarrow>
          (case extract_pages detect 1 doc of
             Inl e \<Rightarrow> Inl e
           | Inr text_blocks \<Rightarrow>
               (let sizes = font_sizes text_blocks;
                    lvl = size_to_level sizes;
                    outl = assemble lvl text_blocks
                in Inr (make_result outl pdf_path))))"

definition extract_headings :: "detector \<Rightarrow> 's::linorder opener \<Rightarrow> pystr \<Rightarrow> result" where
  "extract_headings detect fitz_open pdf_path =
     (case extract_try detect fitz_open pdf_path of
        Inl e \<Rightarrow> error_result
      | Inr r \<Rightarrow> r)"

definition extract_log :: "detector \<Rightarrow> 's::linorder opener \<Rightarrow> pystr \<Rightarrow> log_msg list" where
  "extract_log detect fitz_open pdf_path =
     (case extract_try detect fitz_open pdf_path of
        Inl e \<Rightarrow> [Failed pdf_path e]
      | Inr r \<Rightarrow> [])"

definition set_lang :: "detector \<Rightarrow> 's text_block \<Rightarrow> 's text_block" where
  "set_lang detect b = b\<lparr>lang := detect_lang detect (block_text b)\<rparr>"

definition doc_blocks :: "detector \<Rightarrow> 's page list \<Rightarrow> 's text_block list" where
  "doc_blocks detect pages =
     concat (map (\<lambda>(i, bs). page_blocks detect i bs) (enumerate 1 pages))"

subsection \<open>The composition on a readable document\<close>

lemma extract_headings_ok:
  "fitz_open p = Inr (map Inr pages) \<Longrightarrow>
   extract_headings detect fitz_open p =
     make_result (assemble (size_to_level (font_sizes (doc_blocks detect pages)))
                    (doc_blocks detect pages)) p"
  by (simp add: extract_headings_def extract_try_def extract_pages_ok doc_blocks_def)

lemma extract_headings_open_error:
  "fitz_open p = Inl e \<Longrightarrow> extract_headings detect fitz_open p = error_result"
  by (simp add: extract_headings_def extract_try_def)

lemma extract_headings_page_error:
  "fitz_open p = Inr (map Inr pre @ Inl e # post) \<Longrightarrow>
   extract_headings detect fitz_open p = error_result"
  by (simp add: extract_headings_def extract_try_def extract_pages_error)

subsection \<open>Language tags do not reach the outline\<close>

lemma span_block_lang:
  "span_block detect n sp = map_option (set_lang detect) (span_block (\<lambda>_. None) n sp)"
  by (simp add: span_block_def set_lang_def detect_lang_def Let_def)

lemma map_filter_map_option:
  "(\<And>x. f x = map_option g (h x)) \<Longrightarrow> List.map_filter f xs = map g (List.map_filter h xs)"
  by (induction xs) (auto split: option.splits)

lemma page_blocks_lang:
  "page_blocks detect n bs = map (set_lang detect) (page_blocks (\<lambda>_. None) n bs)"
  unfolding page_blocks_spans by (rule map_filter_map_option) (rule span_block_lang)

lemma doc_blocks_lang:
  "doc_blocks detect pages = map (set_lang detect) (doc_blocks (\<lambda>_. None) pages)"
  by (simp add: doc_blocks_def map_concat page_blocks_lang [of detect] split_def comp_def)

lemma extract_pages_lang:
  "extract_pages detect n doc = map_sum id (map (set_lang detect)) (extract_pages (\<lambda>_. None) n doc)"
proof (induction doc arbitrary: n)
  case Nil
  then show ?case by simp
next
  case (Cons p ps)
  then show ?case
    by (auto simp: page_blocks_lang [of detect] split: sum.splits)
qed

lemma font_sizes_set_lang [simp]: "font_sizes (map (set_lang detect) tbs) = font_sizes tbs"
  by (simp add: font_sizes_def set_lang_def comp_def)

lemma candidate_set_lang [simp]: "candidate lvl (set_lang detect b) = candidate lvl b"
  by (simp add: candidate_def set_lang_def split: option.split)

lemma map_filter_map: "List.map_filter f (map g xs) = List.map_filter (f \<circ> g) xs"
  by (induction xs) (auto split: option.splits)

lemma assemble_set_lang [simp]: "assemble lvl (map (set_lang detect) tbs) = assemble lvl tbs"
  by (simp add: assemble_eq_first_by_key map_filter_map comp_def)

subsection \<open>End-to-end properties\<close>

lemma extract_pages_Inr:
  "extract_pages detect n doc = Inr tbs \<Longrightarrow>
   \<exists>pages. doc = map Inr pages \<and>
     tbs = concat (map (\<lambda>(i, bs). page_blocks detect i bs) (enumerate n pages))"
proof (induction doc arbitrary: n tbs)
  case Nil
  then show ?case by simp
next
  case (Cons p ps)
  then obtain bs tbs' where p: "p = Inr bs" and r: "extract_pages detect (Suc n) ps = Inr tbs'"
    and t: "tbs = page_blocks detect n bs @ tbs'"
    by (auto split: sum.splits)
  from Cons.IH [OF r] obtain pages where "ps = map Inr pages"
    and "tbs' = concat (map (\<lambda>(i, bs). page_blocks detect i bs) (enumerate (Suc n) pages))"
    by blast
  with p t show ?case by (intro exI [of _ "bs # pages"]) simp
qed

lemma extract_headings_cases:
  "extract_headings detect fitz_open p = error_result \<or>
   (\<exists>pages. fitz_open p = Inr (map Inr pages) \<and>
      extract_headings detect fitz_open p =
        make_result (assemble (size_to_level (font_sizes (doc_blocks detect pages)))
                       (doc_blocks detect pages)) p)"
proof (cases "fitz_open p")
  case (Inl e)
  then show ?thesis by (simp add: extract_headings_open_error)
next
  case (Inr doc)
  show ?thesis
  proof (cases "extract_pages detect 1 doc")
    case (Inl e)
    with Inr show ?thesis by (simp add: extract_headings_def extract_try_def)
  next
    case (Inr tbs)
    then obtain pages where "doc = map Inr pages" by (blast dest: extract_pages_Inr)
    with \<open>fitz_open p = Inr doc\<close> show ?thesis by (simp add: extract_headings_ok)
  qed
qed

lemma doc_blocks_block:
  "b \<in> set (doc_blocks detect pages) \<Longrightarrow>
   is_heading (block_text b) \<and> py_strip (block_text b) = block_text b \<and>
   1 \<le> page b \<and> page b \<le> length pages"
proof -
  assume "b \<in> set (doc_blocks detect pages)"
  then obtain i sp where i: "1 \<le> i" "i < 1 + length pages" and sp: "span_block detect i sp = Some b"
    unfolding doc_blocks_def by (blast dest: extract_pages_block)
  from sp have "block_text b = py_strip (span_text sp) \<and> is_heading (block_text b) \<and> page b = i"
    by (blast dest: span_block_Some)
  with i show ?thesis by (auto simp: py_strip_idem)
qed

lemma doc_blocks_sorted: "sorted (map page (doc_blocks detect pages))"
  by (simp add: doc_blocks_def pages_sorted)

lemma candidate_Some:
  "candidate lvl b = Some e \<Longrightarrow>
   entry_text e = block_text b \<and> entry_page e = page b \<and>
   lvl (font_size b) = Some (level e) \<and> level e \<noteq> []"
  by (auto simp: candidate_def split: option.splits if_splits)

lemma assemble_from_block:
  "e \<in> set (assemble lvl tbs) \<Longrightarrow> \<exists>b\<in>set tbs. candidate lvl b = Some e"
  using set_first_by_key [of entry_key "List.map_filter (candidate lvl) tbs"]
  by (auto simp: assemble_eq_first_by_key in_set_map_filter)

text \<open>
  C4: the language tag never influences the result: \<open>extract_headings\<close> returns the
  same record whatever the detector answers or raises.
\<close>

theorem extract_headings_lang_independent:
  "extract_headings detect1 fitz_open p = extract_headings detect2 fitz_open p"
proof (cases "fitz_open p")
  case (Inl e)
  then show ?thesis by (simp add: extract_headings_def extract_try_def)
next
  case (Inr doc)
  then show ?thesis
    by (cases "extract_pages (\<lambda>_. None) 1 doc")
      (simp_all add: extract_headings_def extract_try_def extract_pages_lang [of detect1]
        extract_pages_lang [of detect2])
qed

text \<open>
  C5: deduplication: no two entries of the outline share their \<open>(text, page)\<close>
  identifier.
\<close>

theorem outline_distinct:
  "distinct (map entry_key (res_outline (extract_headings detect fitz_open p)))"
  using extract_headings_cases [of detect fitz_open p]
  by (auto simp: error_result_def make_result_def assemble_eq_first_by_key distinct_first_by_key)

lemma map_entry_page_candidates:
  "map entry_page (List.map_filter (candidate lvl) tbs) =
   map page (filter (\<lambda>b. candidate lvl b \<noteq> None) tbs)"
  by (induction tbs) (auto split: option.splits dest: candidate_Some)

lemma assemble_pages_sorted:
  "sorted (map page tbs) \<Longrightarrow> sorted (map entry_page (assemble lvl tbs))"
proof -
  assume s: "sorted (map page tbs)"
  let ?c = "List.map_filter (candidate lvl) tbs"
  have "subseq (map entry_page (assemble lvl tbs)) (map entry_page ?c)"
    by (simp add: assemble_eq_first_by_key subseq_map subseq_first_by_key)
  moreover have "subseq (map entry_page ?c) (map page tbs)"
    by (simp add: map_entry_page_candidates subseq_map)
  ultimately have "subseq (map entry_page (assemble lvl tbs)) (map page tbs)"
    by (rule subseq_order.trans)
  then show ?thesis using s by (rule subseq_sorted_wrt)
qed

text \<open>C8: the outline is in reading order: its page numbers never decrease.\<close>

theorem outline_pages_sorted:
  "sorted (map entry_page (res_outline (extract_headings detect fitz_open p)))"
  using extract_headings_cases [of detect fitz_open p]
  by (auto simp: error_result_def make_result_def doc_blocks_sorted assemble_pages_sorted)

text \<open>
  C3: every failure inside the \<open>try\<close> block gives the fixed error record: a document
  that cannot be opened, and a document one of whose pages cannot be read, whatever the
  pages before and after it hold.
\<close>

theorem extract_headings_failure:
  "fitz_open p = Inl e \<or> fitz_open p = Inr (map Inr pre @ Inl e # post) \<Longrightarrow>
   extract_headings detect fitz_open p = error_result"
  by (erule disjE) (erule extract_headings_open_error, erule extract_headings_page_error)

lemma level_label_nonempty: "level_label i \<noteq> []"
  by (simp add: level_label_def)

text \<open>
  C6: completeness: every heading-shaped fragment whose size is among the three largest
  distinct sizes of a readable document has its \<open>(text, page)\<close> identifier in the
  outline.
\<close>

theorem outline_complete:
  assumes "fitz_open p = Inr (map Inr pages)"
    and "b \<in> set (doc_blocks detect pages)"
    and "rank (font_size ` set (doc_blocks detect pages)) (font_size b) < 3"
  shows "(block_text b, page b) \<in> entry_key ` set (res_outline (extract_headings detect fitz_open p))"
proof -
  let ?tbs = "doc_blocks detect pages"
  let ?lvl = "size_to_level (font_sizes ?tbs)"
  have "?lvl (font_size b) = Some (level_label (rank (font_size ` set ?tbs) (font_size b)))"
    using assms(2,3) by (simp add: size_to_level_rank_level rank_level_def)
  then obtain e where c: "candidate ?lvl b = Some e" and k: "entry_key e = (block_text b, page b)"
    by (simp add: candidate_def level_label_nonempty entry_key_def)
  then have "(block_text b, page b) \<in> entry_key ` set (List.map_filter (candidate ?lvl) ?tbs)"
    using assms(2) by (force simp: in_set_map_filter)
  then show ?thesis
    using assms(1) keys_first_by_key [of entry_key "List.map_filter (candidate ?lvl) ?tbs"]
    by (simp add: extract_headings_ok make_result_def assemble_eq_first_by_key)
qed

lemma outline_entry_wf:
  "e \<in> set (res_outline (extract_headings detect fitz_open p)) \<Longrightarrow>
   level e \<in> {''H1'', ''H2'', ''H3''} \<and> is_heading (entry_text e) \<and>
   py_strip (entry_text e) = entry_text e \<and> 1 \<le> entry_page e"
proof -
  assume e: "e \<in> set (res_outline (extract_headings detect fitz_open p))"
  then have "extract_headings detect fitz_open p \<noteq> error_result" by (auto simp: error_result_def)
  then obtain pages where "fitz_open p = Inr (map Inr pages)"
    and "extract_headings detect fitz_open p =
      make_result (assemble (size_to_level (font_sizes (doc_blocks detect pages)))
        (doc_blocks detect pages)) p"
    using extract_headings_cases [of detect fitz_open p] by blast
  with e obtain b where b: "b \<in> set (doc_blocks detect pages)"
    and c: "candidate (size_to_level (font_sizes (doc_blocks detect pages))) b = Some e"
    by (auto simp: make_result_def dest: assemble_from_block)
  from c have "size_to_level (font_sizes (doc_blocks detect pages)) (font_size b) = Some (level e)"
    and t: "entry_text e = block_text b" and pg: "entry_page e = page b"
    by (simp_all add: candidate_Some)
  then have "level e \<in> {''H1'', ''H2'', ''H3''}"
    using size_to_level_SomeD level_label_rank_set by metis
  with doc_blocks_block [OF b] t pg show ?thesis by simp
qed

text \<open>
  C7: every outline entry is well formed: its level is \<open>"H1"\<close>, \<open>"H2"\<close> or
  \<open>"H3"\<close>, its text is heading-shaped and already stripped, and its page is 1-based.
\<close>

theorem outline_entries_sound:
  "e \<in> set (res_outline (extract_headings detect fitz_open p)) \<Longrightarrow>
   level e \<in> {''H1'', ''H2'', ''H3''} \<and> is_heading (entry_text e) \<and>
   py_strip (entry_text e) = entry_text e \<and> 1 \<le> entry_page e"
  by (rule outline_entry_wf)

lemma fallback_result:
  assumes "fitz_open p = Inr (map Inr pages)"
    and "\<forall>bs\<in>set pages. \<forall>sp\<in>set (page_spans bs). \<not> is_heading (py_strip (span_text sp))"
  shows "extract_headings detect fitz_open p =
           \<lparr>res_title = py_replace ''.pdf'' '''' (py_basename p), res_outline = []\<rparr>"
proof -
  have "doc_blocks detect pages = []"
  proof (rule ccontr)
    assume "doc_blocks detect pages \<noteq> []"
    then obtain b where "b \<in> set (doc_blocks detect pages)" by (meson list.set_sel(1))
    then obtain i sp where i: "1 \<le> i" "i < 1 + length pages"
      and sp: "sp \<in> set (page_spans (pages ! (i - 1)))" and sb: "span_block detect i sp = Some b"
      unfolding doc_blocks_def by (blast dest: extract_pages_block)
    from i have "pages ! (i - 1) \<in> set pages" by simp
    with sp assms(2) have "\<not> is_heading (py_strip (span_text sp))" by blast
    with sb show False by (simp add: span_block_def Let_def split: if_splits)
  qed
  then show ?thesis using assms(1)
    by (simp add: extract_headings_ok make_result_def title_of_def assemble_eq_first_by_key)
qed

text \<open>
  C10: title fallback: when no span of a readable document is heading-shaped, the outline
  is empty and the title is the base name of the path with \<open>".pdf"\<close> removed.
\<close>

theorem title_fallback:
  assumes "fitz_open p = Inr (map Inr pages)"
    and "\<forall>bs\<in>set pages. \<forall>sp\<in>set (page_spans bs). \<not> is_heading (py_strip (span_text sp))"
  shows "extract_headings detect fitz_open p =
           \<lparr>res_title = py_replace ''.pdf'' '''' (py_basename p), res_outline = []\<rparr>"
  using assms by (rule fallback_result)

text \<open>
  C26: the error record is not distinguishable from a result: a readable document without
  headings gives exactly the record of a failed document, \<open>{"title": "Error", "outline":
  []}\<close>, when and only when its base name with \<open>".pdf"\<close> removed is \<open>"Error"\<close>
  (\<open>Error.pdf\<close>, also \<open>Error.pdf.pdf\<close> or \<open>Err.pdfor\<close>).
\<close>

theorem error_marker_ambiguous:
  assumes "fitz_open p = Inr (map Inr pages)"
    and "\<forall>bs\<in>set pages. \<forall>sp\<in>set (page_spans bs). \<not> is_heading (py_strip (span_text sp))"
  shows "extract_headings detect fitz_open p = error_result \<longleftrightarrow>
           py_replace ''.pdf'' '''' (py_basename p) = ''Error''"
proof -
  have "extract_headings detect fitz_open p =
      \<lparr>res_title = py_replace ''.pdf'' [] (py_basename p), res_outline = []\<rparr>"
    using assms by (rule fallback_result)
  then show ?thesis by (simp add: error_result_def)
qed

text \<open>
  C25: the outline is decided by the fragments of the three largest distinct sizes alone:
  it equals the outline assembled from just those fragments, with their levels computed
  from their own sizes. A heading-shaped fragment at a fourth or smaller size neither
  appears nor takes the \<open>(text, page)\<close> identifier of a later fragment.
\<close>

theorem outline_top_sizes:
  assumes "fitz_open p = Inr (map Inr pages)"
  shows "res_outline (extract_headings detect fitz_open p) =
           (let tbs = doc_blocks detect pages;
                top = filter (\<lambda>b. rank (font_size ` set tbs) (font_size b) < 3) tbs
            in assemble (size_to_level (font_sizes top)) top)"
proof -
  let ?tbs = "doc_blocks detect pages"
  let ?S = "font_size ` set ?tbs"
  let ?top = "filter (\<lambda>b. rank ?S (font_size b) < 3) ?tbs"
  have S: "font_size ` set ?top = {y \<in> ?S. rank ?S y < 3}" by auto
  have L: "size_to_level (font_sizes ?top) = size_to_level (font_sizes ?tbs)"
    unfolding size_to_level_rank_level S by (rule rank_level_restrict) simp
  have N: "\<forall>b\<in>set ?tbs. \<not> rank ?S (font_size b) < 3 \<longrightarrow>
      candidate (size_to_level (font_sizes ?tbs)) b = None"
    by (simp add: candidate_def size_to_level_rank_level rank_level_def)
  show ?thesis
    using assms map_filter_filter_None [OF N]
    by (simp add: extract_headings_ok make_result_def assemble_eq_first_by_key L Let_def)
qed

text \<open>C11: when the outline is not empty the title is the text of its first entry.\<close>

theorem title_first_entry:
  "res_outline (extract_headings detect fitz_open p) = e # es \<Longrightarrow>
   res_title (extract_headings detect fitz_open p) = entry_text e"
  using extract_headings_cases [of detect fitz_open p]
  by (auto simp: error_result_def make_result_def title_of_def)

end
