(* ===== verification/Json.thy ===== *)
theory Json
  imports Extract "HOL-Library.Monad_Syntax"
begin

text \<open>
  JSON persistence, line 87 of src/main.py: \<open>json.dump(result, f, indent=2,
  ensure_ascii=False)\<close>. \<open>json_escape_char\<close> is the table of CPython's
  \<open>py_encode_basestring\<close> (quote, backslash and the control characters below 0x20 are
  escaped, every other character is written as it is), \<open>json_str\<close> a quoted string,
  and \<open>json_dump\<close> the layout of the indenting encoder for the result record. The
  decoder \<open>json_load\<close> reads that layout back; the round trip shows that the written
  file determines the result. Characters are compared by their code (\<open>of_char\<close>).
\<close>

definition hex_digit :: "nat \<Rightarrow> char" where
  "hex_digit n = char_of (if n < 10 then 48 + n else 87 + n)"

text \<open>Codes: 34 quote, 92 backslash, 110 n, 114 r, 116 t, 98 b, 102 f, 117 u, 48 zero.\<close>

definition json_escape_char :: "char \<Rightarrow> pystr" where
  "json_escape_char c =
     (let n = of_char c :: nat in
      if n = 34 then [char_of (92::nat), char_of (34::nat)]
      else if n = 92 then [char_of (92::nat), char_of (92::nat)]
      else if n = 10 then [char_of (92::nat), char_of (110::nat)]
      else if n = 13 then [char_of (92::nat), char_of (114::nat)]
      else if n = 9 then [char_of (92::nat), char_of (116::nat)]
      else if n = 8 then [char_of (92::nat), char_of (98::nat)]
      else if n = 12 then [char_of (92::nat), char_of (102::nat)]
      else if n < 32 then
        [char_of (92::nat), char_of (117::nat), char_of (48::nat), char_of (48::nat),
         hex_digit (n div 16), hex_digit (n mod 16)]
      else [c])"

definition json_str :: "pystr \<Rightarrow> pystr" where
  "json_str s = char_of (34::nat) # concat (map json_escape_char s) @ [char_of (34::nat)]"

definition nl :: "nat \<Rightarrow> pystr" where
  "nl k = CHR 0x0A # replicate k (CHR '' '')"

definition json_key :: "nat \<Rightarrow> pystr \<Rightarrow> pystr" where
  "json_key k key = nl k @ json_str key @ '': ''"

definition entry_json :: "outline_entry \<Rightarrow> pystr" where
  "entry_json e =
     ''{'' @ json_key 6 ''level'' @ json_str (level e) @ '','' @
     json_key 6 ''text'' @ json_str (entry_text e) @ '','' @
     json_key 6 ''page'' @ nat_str (entry_page e) @ nl 4 @ ''}''"

fun sep_join :: "pystr \<Rightarrow> pystr list \<Rightarrow> pystr" where
  "sep_join sep [] = []"
| "sep_join sep [x] = x"
| "sep_join sep (x # y # zs) = x @ sep @ sep_join sep (y # zs)"

definition outline_json :: "outline_entry list \<Rightarrow> pystr" where
  "outline_json es =
     (if es = [] then ''[]''
      else ''['' @ nl 4 @ sep_join ('','' @ nl 4) (map entry_json es) @ nl 2 @ '']'')"

definition json_dump :: "result \<Rightarrow> pystr" where
  "json_dump r =
     ''{'' @ json_key 2 ''title'' @ json_str (res_title r) @ '','' @
     json_key 2 ''outline'' @ outline_json (res_outline r) @ nl 0 @ ''}''"

subsection \<open>Decoding\<close>

definition hex_val :: "char \<Rightarrow> nat option" where
  "hex_val c =
     (let n = of_char c :: nat in
      if 48 \<le> n \<and> n \<le> 57 then Some (n - 48)
      else if 97 \<le> n \<and> n \<le> 102 then Some (n - 87)
      else if 65 \<le> n \<and> n \<le> 70 then Some (n - 55)
      else None)"

definition simple_unescape :: "nat \<Rightarrow> nat option" where
  "simple_unescape d =
     (if d = 34 \<or> d = 92 \<or> d = 47 then Some d
      else if d = 110 then Some 10
      else if d = 114 then Some 13
      else if d = 116 then Some 9
      else if d = 98 then Some 8
      else if d = 102 then Some 12
      else None)"

fun json_unescape :: "pystr \<Rightarrow> (pystr \<times> pystr) option" where
  "json_unescape [] = None"
| "json_unescape (c # cs) =
     (let n = of_char c :: nat in
      if n = 34 then Some ([], cs)
      else if n = 92 then
        (case cs of
           [] \<Rightarrow> None
         | d # ds \<Rightarrow>
             (case simple_unescape (of_char d) of
                Some m \<Rightarrow> map_option (\<lambda>(s, r). (char_of m # s, r)) (json_unescape ds)
              | None \<Rightarrow>
                  (if of_char d = (117::nat) then
                     (case ds of
                        h1 # h2 # h3 # h4 # rest \<Rightarrow>
                          (case (hex_val h1, hex_val h2, hex_val h3, hex_val h4) of
                             (Some a, Some b, Some x, Some y) \<Rightarrow>
                               (let m = 4096 * a + 256 * b + 16 * x + y in
                                if m < 256
                                then map_option (\<lambda>(s, r). (char_of m # s, r)) (json_unescape rest)
                                else None)
                           | _ \<Rightarrow> None)
                      | _ \<Rightarrow> None)
                   else None)))
      else if n < 32 then None
      else map_option (\<lambda>(s, r). (c # s, r)) (json_unescape cs))"

declare json_unescape.simps(2) [simp del]

definition expect :: "pystr \<Rightarrow> pystr \<Rightarrow> pystr option" where
  "expect p s = (if prefix p s then Some (drop (length p) s) else None)"

definition parse_str :: "pystr \<Rightarrow> (pystr \<times> pystr) option" where
  "parse_str s = (case s of c # cs \<Rightarrow> if of_char c = (34::nat) then json_unescape cs else None | [] \<Rightarrow> None)"

definition json_digit :: "char \<Rightarrow> bool" where
  "json_digit c \<longleftrightarrow> (48::nat) \<le> of_char c \<and> of_char c \<le> (57::nat)"

definition digits_val :: "pystr \<Rightarrow> nat" where
  "digits_val ds = foldl (\<lambda>acc c. 10 * acc + (of_char c - 48)) 0 ds"

definition parse_nat :: "pystr \<Rightarrow> (nat \<times> pystr) option" where
  "parse_nat s =
     (let ds = takeWhile json_digit s in
      if ds = [] then None else Some (digits_val ds, dropWhile json_digit s))"

definition parse_entry :: "pystr \<Rightarrow> (outline_entry \<times> pystr) option" where
  "parse_entry s = do {
     s1 \<leftarrow> expect (''{'' @ json_key 6 ''level'') s;
     (lv, s2) \<leftarrow> parse_str s1;
     s3 \<leftarrow> expect ('','' @ json_key 6 ''text'') s2;
     (t, s4) \<leftarrow> parse_str s3;
     s5 \<leftarrow> expect ('','' @ json_key 6 ''page'') s4;
     (pg, s6) \<leftarrow> parse_nat s5;
     s7 \<leftarrow> expect (nl 4 @ ''}'') s6;
     Some (\<lparr>level = lv, entry_text = t, entry_page = pg\<rparr>, s7)
   }"

partial_function (option) parse_entries :: "pystr \<Rightarrow> (outline_entry list \<times> pystr) option" where
  "parse_entries s = do {
     (e, s1) \<leftarrow> parse_entry s;
     (case expect ('','' @ nl 4) s1 of
        Some s2 \<Rightarrow> do { (es, s3) \<leftarrow> parse_entries s2; Some (e # es, s3) }
      | None \<Rightarrow> Some ([e], s1))
   }"

declare parse_entries.simps [code]

definition parse_outline :: "pystr \<Rightarrow> (outline_entry list \<times> pystr) option" where
  "parse_outline s =
     (case expect ''[]'' s of
        Some r \<Rightarrow> Some ([], r)
      | None \<Rightarrow> do {
          s1 \<leftarrow> expect (''['' @ nl 4) s;
          (es, s2) \<leftarrow> parse_entries s1;
          s3 \<leftarrow> expect (nl 2 @ '']'') s2;
          Some (es, s3)
        })"

definition json_load :: "pystr \<Rightarrow> result option" where
  "json_load s = do {
     s1 \<leftarrow> expect (''{'' @ json_key 2 ''title'') s;
     (t, s2) \<leftarrow> parse_str s1;
     s3 \<leftarrow> expect ('','' @ json_key 2 ''outline'') s2;
     (es, s4) \<leftarrow> parse_outline s3;
     s5 \<leftarrow> expect (nl 0 @ ''}'') s4;
     if s5 = [] then Some \<lparr>res_title = t, res_outline = es\<rparr> else None
   }"


lemma char_of_of_char_nat [simp]: "char_of (of_char c :: nat) = c"
  by (rule of_char_eqI) simp

lemma hex_digit_val: "n < 16 \<Longrightarrow> hex_val (hex_digit n) = Some n"
  by (auto simp: hex_digit_def hex_val_def Let_def)

lemma json_unescape_char:
  "json_unescape (json_escape_char c @ rest) = map_option (\<lambda>(s, r). (c # s, r)) (json_unescape rest)"
proof -
  let ?n = "of_char c :: nat"
  have lt: "?n < 256" by simp
  have c: "c = char_of ?n" by simp
  consider "?n = 34" | "?n = 92" | "?n = 10" | "?n = 13" | "?n = 9" | "?n = 8" | "?n = 12"
    | "?n < 32" "?n \<notin> {8, 9, 10, 12, 13}" | "32 \<le> ?n" "?n \<noteq> 34" "?n \<noteq> 92"
    by fastforce
  then show ?thesis
  proof cases
    case 8
    have h1: "hex_val (hex_digit (?n div 16)) = Some (?n div 16)"
      using 8 by (intro hex_digit_val) simp
    have h2: "hex_val (hex_digit (?n mod 16)) = Some (?n mod 16)"
      by (intro hex_digit_val) simp
    have h0: "hex_val (char_of (48::nat)) = Some 0" by (simp add: hex_val_def)
    show ?thesis using 8 h0 h1 h2
      by (simp add: json_escape_char_def json_unescape.simps(2) simple_unescape_def Let_def)
  qed (subst c, simp add: json_escape_char_def json_unescape.simps(2) simple_unescape_def Let_def)+
qed

lemma json_unescape_escape:
  "json_unescape (concat (map json_escape_char s) @ char_of (34::nat) # rest) = Some (s, rest)"
  by (induction s) (simp_all add: json_unescape_char json_unescape.simps(2))

lemma expect_append [simp]: "expect p (p @ s) = Some s"
  by (simp add: expect_def)

lemma expect_Cons_append [simp]: "expect (c # p) (c # p @ s) = Some s"
  by (simp add: expect_def)

lemma expect_append_same [simp]: "expect (p @ q) (p @ s) = expect q s"
  by (simp add: expect_def)

lemma expect_single [simp]: "expect [c] (c # s) = Some s"
  by (simp add: expect_def)

lemma expect_self [simp]: "expect p p = Some []"
  by (simp add: expect_def)

lemma parse_str_json_str: "parse_str (json_str s @ rest) = Some (s, rest)"
  by (simp add: parse_str_def json_str_def json_unescape_escape)

lemma nat_str_digits: "\<forall>c\<in>set (nat_str n). json_digit c"
proof (induction n rule: nat_str.induct)
  case (1 n)
  then show ?case
    by (subst nat_str.simps) (auto simp: json_digit_def)
qed

lemma nat_str_nonempty: "nat_str n \<noteq> []"
  by (subst nat_str.simps) simp

lemma digits_val_nat_str: "digits_val (nat_str n) = n"
proof (induction n rule: nat_str.induct)
  case (1 n)
  show ?case
  proof (cases "n < 10")
    case True
    then show ?thesis by (subst nat_str.simps) (simp add: digits_val_def)
  next
    case False
    then have "digits_val (nat_str n) = 10 * digits_val (nat_str (n div 10)) + n mod 10"
      by (subst nat_str.simps) (simp add: digits_val_def)
    with False "1.IH" show ?thesis by simp
  qed
qed

lemma parse_nat_nat_str:
  "rest = [] \<or> \<not> json_digit (hd rest) \<Longrightarrow> parse_nat (nat_str n @ rest) = Some (n, rest)"
proof -
  assume r: "rest = [] \<or> \<not> json_digit (hd rest)"
  have tw: "takeWhile json_digit (nat_str n @ rest) = nat_str n"
    using nat_str_digits [of n] r by (cases rest) (auto simp: takeWhile_append2)
  have dw: "dropWhile json_digit (nat_str n @ rest) = rest"
    using nat_str_digits [of n] r by (cases rest) (auto simp: dropWhile_append2)
  show ?thesis by (simp add: parse_nat_def tw dw nat_str_nonempty digits_val_nat_str)
qed

lemma nl_not_digit: "\<not> json_digit (hd (nl k @ s))"
  by (simp add: nl_def json_digit_def)

lemma parse_entry_entry_json: "parse_entry (entry_json e @ rest) = Some (e, rest)"
proof -
  have n: "parse_nat (nat_str (entry_page e) @ nl 4 @ CHR ''}'' # rest) =
           Some (entry_page e, nl 4 @ CHR ''}'' # rest)"
    by (rule parse_nat_nat_str) (use nl_not_digit [of 4 "CHR ''}'' # rest"] in simp)
  have r: "\<lparr>level = level e, entry_text = entry_text e, entry_page = entry_page e\<rparr> = e"
    by simp
  show ?thesis
    by (simp add: parse_entry_def entry_json_def expect_def parse_str_json_str n r)
qed

lemma parse_entries_sep_join:
  "es \<noteq> [] \<Longrightarrow> \<not> prefix ('','' @ nl 4) rest \<Longrightarrow>
   parse_entries (sep_join ('','' @ nl 4) (map entry_json es) @ rest) = Some (es, rest)"
proof (induction es rule: induct_list012)
  case (2 e)
  then show ?case
    by (subst parse_entries.simps) (simp add: parse_entry_entry_json expect_def)
next
  case (3 e e' es)
  then have ih: "parse_entries (sep_join ('','' @ nl 4) (map entry_json (e' # es)) @ rest) =
                 Some (e' # es, rest)" by simp
  show ?case
    by (subst parse_entries.simps)
       (simp add: parse_entry_entry_json [where rest = "('','' @ nl 4) @ _", simplified] ih [simplified])
qed simp

lemma nl_not_sep: "\<not> prefix ('','' @ nl 4) (nl k @ rest)"
  by (simp add: nl_def)

lemma parse_outline_outline_json:
  "parse_outline (outline_json es @ nl 0 @ rest) = Some (es, nl 0 @ rest)"
proof (cases "es = []")
  case True
  then show ?thesis by (simp add: parse_outline_def outline_json_def expect_def)
next
  case False
  have pe: "parse_entries (sep_join ('','' @ nl 4) (map entry_json es) @ nl 2 @ '']'' @ nl 0 @ rest) =
            Some (es, nl 2 @ '']'' @ nl 0 @ rest)"
    using False nl_not_sep by (intro parse_entries_sep_join)
  have ne: "expect ''[]'' (''['' @ nl 4 @ s) = None" for s
    by (simp add: expect_def nl_def)
  show ?thesis
    using False ne pe by (simp add: parse_outline_def outline_json_def)
qed

lemma json_load_json_dump [simp]: "json_load (json_dump r) = Some r"
proof -
  have o: "parse_outline (outline_json (res_outline r) @ nl 0 @ ''}'') =
           Some (res_outline r, nl 0 @ ''}'')"
    by (rule parse_outline_outline_json)
  show ?thesis
    by (simp add: json_load_def json_dump_def parse_str_json_str o)
qed

lemma hex_digit_printable: "n < 16 \<Longrightarrow> (32::nat) \<le> of_char (hex_digit n)"
  by (simp add: hex_digit_def)

lemma json_escape_char_printable:
  "x \<in> set (json_escape_char c) \<Longrightarrow> (32::nat) \<le> of_char x"
  by (auto simp: json_escape_char_def Let_def hex_digit_printable split: if_splits)

lemma json_str_printable: "x \<in> set (json_str s) \<Longrightarrow> (32::nat) \<le> of_char x"
  by (auto simp: json_str_def dest: json_escape_char_printable)

lemma nat_str_printable: "x \<in> set (nat_str n) \<Longrightarrow> (32::nat) \<le> of_char x"
  using nat_str_digits [of n] by (auto simp: json_digit_def)

lemma set_sep_join: "set (sep_join sep xs) \<subseteq> set sep \<union> \<Union> (set ` set xs)"
  by (induction sep xs rule: sep_join.induct) auto

lemma set_nl: "x \<in> set (nl k) \<Longrightarrow> x = CHR 0x0A \<or> (32::nat) \<le> of_char x"
  by (auto simp: nl_def)

lemma entry_json_chars:
  assumes "x \<in> set (entry_json e)"
  shows "x = CHR 0x0A \<or> (32::nat) \<le> of_char x"
proof -
  have "x \<in> set (nl 6) \<or> x \<in> set (nl 4) \<or> (\<exists>s. x \<in> set (json_str s)) \<or>
        x \<in> set (nat_str (entry_page e)) \<or> x \<in> set ''{,: }''"
    using assms by (auto simp: entry_json_def json_key_def)
  then show ?thesis by (auto dest: set_nl json_str_printable nat_str_printable)
qed

lemma outline_json_chars:
  assumes "x \<in> set (outline_json es)"
  shows "x = CHR 0x0A \<or> (32::nat) \<le> of_char x"
proof -
  have "x \<in> set (nl 4) \<or> x \<in> set (nl 2) \<or> x \<in> set ''[],'' \<or>
        x \<in> set (sep_join ('','' @ nl 4) (map entry_json es))"
    using assms by (auto simp: outline_json_def split: if_splits)
  moreover have "x \<in> set (sep_join ('','' @ nl 4) (map entry_json es)) \<Longrightarrow>
                 x \<in> set ('','' @ nl 4) \<or> (\<exists>e. x \<in> set (entry_json e))"
    using set_sep_join [of "'','' @ nl 4" "map entry_json es"] by auto
  ultimately show ?thesis by (auto dest: set_nl entry_json_chars)
qed

text \<open>
  C29: the written file contains no raw control character other than the line breaks
  of the indentation: every control character of a title or heading text is escaped.
\<close>

theorem json_dump_chars: "\<forall>x\<in>set (json_dump r). x = CHR 0x0A \<or> (32::nat) \<le> of_char x"
proof
  fix x
  assume "x \<in> set (json_dump r)"
  then have "x \<in> set (nl 2) \<or> x \<in> set (nl 0) \<or> (\<exists>s. x \<in> set (json_str s)) \<or>
        x \<in> set (outline_json (res_outline r)) \<or> x \<in> set ''{,: }''"
    by (auto simp: json_dump_def json_key_def)
  then show "x = CHR 0x0A \<or> (32::nat) \<le> of_char x"
    by (auto dest: set_nl json_str_printable outline_json_chars)
qed

lemma json_escape_plain:
  "(32::nat) \<le> of_char c \<Longrightarrow> of_char c \<noteq> (34::nat) \<Longrightarrow> of_char c \<noteq> (92::nat) \<Longrightarrow>
   json_escape_char c = [c]"
  by (simp add: json_escape_char_def Let_def)

text \<open>
  With \<open>ensure_ascii=False\<close> a string without quote, backslash or control
  characters, accented letters included, is written as it is between quotes.
\<close>

theorem json_str_plain:
  "\<forall>c\<in>set s. (32::nat) \<le> of_char c \<and> of_char c \<noteq> (34::nat) \<and> of_char c \<noteq> (92::nat) \<Longrightarrow>
   json_str s = CHR ''\"'' # s @ [CHR ''\"'']"
proof -
  assume a: "\<forall>c\<in>set s. (32::nat) \<le> of_char c \<and> of_char c \<noteq> (34::nat) \<and> of_char c \<noteq> (92::nat)"
  then have "concat (map json_escape_char s) = s"
    by (induction s) (simp_all add: json_escape_plain)
  moreover have "char_of (34::nat) = CHR ''\"''" by code_simp
  ultimately show ?thesis by (simp add: json_str_def)
qed

text \<open>
  C28: \<open>json_load\<close> reads back every result that \<open>json_dump\<close> writes, so the file
  determines the result and distinct results are written as distinct files.
\<close>

theorem json_load_dump:
  "json_load (json_dump r) = Some r \<and> inj json_dump"
  by (metis injI json_load_json_dump option.inject)

end
