(* ===== verification/Batch.thy ===== *)
theory Batch
  imports Json "HOL-Library.Multiset"
begin

text \<open>
  The Batch Driver, \<open>process_all_pdfs\<close> of src/main.py (lines 79--88), and the entry
  point (lines 90--92). The program's effects are a \<open>sys_state\<close>: the files on disk (a
  map from paths to their text), the directories that exist, and the log written so far.
  The operating system is an \<open>os_env\<close>: whether a missing directory can be created,
  what \<open>os.listdir\<close> returns for a path (\<open>None\<close> when it raises), and which paths
  \<open>open(path, "w")\<close> accepts. \<open>os.makedirs(output_dir, exist_ok=True)\<close> (line 80)
  creates the output directory or raises; then every listed name ending in
  \<open>".pdf"\<close> is processed by \<open>extract_headings\<close> (which logs a failure), its result is
  written as JSON (line 87) under the name with every \<open>".pdf"\<close> replaced by
  \<open>".json"\<close>, and the write is logged (line 88). Nothing in the function catches an
  exception: an \<open>outcome\<close> is either \<open>Done\<close> or \<open>Raised\<close>, with the state the
  exception leaves behind (files written and lines logged before it stay).
\<close>

record sys_state =
  files :: "pystr \<rightharpoonup> pystr"
  dirs :: "pystr set"
  log :: "log_msg list"

record os_env =
  can_mkdir :: "pystr \<Rightarrow> bool"
  listdir :: "pystr \<Rightarrow> pystr list option"
  writable :: "pystr \<Rightarrow> bool"

datatype outcome = Done sys_state | Raised error sys_state

fun outcome_state :: "outcome \<Rightarrow> sys_state" where
  "outcome_state (Done st) = st"
| "outcome_state (Raised e st) = st"

definition makedirs :: "os_env \<Rightarrow> pystr \<Rightarrow> sys_state \<Rightarrow> outcome" where
  "makedirs env d st =
     (if d \<in> dirs st then Done st
      else if can_mkdir env d then Done (st\<lparr>dirs := insert d (dirs st)\<rparr>)
      else Raised (Mkdir_Error d) st)"

definition output_name :: "pystr \<Rightarrow> pystr" where
  "output_name filename = py_replace ''.pdf'' ''.json'' filename"

fun process_files ::
  "detector \<Rightarrow> 's::linorder opener \<Rightarrow> os_env \<Rightarrow> pystr \<Rightarrow> pystr \<Rightarrow>
   pystr list \<Rightarrow> sys_state \<Rightarrow> outcome" where
  "process_files detect fitz_open env input_dir output_dir [] st = Done st"
| "process_files detect fitz_open env input_dir output_dir (filename # filenames) st =
     (if py_endswith filename ''.pdf'' then
        (let pdf_path = py_join input_dir filename;
             result = extract_headings detect fitz_open pdf_path;
             st1 = st\<lparr>log := log st @ extract_log detect fitz_open pdf_path\<rparr>;
             output_path = py_join output_dir (output_name filename)
         in if writable env output_path
            then process_files detect fitz_open env input_dir output_dir filenames
                   (st1\<lparr>files := (files st1)(output_path \<mapsto> json_dump result),
                        log := log st1 @ [Processed filename (py_basename output_path)]\<rparr>)
            else Raised (Write_Error output_path) st1)
      else process_files detect fitz_open env input_dir output_dir filenames st)"

definition process_all_pdfs ::
  "detector \<Rightarrow> 's::linorder opener \<Rightarrow> os_env \<Rightarrow> pystr \<Rightarrow> pystr \<Rightarrow> sys_state \<Rightarrow> outcome" where
  "process_all_pdfs detect fitz_open env input_dir output_dir st =
     (case makedirs env output_dir st of
        Raised e st1 \<Rightarrow> Raised e st1
      | Done st1 \<Rightarrow>
          (case listdir env input_dir of
             None \<Rightarrow> Raised (List_Error input_dir) st1
           | Some listing \<Rightarrow> process_files detect fitz_open env input_dir output_dir listing st1))"

definition main :: "detector \<Rightarrow> 's::linorder opener \<Rightarrow> os_env \<Rightarrow> pystr \<Rightarrow> sys_state \<Rightarrow> outcome" where
  "main detect fitz_open env now st =
     process_all_pdfs detect fitz_open env ''/app/input'' ''/app/output''
       (st\<lparr>log := log st @ [Started now]\<rparr>)"

text \<open>What a run over a listing writes and logs when no write fails.\<close>

definition written :: "detector \<Rightarrow> 's::linorder opener \<Rightarrow> pystr \<Rightarrow> pystr \<Rightarrow> pystr list \<Rightarrow>
   (pystr \<times> pystr) list" where
  "written detect fitz_open input_dir output_dir listing =
     map (\<lambda>f. (py_join output_dir (output_name f),
                   json_dump (extract_headings detect fitz_open (py_join input_dir f))))
       (filter (\<lambda>f. py_endswith f ''.pdf'') listing)"

definition batch_log :: "detector \<Rightarrow> 's::linorder opener \<Rightarrow> pystr \<Rightarrow> pystr \<Rightarrow> pystr list \<Rightarrow>
   log_msg list" where
  "batch_log detect fitz_open input_dir output_dir listing =
     concat (map (\<lambda>f. extract_log detect fitz_open (py_join input_dir f) @
                       [Processed f (py_basename (py_join output_dir (output_name f)))])
       (filter (\<lambda>f. py_endswith f ''.pdf'') listing))"

definition after :: "detector \<Rightarrow> 's::linorder opener \<Rightarrow> pystr \<Rightarrow> pystr \<Rightarrow> pystr list \<Rightarrow>
   sys_state \<Rightarrow> sys_state" where
  "after detect fitz_open input_dir output_dir fs st =
     st\<lparr>files := files st ++ map_of (rev (written detect fitz_open input_dir output_dir fs)),
        log := log st @ batch_log detect fitz_open input_dir output_dir fs\<rparr>"

subsection \<open>Runs of the batch\<close>

lemma after_Nil [simp]: "after detect fitz_open input_dir output_dir [] st = st"
  by (simp add: after_def written_def batch_log_def)

lemma after_Cons_other [simp]:
  "\<not> py_endswith f ''.pdf'' \<Longrightarrow>
   after detect fitz_open input_dir output_dir (f # fs) st = after detect fitz_open input_dir output_dir fs st"
  by (simp add: after_def written_def batch_log_def)

lemma after_Cons_pdf:
  "py_endswith f ''.pdf'' \<Longrightarrow>
   after detect fitz_open input_dir output_dir (f # fs) st =
   after detect fitz_open input_dir output_dir fs
     (st\<lparr>files := (files st)(py_join output_dir (output_name f) \<mapsto>
           json_dump (extract_headings detect fitz_open (py_join input_dir f))),
         log := log st @ extract_log detect fitz_open (py_join input_dir f) @
           [Processed f (py_basename (py_join output_dir (output_name f)))]\<rparr>)"
  by (simp add: after_def written_def batch_log_def map_add_def fun_eq_iff split: option.splits)

lemma process_files_ok:
  "\<forall>f\<in>set fs. py_endswith f ''.pdf'' \<longrightarrow> writable env (py_join output_dir (output_name f)) \<Longrightarrow>
   process_files detect fitz_open env input_dir output_dir fs st =
     Done (after detect fitz_open input_dir output_dir fs st)"
  by (induction fs arbitrary: st) (auto simp: Let_def after_Cons_pdf)

lemma process_files_abort:
  "\<forall>g\<in>set pre. py_endswith g ''.pdf'' \<longrightarrow> writable env (py_join output_dir (output_name g)) \<Longrightarrow>
   py_endswith f ''.pdf'' \<Longrightarrow> \<not> writable env (py_join output_dir (output_name f)) \<Longrightarrow>
   process_files detect fitz_open env input_dir output_dir (pre @ f # post) st =
     Raised (Write_Error (py_join output_dir (output_name f)))
       ((after detect fitz_open input_dir output_dir pre st)
          \<lparr>log := log (after detect fitz_open input_dir output_dir pre st) @
                   extract_log detect fitz_open (py_join input_dir f)\<rparr>)"
  by (induction pre arbitrary: st) (auto simp: Let_def after_Cons_pdf)

lemma dom_written:
  "fst ` set (written detect fitz_open input_dir output_dir listing) =
   {py_join output_dir (output_name f) | f. f \<in> set listing \<and> py_endswith f ''.pdf''}"
  by (force simp: written_def image_image)

lemma makedirs_Done:
  "output_dir \<in> dirs st \<or> can_mkdir env output_dir \<Longrightarrow>
   makedirs env output_dir st = Done (st\<lparr>dirs := insert output_dir (dirs st)\<rparr>)"
  by (auto simp: makedirs_def insert_absorb)


lemma mset_concat_map_cong:
  "mset xs = mset ys \<Longrightarrow> mset (concat (map g xs)) = mset (concat (map g ys))"
proof (induction xs arbitrary: ys)
  case Nil
  then show ?case by simp
next
  case (Cons x xs)
  then have x: "x \<in> set ys" by (metis list.set_intros(1) set_mset_mset)
  then obtain as bs where ys: "ys = as @ x # bs" by (meson split_list)
  with Cons.prems have "mset xs = mset (as @ bs)" by simp
  with Cons.IH have "mset (concat (map g xs)) = mset (concat (map g (as @ bs)))" by blast
  with ys show ?case by simp
qed

lemma written_mset:
  "mset l1 = mset l2 \<Longrightarrow>
   mset (written detect fitz_open input_dir output_dir l1) = mset (written detect fitz_open input_dir output_dir l2)"
  by (simp add: written_def mset_filter)

lemma batch_log_mset:
  "mset l1 = mset l2 \<Longrightarrow>
   mset (batch_log detect fitz_open input_dir output_dir l1) = mset (batch_log detect fitz_open input_dir output_dir l2)"
  unfolding batch_log_def by (rule mset_concat_map_cong) (simp add: mset_filter)

lemma map_of_written_perm:
  assumes "mset l1 = mset l2"
    and "distinct (map fst (written detect fitz_open input_dir output_dir l1))"
  shows "map_of (rev (written detect fitz_open input_dir output_dir l1)) =
         map_of (rev (written detect fitz_open input_dir output_dir l2))"
proof -
  let ?w1 = "written detect fitz_open input_dir output_dir l1"
  let ?w2 = "written detect fitz_open input_dir output_dir l2"
  have m: "mset ?w1 = mset ?w2" using assms(1) by (rule written_mset)
  then have "mset (map fst ?w1) = mset (map fst ?w2)" by simp
  then have d2: "distinct (map fst ?w2)" using assms(2) mset_eq_imp_distinct_iff by blast
  have "set ?w1 = set ?w2" using m by (metis set_mset_mset)
  then have "map_of ?w1 = map_of ?w2" using assms(2) d2 by (simp add: map_of_inject_set)
  then show ?thesis using assms(2) d2 by (simp add: map_of_rev_distinct)
qed

lemma process_all_pdfs_ok:
  assumes "output_dir \<in> dirs st \<or> can_mkdir env output_dir"
    and "listdir env input_dir = Some listing"
    and "\<forall>f\<in>set listing. py_endswith f ''.pdf'' \<longrightarrow> writable env (py_join output_dir (output_name f))"
  shows "process_all_pdfs detect fitz_open env input_dir output_dir st =
           Done (after detect fitz_open input_dir output_dir listing
                   (st\<lparr>dirs := insert output_dir (dirs st)\<rparr>))"
  using assms by (simp add: process_all_pdfs_def makedirs_Done process_files_ok)

text \<open>
  C20: when the output directory exists or can be created, the input directory can be
  listed and every output path is writable, the batch completes; the output directory
  then exists and holds its previous files plus one file for each \<open>".pdf"\<close> name of the
  listing, and nothing for the other names.
\<close>

theorem batch_completes:
  assumes "output_dir \<in> dirs st \<or> can_mkdir env output_dir"
    and "listdir env input_dir = Some listing"
    and "\<forall>f\<in>set listing. py_endswith f ''.pdf'' \<longrightarrow> writable env (py_join output_dir (output_name f))"
  shows "\<exists>st'. process_all_pdfs detect fitz_open env input_dir output_dir st = Done st' \<and>
    output_dir \<in> dirs st' \<and>
    dom (files st') = dom (files st) \<union>
      {py_join output_dir (output_name f) | f. f \<in> set listing \<and> py_endswith f ''.pdf''}"
proof -
  let ?w = "written detect fitz_open input_dir output_dir listing"
  have "dom (files st ++ map_of (rev ?w)) = dom (files st) \<union> fst ` set ?w"
    by (auto simp: dom_map_of_conv_image_fst)
  then show ?thesis
    using process_all_pdfs_ok [OF assms, of detect fitz_open] by (simp add: after_def dom_written)
qed

text \<open>
  C21: a document's failure stays with that document: when output names do not collide,
  the file written for every \<open>".pdf"\<close> name holds the JSON text of exactly that
  document's \<open>extract_headings\<close> result (the error record when it could not be read),
  whatever happened to the other documents, and reading that file back gives the result.
\<close>

theorem batch_writes_result:
  assumes "output_dir \<in> dirs st \<or> can_mkdir env output_dir"
    and "listdir env input_dir = Some listing"
    and "\<forall>f\<in>set listing. py_endswith f ''.pdf'' \<longrightarrow> writable env (py_join output_dir (output_name f))"
    and "distinct (map (\<lambda>f. py_join output_dir (output_name f)) (filter (\<lambda>f. py_endswith f ''.pdf'') listing))"
    and "f \<in> set listing" and "py_endswith f ''.pdf''"
    and "process_all_pdfs detect fitz_open env input_dir output_dir st = Done st'"
  shows "files st' (py_join output_dir (output_name f)) =
           Some (json_dump (extract_headings detect fitz_open (py_join input_dir f))) \<and>
         Option.bind (files st' (py_join output_dir (output_name f))) json_load =
           Some (extract_headings detect fitz_open (py_join input_dir f))"
proof -
  let ?w = "written detect fitz_open input_dir output_dir listing"
  let ?r = "extract_headings detect fitz_open (py_join input_dir f)"
  have d: "distinct (map fst ?w)" using assms(4) by (simp add: written_def comp_def)
  have "files st' = files st ++ map_of ?w"
    using process_all_pdfs_ok [OF assms(1-3), of detect fitz_open] assms(7) d
    by (simp add: after_def map_of_rev_distinct)
  moreover have "(py_join output_dir (output_name f), json_dump ?r) \<in> set ?w"
    using assms(5,6) by (auto simp: written_def)
  with d have "map_of ?w (py_join output_dir (output_name f)) = Some (json_dump ?r)" by simp
  ultimately show ?thesis by simp
qed

text \<open>
  C22: a failing write is not caught: the batch stops at the first \<open>".pdf"\<close> whose
  output cannot be written, the names after it are never processed, and the files written
  before it stay. (The spec says the batch always completes.)
\<close>

theorem batch_write_failure_aborts:
  assumes "output_dir \<in> dirs st \<or> can_mkdir env output_dir"
    and "listdir env input_dir = Some (pre @ f # post)"
    and "\<forall>g\<in>set pre. py_endswith g ''.pdf'' \<longrightarrow> writable env (py_join output_dir (output_name g))"
    and "py_endswith f ''.pdf''" and "\<not> writable env (py_join output_dir (output_name f))"
  shows "\<exists>st'. process_all_pdfs detect fitz_open env input_dir output_dir st =
           Raised (Write_Error (py_join output_dir (output_name f))) st' \<and>
         files st' = files st ++ map_of (rev (written detect fitz_open input_dir output_dir pre))"
  using assms by (simp add: process_all_pdfs_def makedirs_Done process_files_abort after_def)

text \<open>
  C23: output names can collide (\<open>str.replace\<close> rewrites every \<open>".pdf"\<close> of a name, so
  \<open>a.pdf.pdf\<close> and \<open>a.json.pdf\<close> both go to \<open>a.json.json\<close>), and the last write wins:
  after a completed batch, the file at the output path of a \<open>".pdf"\<close> name holds the
  JSON of the document of the last \<open>".pdf"\<close> name in the \<open>os.listdir\<close> order whose output
  path is the same. Earlier colliding documents leave no file of their own. (The spec says
  every input produces its own output artifact.)
\<close>

theorem batch_output_collision:
  assumes "output_dir \<in> dirs st \<or> can_mkdir env output_dir"
    and "listdir env input_dir = Some listing"
    and "\<forall>g\<in>set listing. py_endswith g ''.pdf'' \<longrightarrow> writable env (py_join output_dir (output_name g))"
    and "f \<in> set listing" and "py_endswith f ''.pdf''"
    and "process_all_pdfs detect fitz_open env input_dir output_dir st = Done st'"
  shows "files st' (py_join output_dir (output_name f)) =
           Some (json_dump (extract_headings detect fitz_open (py_join input_dir
             (last (filter (\<lambda>g. py_endswith g ''.pdf'' \<and>
                py_join output_dir (output_name g) = py_join output_dir (output_name f)) listing)))))"
proof -
  let ?p = "\<lambda>g. py_join output_dir (output_name g)"
  let ?pdfs = "filter (\<lambda>g. py_endswith g ''.pdf'') listing"
  have "files st' = files st ++ map_of (rev (written detect fitz_open input_dir output_dir listing))"
    using process_all_pdfs_ok [OF assms(1-3), of detect fitz_open] assms(6) by (simp add: after_def)
  moreover have "f \<in> set ?pdfs" using assms(4,5) by simp
  then have "map_of (rev (map (\<lambda>g. (?p g, json_dump (extract_headings detect fitz_open
      (py_join input_dir g)))) ?pdfs)) (?p f) = Some (json_dump (extract_headings detect fitz_open
      (py_join input_dir (last (filter (\<lambda>g. ?p g = ?p f) ?pdfs)))))"
    by (rule map_of_rev_map_last)
  ultimately show ?thesis by (simp add: written_def filter_filter conj_commute)
qed

lemma output_name_pdf_json:
  "py_endswith f ''.pdf'' \<Longrightarrow> py_endswith (output_name f) ''.json''"
proof -
  assume "py_endswith f ''.pdf''"
  then obtain s where "f = s @ ''.pdf''" by (auto simp: py_endswith_suffix suffix_def)
  then have "output_name f = py_replace ''.pdf'' ''.json'' s @ ''.json''"
    using py_replace_append_old [OF no_border_pdf] by (simp add: output_name_def)
  then show ?thesis by (metis py_endswith_suffix suffixI)
qed

lemma output_name_plain_name:
  "\<not> py_contains ''.pdf'' s \<Longrightarrow> output_name (s @ ''.pdf'') = s @ ''.json''"
proof -
  assume "\<not> py_contains ''.pdf'' s"
  then have "py_replace ''.pdf'' ''.json'' s = s"
    by (simp add: py_contains_sublist py_replace_no_sublist)
  then show ?thesis
    using py_replace_append_old [OF no_border_pdf, of "''.json''" s] by (simp add: output_name_def)
qed

text \<open>
  C31: the output name of a \<open>".pdf"\<close> file ends in \<open>".json"\<close>: the trailing
  \<open>".pdf"\<close> is always rewritten, whatever else \<open>replace\<close> rewrites before it; and for
  a name with no other \<open>".pdf"\<close> in it the output name is the name with its extension
  changed to \<open>".json"\<close>, as intended.
\<close>

theorem output_name_contract:
  "(py_endswith f ''.pdf'' \<longrightarrow> py_endswith (output_name f) ''.json'') \<and>
   (\<not> py_contains ''.pdf'' s \<longrightarrow> output_name (s @ ''.pdf'') = s @ ''.json'')"
  using output_name_pdf_json output_name_plain_name by blast

text \<open>
  C33: the two exceptions before the loop: when the output directory neither exists nor
  can be created, \<open>os.makedirs\<close> raises and nothing else happens; when the input
  directory cannot be listed, \<open>os.listdir\<close> raises after the output directory was made,
  and no file is written.
\<close>

theorem batch_setup_errors:
  "(output_dir \<notin> dirs st \<and> \<not> can_mkdir env output_dir \<longrightarrow>
      process_all_pdfs detect fitz_open env input_dir output_dir st = Raised (Mkdir_Error output_dir) st) \<and>
   ((output_dir \<in> dirs st \<or> can_mkdir env output_dir) \<and> listdir env input_dir = None \<longrightarrow>
      process_all_pdfs detect fitz_open env input_dir output_dir st =
        Raised (List_Error input_dir) (st\<lparr>dirs := insert output_dir (dirs st)\<rparr>))"
  by (auto simp: process_all_pdfs_def makedirs_def insert_absorb)

text \<open>
  C34: the log of a run of the program (lines 90--92) that completes: the start line,
  then, for each \<open>".pdf"\<close> name in listing order, the error line of its document if
  it could not be read, followed by the line naming the file written for it.
\<close>

theorem main_log:
  assumes "''/app/output'' \<in> dirs st \<or> can_mkdir env ''/app/output''"
    and "listdir env ''/app/input'' = Some listing"
    and "\<forall>f\<in>set listing. py_endswith f ''.pdf'' \<longrightarrow> writable env (py_join ''/app/output'' (output_name f))"
  shows "\<exists>st'. main detect fitz_open env now st = Done st' \<and>
    log st' = log st @ Started now # batch_log detect fitz_open ''/app/input'' ''/app/output'' listing"
  using process_all_pdfs_ok [where st = "st\<lparr>log := log st @ [Started now]\<rparr>", of "''/app/output''" env
      "''/app/input''" listing detect fitz_open] assms
  by (simp add: main_def after_def)

text \<open>
  C24: the order in which \<open>os.listdir\<close> returns the names does not matter when no two
  \<open>".pdf"\<close> names share an output path: any two orders of the same listing write the
  same files, and log the same lines, each group in its own order.
\<close>

theorem batch_listing_order:
  assumes "mset l1 = mset l2"
    and "\<forall>f\<in>set l1. py_endswith f ''.pdf'' \<longrightarrow> writable env (py_join output_dir (output_name f))"
    and "distinct (map (\<lambda>f. py_join output_dir (output_name f)) (filter (\<lambda>f. py_endswith f ''.pdf'') l1))"
    and "output_dir \<in> dirs st \<or> can_mkdir env output_dir"
  shows "files (outcome_state (process_all_pdfs detect fitz_open (env\<lparr>listdir := \<lambda>_. Some l1\<rparr>)
            input_dir output_dir st)) =
         files (outcome_state (process_all_pdfs detect fitz_open (env\<lparr>listdir := \<lambda>_. Some l2\<rparr>)
            input_dir output_dir st)) \<and>
         mset (log (outcome_state (process_all_pdfs detect fitz_open (env\<lparr>listdir := \<lambda>_. Some l1\<rparr>)
            input_dir output_dir st))) =
         mset (log (outcome_state (process_all_pdfs detect fitz_open (env\<lparr>listdir := \<lambda>_. Some l2\<rparr>)
            input_dir output_dir st)))"
proof -
  have s: "set l2 = set l1" using assms(1) by (metis set_mset_mset)
  have w2: "\<forall>f\<in>set l2. py_endswith f ''.pdf'' \<longrightarrow> writable env (py_join output_dir (output_name f))"
    using assms(2) s by simp
  have d: "distinct (map fst (written detect fitz_open input_dir output_dir l1))"
    using assms(3) by (simp add: written_def comp_def)
  have o1: "process_all_pdfs detect fitz_open (env\<lparr>listdir := \<lambda>_. Some l1\<rparr>) input_dir output_dir st =
      Done (after detect fitz_open input_dir output_dir l1 (st\<lparr>dirs := insert output_dir (dirs st)\<rparr>))"
    by (rule process_all_pdfs_ok) (use assms(2,4) in simp_all)
  have o2: "process_all_pdfs detect fitz_open (env\<lparr>listdir := \<lambda>_. Some l2\<rparr>) input_dir output_dir st =
      Done (after detect fitz_open input_dir output_dir l2 (st\<lparr>dirs := insert output_dir (dirs st)\<rparr>))"
    by (rule process_all_pdfs_ok) (use w2 assms(4) in simp_all)
  show ?thesis
    using map_of_written_perm [OF assms(1) d] batch_log_mset [OF assms(1)]
    by (simp add: o1 o2 after_def)
qed

end
