(* ===== verification/Batch_Steps.thy ===== *)
theory Batch_Steps
  imports Batch
begin

text \<open>
  The loop of \<open>process_all_pdfs\<close> (src/main.py lines 81--88) as a small-step
  relation on the state of a run: the names still to be listed with the system state, or
  the crash of an uncaught write error together with the state the crash leaves on disk
  and in the log. Its reachable states are described by an invariant proved by rule
  induction; it refines the functional model \<open>process_files\<close>, every listed
  \<open>".pdf"\<close> is eventually processed, and every file it writes is a JSON result.
\<close>

datatype run = Running "pystr list" sys_state | Crashed error sys_state

fun run_state :: "run \<Rightarrow> sys_state" where
  "run_state (Running fs st) = st"
| "run_state (Crashed e st) = st"

fun batch_final :: "run \<Rightarrow> bool" where
  "batch_final (Running fs st) \<longleftrightarrow> fs = []"
| "batch_final (Crashed e st) \<longleftrightarrow> True"

fun batch_outcome :: "run \<Rightarrow> outcome" where
  "batch_outcome (Running fs st) = Done st"
| "batch_outcome (Crashed e st) = Raised e st"

inductive batch_step ::
  "detector \<Rightarrow> 's::linorder opener \<Rightarrow> os_env \<Rightarrow> pystr \<Rightarrow> pystr \<Rightarrow> run \<Rightarrow> run \<Rightarrow> bool"
  for detect fitz_open env input_dir output_dir where
  skip_other: "\<not> py_endswith f ''.pdf'' \<Longrightarrow>
    batch_step detect fitz_open env input_dir output_dir (Running (f # fs) st) (Running fs st)"
| write_json: "py_endswith f ''.pdf'' \<Longrightarrow> writable env (py_join output_dir (output_name f)) \<Longrightarrow>
    batch_step detect fitz_open env input_dir output_dir (Running (f # fs) st)
      (Running fs (st\<lparr>files := (files st)(py_join output_dir (output_name f) \<mapsto>
                      json_dump (extract_headings detect fitz_open (py_join input_dir f))),
                    log := log st @ extract_log detect fitz_open (py_join input_dir f) @
                      [Processed f (py_basename (py_join output_dir (output_name f)))]\<rparr>))"
| write_fails: "py_endswith f ''.pdf'' \<Longrightarrow> \<not> writable env (py_join output_dir (output_name f)) \<Longrightarrow>
    batch_step detect fitz_open env input_dir output_dir (Running (f # fs) st)
      (Crashed (Write_Error (py_join output_dir (output_name f)))
         (st\<lparr>log := log st @ extract_log detect fitz_open (py_join input_dir f)\<rparr>))"

code_pred (modes: i \<Rightarrow> i \<Rightarrow> i \<Rightarrow> i \<Rightarrow> i \<Rightarrow> i \<Rightarrow> o \<Rightarrow> bool) batch_step .

inductive_cases batch_step_RunningE: "batch_step detect fitz_open env input_dir output_dir (Running fs st) t"
inductive_cases batch_step_CrashedE [elim!]: "batch_step detect fitz_open env input_dir output_dir (Crashed e st) t"

fun batch_inv ::
  "detector \<Rightarrow> 's::linorder opener \<Rightarrow> os_env \<Rightarrow> pystr \<Rightarrow> pystr \<Rightarrow>
   pystr list \<Rightarrow> sys_state \<Rightarrow> run \<Rightarrow> bool" where
  "batch_inv detect fitz_open env input_dir output_dir listing init (Running fs st) \<longleftrightarrow>
     (\<exists>pre. listing = pre @ fs \<and> st = after detect fitz_open input_dir output_dir pre init)"
| "batch_inv detect fitz_open env input_dir output_dir listing init (Crashed e st) \<longleftrightarrow>
     (\<exists>pre f post. listing = pre @ f # post \<and> py_endswith f ''.pdf'' \<and>
        \<not> writable env (py_join output_dir (output_name f)) \<and>
        e = Write_Error (py_join output_dir (output_name f)) \<and>
        st = (after detect fitz_open input_dir output_dir pre init)
               \<lparr>log := log (after detect fitz_open input_dir output_dir pre init) @
                        extract_log detect fitz_open (py_join input_dir f)\<rparr>)"

definition result_schema :: "result \<Rightarrow> bool" where
  "result_schema r \<longleftrightarrow>
     (\<forall>e\<in>set (res_outline r). level e \<in> {''H1'', ''H2'', ''H3''} \<and> 1 \<le> entry_page e)"

subsection \<open>Reachable states\<close>

lemma after_append:
  "after detect fitz_open input_dir output_dir (xs @ ys) st =
   after detect fitz_open input_dir output_dir ys (after detect fitz_open input_dir output_dir xs st)"
proof (induction xs arbitrary: st)
  case (Cons x xs)
  then show ?case by (cases "py_endswith x ''.pdf''") (simp_all add: after_Cons_pdf)
qed simp

lemma after_single_pdf:
  "py_endswith f ''.pdf'' \<Longrightarrow>
   after detect fitz_open input_dir output_dir [f] st =
     st\<lparr>files := (files st)(py_join output_dir (output_name f) \<mapsto>
           json_dump (extract_headings detect fitz_open (py_join input_dir f))),
        log := log st @ extract_log detect fitz_open (py_join input_dir f) @
           [Processed f (py_basename (py_join output_dir (output_name f)))]\<rparr>"
  by (simp add: after_Cons_pdf)

lemma batch_step_pdf_after:
  "py_endswith f ''.pdf'' \<Longrightarrow> writable env (py_join output_dir (output_name f)) \<Longrightarrow>
   batch_step detect fitz_open env input_dir output_dir (Running (f # fs) st)
     (Running fs (after detect fitz_open input_dir output_dir [f] st))"
  by (simp only: after_single_pdf) (rule batch_step.write_json)

lemma batch_inv_init:
  "batch_inv detect fitz_open env input_dir output_dir listing init (Running listing init)"
  unfolding batch_inv.simps by (rule exI [of _ "[]"]) simp

lemma batch_inv_step:
  assumes "batch_step detect fitz_open env input_dir output_dir t t'"
    and "batch_inv detect fitz_open env input_dir output_dir listing init t"
  shows "batch_inv detect fitz_open env input_dir output_dir listing init t'"
  using assms
proof (induction rule: batch_step.induct)
  case (skip_other f fs st)
  then obtain pre where "listing = pre @ f # fs"
    "st = after detect fitz_open input_dir output_dir pre init" by auto
  with skip_other.hyps show ?case by (auto simp: after_append intro!: exI [of _ "pre @ [f]"])
next
  case (write_json f fs st)
  then obtain pre where "listing = pre @ f # fs"
    "st = after detect fitz_open input_dir output_dir pre init" by auto
  with write_json.hyps show ?case
    by (auto simp: after_append after_single_pdf intro!: exI [of _ "pre @ [f]"])
next
  case (write_fails f fs st)
  then show ?case by auto
qed

lemma batch_reach_inv:
  "(batch_step detect fitz_open env input_dir output_dir)\<^sup>*\<^sup>* (Running listing init) t \<Longrightarrow>
   batch_inv detect fitz_open env input_dir output_dir listing init t"
  by (induction rule: rtranclp_induct) (rule batch_inv_init, blast intro: batch_inv_step)


lemma batch_step_det:
  "batch_step detect fitz_open env input_dir output_dir t t1 \<Longrightarrow>
   batch_step detect fitz_open env input_dir output_dir t t2 \<Longrightarrow> t1 = t2"
  by (induction rule: batch_step.induct) (auto elim: batch_step_RunningE)

lemma batch_final_no_step:
  "batch_final t \<Longrightarrow> \<not> batch_step detect fitz_open env input_dir output_dir t t'"
  by (cases t) (auto elim: batch_step_RunningE)

lemma batch_runs:
  "\<exists>t. (batch_step detect fitz_open env input_dir output_dir)\<^sup>*\<^sup>* (Running fs st) t \<and>
       batch_final t \<and>
       batch_outcome t = process_files detect fitz_open env input_dir output_dir fs st"
proof (induction fs arbitrary: st)
  case Nil
  then show ?case by auto
next
  case (Cons f fs)
  let ?p = "py_join output_dir (output_name f)"
  let ?R = "batch_step detect fitz_open env input_dir output_dir"
  let ?l = "extract_log detect fitz_open (py_join input_dir f)"
  consider (other) "\<not> py_endswith f ''.pdf''" | (ok) "py_endswith f ''.pdf''" "writable env ?p"
    | (fails) "py_endswith f ''.pdf''" "\<not> writable env ?p" by blast
  then show ?case
  proof cases
    case other
    then have "?R (Running (f # fs) st) (Running fs st)" by (rule batch_step.skip_other)
    with other Cons.IH [of st] show ?thesis by (auto intro: converse_rtranclp_into_rtranclp)
  next
    case ok
    let ?st = "st\<lparr>files := (files st)(?p \<mapsto> json_dump (extract_headings detect fitz_open (py_join input_dir f))),
                  log := log st @ ?l @ [Processed f (py_basename ?p)]\<rparr>"
    have st: "?R (Running (f # fs) st) (Running fs ?st)" using ok by (rule batch_step.write_json)
    obtain t where "?R\<^sup>*\<^sup>* (Running fs ?st) t" "batch_final t"
      "batch_outcome t = process_files detect fitz_open env input_dir output_dir fs ?st"
      using Cons.IH [of ?st] by blast
    moreover have "process_files detect fitz_open env input_dir output_dir (f # fs) st =
                   process_files detect fitz_open env input_dir output_dir fs ?st"
      using ok by (simp add: Let_def)
    ultimately show ?thesis using st by (metis converse_rtranclp_into_rtranclp)
  next
    case fails
    then have "?R (Running (f # fs) st) (Crashed (Write_Error ?p) (st\<lparr>log := log st @ ?l\<rparr>))"
      by (rule batch_step.write_fails)
    with fails show ?thesis by (auto simp: Let_def)
  qed
qed

lemma batch_Crashed_relpowp:
  assumes "(batch_step detect fitz_open env input_dir output_dir ^^ n) (Crashed e st) t"
  shows "n = 0"
proof (cases n)
  case (Suc m)
  then have "(batch_step detect fitz_open env input_dir output_dir ^^ Suc m) (Crashed e st) t"
    using assms by simp
  then show ?thesis by (elim relpowp_Suc_E2) blast
qed simp

lemma batch_steps_le:
  "(batch_step detect fitz_open env input_dir output_dir ^^ n) (Running fs st) t \<Longrightarrow> n \<le> length fs"
proof (induction n arbitrary: fs st)
  case 0
  then show ?case by simp
next
  case (Suc n)
  then obtain u where st: "batch_step detect fitz_open env input_dir output_dir (Running fs st) u"
    and rest: "(batch_step detect fitz_open env input_dir output_dir ^^ n) u t"
    using Suc.prems by (elim relpowp_Suc_E2) blast
  from st show ?case
  proof (cases rule: batch_step.cases)
    case (skip_other f fs')
    then show ?thesis using Suc.IH rest by fastforce
  next
    case (write_json f fs')
    then show ?thesis using Suc.IH rest by fastforce
  next
    case (write_fails f fs')
    then show ?thesis using rest batch_Crashed_relpowp by fastforce
  qed
qed

lemma batch_final_outcome:
  assumes "(batch_step detect fitz_open env input_dir output_dir)\<^sup>*\<^sup>* (Running fs st) t"
    and "batch_final t"
  shows "batch_outcome t = process_files detect fitz_open env input_dir output_dir fs st"
proof -
  obtain t0 where r0: "(batch_step detect fitz_open env input_dir output_dir)\<^sup>*\<^sup>* (Running fs st) t0"
    and f0: "batch_final t0"
    and o0: "batch_outcome t0 = process_files detect fitz_open env input_dir output_dir fs st"
    using batch_runs by blast
  have "t = t0"
  proof (rule rtranclp_det_final [where R = "batch_step detect fitz_open env input_dir output_dir"])
    show "\<And>x y z. batch_step detect fitz_open env input_dir output_dir x y \<Longrightarrow>
        batch_step detect fitz_open env input_dir output_dir x z \<Longrightarrow> y = z"
      by (rule batch_step_det)
    show "\<not> batch_step detect fitz_open env input_dir output_dir t w" for w
      using assms(2) by (rule batch_final_no_step)
    show "\<not> batch_step detect fitz_open env input_dir output_dir t0 w" for w
      using f0 by (rule batch_final_no_step)
  qed (rule assms(1), rule r0)
  with o0 show ?thesis by simp
qed

lemma files_after:
  "files (after detect fitz_open input_dir output_dir pre st) =
   files st ++ map_of (rev (written detect fitz_open input_dir output_dir pre))"
  by (simp add: after_def)

lemma log_after:
  "log (after detect fitz_open input_dir output_dir pre st) =
   log st @ batch_log detect fitz_open input_dir output_dir pre"
  by (simp add: after_def)

lemma batch_inv_files:
  "batch_inv detect fitz_open env input_dir output_dir listing init t \<Longrightarrow>
   \<exists>pre. files (run_state t) = files init ++ map_of (rev (written detect fitz_open input_dir output_dir pre))"
  by (cases t) (auto simp: files_after)

text \<open>
  The step relation refines the functional model: from every listing a run reaches a
  final state, and every run that reaches a final state ends with the outcome of
  \<open>process_files\<close>, the final state or the uncaught write error with the state it leaves.
\<close>

theorem batch_step_refines:
  "(\<exists>t. (batch_step detect fitz_open env input_dir output_dir)\<^sup>*\<^sup>* (Running fs st) t \<and> batch_final t) \<and>
   ((batch_step detect fitz_open env input_dir output_dir)\<^sup>*\<^sup>* (Running fs st) t \<longrightarrow> batch_final t \<longrightarrow>
    batch_outcome t = process_files detect fitz_open env input_dir output_dir fs st)"
  using batch_runs [of detect fitz_open env input_dir output_dir fs st] batch_final_outcome by blast

text \<open>
  C32: after a crash the system holds exactly what the run did before it: the files of
  the \<open>".pdf"\<close> names listed before the first \<open>".pdf"\<close> whose output cannot be
  opened (that output path is the error), and the log lines of those names followed by the
  failure line of the crashing document, if its extraction failed.
\<close>

theorem batch_crash_state:
  "(batch_step detect fitz_open env input_dir output_dir)\<^sup>*\<^sup>* (Running listing init) (Crashed e st) \<Longrightarrow>
   \<exists>pre f post. listing = pre @ f # post \<and> py_endswith f ''.pdf'' \<and>
     \<not> writable env (py_join output_dir (output_name f)) \<and>
     e = Write_Error (py_join output_dir (output_name f)) \<and>
     files st = files init ++ map_of (rev (written detect fitz_open input_dir output_dir pre)) \<and>
     log st = log init @ batch_log detect fitz_open input_dir output_dir pre @
                extract_log detect fitz_open (py_join input_dir f)"
proof -
  assume "(batch_step detect fitz_open env input_dir output_dir)\<^sup>*\<^sup>* (Running listing init) (Crashed e st)"
  from batch_reach_inv [OF this] obtain pre f post where
    l: "listing = pre @ f # post" and p: "py_endswith f ''.pdf''"
    and w: "\<not> writable env (py_join output_dir (output_name f))"
    and e: "e = Write_Error (py_join output_dir (output_name f))"
    and st: "st = (after detect fitz_open input_dir output_dir pre init)
               \<lparr>log := log (after detect fitz_open input_dir output_dir pre init) @
                        extract_log detect fitz_open (py_join input_dir f)\<rparr>"
    by auto
  from st have "files st = files init ++ map_of (rev (written detect fitz_open input_dir output_dir pre))"
    and "log st = log init @ batch_log detect fitz_open input_dir output_dir pre @
                extract_log detect fitz_open (py_join input_dir f)"
    by (simp_all add: files_after log_after)
  with l p w e show ?thesis by blast
qed

text \<open>
  The loop terminates: no run from a listing takes more steps than the listing has
  names.
\<close>

theorem batch_steps_bounded:
  "(batch_step detect fitz_open env input_dir output_dir ^^ n) (Running fs st) t \<Longrightarrow> n \<le> length fs"
  by (rule batch_steps_le)


lemma run_state_Done:
  "batch_outcome t = Done st \<Longrightarrow> run_state t = st"
  by (cases t) simp_all

lemma processed_in_batch_log:
  "f \<in> set listing \<Longrightarrow> py_endswith f ''.pdf'' \<Longrightarrow>
   Processed f (py_basename (py_join output_dir (output_name f))) \<in>
     set (batch_log detect fitz_open input_dir output_dir listing)"
  by (auto simp: batch_log_def)

lemma extract_headings_schema: "result_schema (extract_headings detect fitz_open p)"
  by (auto simp: result_schema_def dest: outline_entry_wf)

lemma written_schema:
  "(p, s) \<in> set (written detect fitz_open input_dir output_dir pre) \<Longrightarrow>
   \<exists>r. json_load s = Some r \<and> result_schema r"
  by (auto simp: written_def extract_headings_schema)

text \<open>
  C35: every \<open>".pdf"\<close> name is eventually processed when the outputs are writable: from
  every state a run reaches, it goes on to a state whose log has the line for that name.
\<close>

theorem batch_processes_every_pdf:
  assumes all: "\<forall>g\<in>set listing. py_endswith g ''.pdf'' \<longrightarrow> writable env (py_join output_dir (output_name g))"
    and f: "f \<in> set listing" "py_endswith f ''.pdf''"
    and r: "(batch_step detect fitz_open env input_dir output_dir)\<^sup>*\<^sup>* (Running listing init) t"
  shows "\<exists>t'. (batch_step detect fitz_open env input_dir output_dir)\<^sup>*\<^sup>* t t' \<and>
    Processed f (py_basename (py_join output_dir (output_name f))) \<in> set (log (run_state t'))"
proof (cases t)
  case (Crashed e st)
  with batch_reach_inv [OF r] all show ?thesis by auto
next
  case (Running fs st)
  with batch_reach_inv [OF r] obtain pre where l: "listing = pre @ fs"
    and st: "st = after detect fitz_open input_dir output_dir pre init" by auto
  obtain t' where r': "(batch_step detect fitz_open env input_dir output_dir)\<^sup>*\<^sup>* (Running fs st) t'"
    and o: "batch_outcome t' = process_files detect fitz_open env input_dir output_dir fs st"
    using batch_runs by blast
  have "process_files detect fitz_open env input_dir output_dir fs st =
        Done (after detect fitz_open input_dir output_dir fs st)"
    using all l by (intro process_files_ok) simp
  with o have "run_state t' = after detect fitz_open input_dir output_dir listing init"
    by (simp add: run_state_Done st l after_append)
  with f r' Running show ?thesis by (auto simp: log_after processed_in_batch_log)
qed

text \<open>
  C36: every file in the output directory, at every point of a run, is either one that was
  there before or the JSON text of a result in the output schema: it decodes, its levels
  are \<open>"H1"\<close>, \<open>"H2"\<close> or \<open>"H3"\<close> and its pages are 1-based.
\<close>

theorem batch_files_schema:
  "(batch_step detect fitz_open env input_dir output_dir)\<^sup>*\<^sup>* (Running listing init) t \<Longrightarrow>
   files (run_state t) p = Some s \<Longrightarrow>
   files init p = Some s \<or> (\<exists>r. json_load s = Some r \<and> result_schema r)"
proof -
  assume r: "(batch_step detect fitz_open env input_dir output_dir)\<^sup>*\<^sup>* (Running listing init) t"
    and s: "files (run_state t) p = Some s"
  obtain pre where fs: "files (run_state t) =
      files init ++ map_of (rev (written detect fitz_open input_dir output_dir pre))"
    using batch_inv_files [OF batch_reach_inv [OF r]] by blast
  show ?thesis
  proof (cases "map_of (rev (written detect fitz_open input_dir output_dir pre)) p")
    case None
    with s fs show ?thesis by (simp add: map_add_def)
  next
    case (Some s')
    with s fs have "s' = s" by simp
    with Some have "(p, s) \<in> set (written detect fitz_open input_dir output_dir pre)"
      by (auto dest: map_of_SomeD)
    then show ?thesis by (blast dest: written_schema)
  qed
qed

end
