(* ===== verification/Log_Format.thy ===== *)
theory Log_Format
  imports Batch
begin

text \<open>
  How the log reaches stderr (src/main.py line 8): \<open>logging.basicConfig(level=logging.INFO,
  format='[%(levelname)s] %(message)s')\<close> installs a stream handler on stderr that drops
  records below \<open>INFO\<close>, formats each record as its level name in brackets, a space and
  the message, ends it with a newline, and writes the text UTF-8 encoded. The messages are
  the f-strings of lines 73, 88 and 91; \<open>str(e)\<close> of a document's exception is the text
  its error carries. The output is a byte string (\<open>char\<close> read as a byte). Line 88 of
  the source file holds the bytes C3 A2 E2 80 A0 E2 80 99 where an arrow was meant; Python
  reads them as the three code points U+00E2 U+2020 U+2019 (a-circumflex, dagger,
  right single quote: the arrow U+2192 garbled through Windows-1252), and the
  handler writes them back as those eight UTF-8 bytes (\<open>arrow\<close>).
\<close>

datatype log_level = DEBUG | INFO | WARNING | ERROR

type_synonym bytes = "char list"

fun level_no :: "log_level \<Rightarrow> nat" where
  "level_no DEBUG = 10"
| "level_no INFO = 20"
| "level_no WARNING = 30"
| "level_no ERROR = 40"

fun level_name :: "log_level \<Rightarrow> pystr" where
  "level_name DEBUG = ''DEBUG''"
| "level_name INFO = ''INFO''"
| "level_name WARNING = ''WARNING''"
| "level_name ERROR = ''ERROR''"

fun msg_level :: "log_msg \<Rightarrow> log_level" where
  "msg_level (Started t) = INFO"
| "msg_level (Failed p e) = ERROR"
| "msg_level (Processed f out) = INFO"

fun error_text :: "error \<Rightarrow> pystr" where
  "error_text (Open_Error s) = s"
| "error_text (Page_Error n s) = s"
| "error_text (Write_Error p) = p"
| "error_text (Mkdir_Error p) = p"
| "error_text (List_Error p) = p"

definition utf8_char :: "char \<Rightarrow> bytes" where
  "utf8_char c =
     (let n = of_char c :: nat in
      if n < 128 then [c] else [char_of (192 + n div 64), char_of (128 + n mod 64)])"

definition utf8 :: "pystr \<Rightarrow> bytes" where
  "utf8 s = concat (map utf8_char s)"

definition arrow :: bytes where
  "arrow = [CHR 0xC3, CHR 0xA2, CHR 0xE2, CHR 0x80, CHR 0xA0, CHR 0xE2, CHR 0x80, CHR 0x99]"

fun message :: "log_msg \<Rightarrow> bytes" where
  "message (Started t) = utf8 (''Process started at '' @ t)"
| "message (Failed p e) = utf8 (''Failed to process '' @ p @ '': '' @ error_text e)"
| "message (Processed f out) = utf8 (''Processed '' @ f @ '' '') @ arrow @ utf8 ('' '' @ out)"

definition config_level :: log_level where
  "config_level = INFO"

definition format_record :: "log_msg \<Rightarrow> bytes" where
  "format_record m = utf8 (''['' @ level_name (msg_level m) @ ''] '') @ message m @ [CHR 0x0A]"

definition render_log :: "log_msg list \<Rightarrow> bytes" where
  "render_log ms =
     concat (map format_record (filter (\<lambda>m. level_no config_level \<le> level_no (msg_level m)) ms))"

fun msg_fields :: "log_msg \<Rightarrow> pystr list" where
  "msg_fields (Started t) = [t]"
| "msg_fields (Failed p e) = [p, error_text e]"
| "msg_fields (Processed f out) = [f, out]"

subsection \<open>Line breaks in the rendered log\<close>

lemma char_of_not_newline:
  fixes n :: nat
  shows "10 < n \<Longrightarrow> n < 256 \<Longrightarrow> char_of n \<noteq> CHR 0x0A"
proof
  assume "10 < n" "n < 256" "char_of n = CHR 0x0A"
  then have "of_char (char_of n :: char) = (10::nat)" by simp
  with \<open>10 < n\<close> \<open>n < 256\<close> show False by simp
qed

lemma utf8_char_newline:
  "count_list (utf8_char c) (CHR 0x0A) = (if c = CHR 0x0A then 1 else 0)"
proof (cases "of_char c < (128::nat)")
  case True
  then show ?thesis by (simp add: utf8_char_def)
next
  case False
  let ?n = "of_char c :: nat"
  have lt: "?n < 256" by simp
  have "?n div 64 < 4" using lt by (simp add: less_mult_imp_div_less)
  then have "char_of (192 + ?n div 64) \<noteq> CHR 0x0A" by (intro char_of_not_newline) simp_all
  moreover have "char_of (128 + ?n mod 64) \<noteq> CHR 0x0A" by (intro char_of_not_newline) simp_all
  moreover have "c \<noteq> CHR 0x0A" using False by auto
  ultimately show ?thesis using False by (simp add: utf8_char_def Let_def)
qed

lemma utf8_newlines: "count_list (utf8 s) (CHR 0x0A) = count_list s (CHR 0x0A)"
  by (induction s) (simp_all add: utf8_def utf8_char_newline)

lemma utf8_append [simp]: "utf8 (xs @ ys) = utf8 xs @ utf8 ys"
  by (simp add: utf8_def)

lemma config_passes: "level_no config_level \<le> level_no (msg_level m)"
  by (cases m) (simp_all add: config_level_def)

lemma format_record_newlines:
  "count_list (format_record m) (CHR 0x0A) =
   1 + sum_list (map (\<lambda>s. count_list s (CHR 0x0A)) (msg_fields m))"
  by (cases m) (simp_all add: format_record_def utf8_newlines arrow_def)


text \<open>
  C17: every log message is one line of stderr, unless a file name or an error text holds
  a line break: the rendered log has one newline per message plus one per newline inside
  the messages' text fields, so a listed file name with a newline in it writes lines that
  look like log records of their own.
\<close>

theorem render_log_lines:
  "count_list (render_log ms) (CHR 0x0A) =
   length ms + sum_list (map (\<lambda>m. sum_list (map (\<lambda>s. count_list s (CHR 0x0A)) (msg_fields m))) ms)"
  by (induction ms) (simp_all add: render_log_def format_record_newlines config_passes)

end
