(* ===== verification/Unicode.thy ===== *)
theory Unicode
  imports Heading_Filter
begin

text \<open>
  The Fragment Filter over Python's own string type. A Python \<open>str\<close> is a sequence of
  Unicode code points: \<open>len\<close> (line 12) counts code points, \<open>str.endswith\<close> (line 12)
  compares them, and \<open>str.strip()\<close> (line 26) removes the code points that CPython's
  \<open>str.isspace\<close> accepts, among them U+1680, U+2000..U+200A and the ideographic space
  U+3000, far outside Latin-1. This theory models the strip-then-filter of lines 26--28
  on code-point lists (\<open>ustr\<close>) and relates it to the Latin-1 model of
  \<open>Heading_Filter\<close> by the abstraction \<open>u_of = map of_char\<close>: the Latin-1 model is the
  code-point model restricted to text whose code points are below 256, so every theorem
  proved over \<open>pystr\<close> is a theorem about those Python strings.
\<close>

type_synonym codepoint = nat
type_synonym ustr = "codepoint list"

definition u_of :: "pystr \<Rightarrow> ustr" where
  "u_of = map of_char"

text \<open>
  CPython's \<open>Py_UNICODE_ISSPACE\<close>: the code points of bidirectional type WS, B or S
  and those of category Zs.
\<close>

definition u_isspace :: "codepoint \<Rightarrow> bool" where
  "u_isspace n \<longleftrightarrow>
     (0x09 \<le> n \<and> n \<le> 0x0D) \<or> (0x1C \<le> n \<and> n \<le> 0x20) \<or> n = 0x85 \<or> n = 0xA0 \<or>
     n = 0x1680 \<or> (0x2000 \<le> n \<and> n \<le> 0x200A) \<or> n = 0x2028 \<or> n = 0x2029 \<or>
     n = 0x202F \<or> n = 0x205F \<or> n = 0x3000"

definition u_strip :: "ustr \<Rightarrow> ustr" where
  "u_strip s = rev (dropWhile u_isspace (rev (dropWhile u_isspace s)))"

definition u_endswith :: "ustr \<Rightarrow> ustr \<Rightarrow> bool" where
  "u_endswith s suf \<longleftrightarrow>
     length suf \<le> length s \<and> drop (length s - length suf) s = suf"

definition u_is_heading :: "ustr \<Rightarrow> bool" where
  "u_is_heading t \<longleftrightarrow> t \<noteq> [] \<and> length t < 100 \<and> \<not> u_endswith t [0x2E]"

text \<open>Lines 26--28: the span is kept when its stripped text is heading-shaped.\<close>

definition u_keep :: "ustr \<Rightarrow> bool" where
  "u_keep t \<longleftrightarrow> u_is_heading (u_strip t)"

subsection \<open>Characteristic lemmas\<close>

lemma u_endswith_single:
  "u_endswith s [c] \<longleftrightarrow> s \<noteq> [] \<and> last s = c"
proof (cases s rule: rev_cases)
  case (snoc ys y)
  then show ?thesis by (simp add: u_endswith_def)
qed (simp add: u_endswith_def)

lemma u_is_heading_iff:
  "u_is_heading t \<longleftrightarrow> t \<noteq> [] \<and> length t < 100 \<and> last t \<noteq> 0x2E"
  by (auto simp: u_is_heading_def u_endswith_single)

lemma u_strip_Nil_iff: "u_strip s = [] \<longleftrightarrow> (\<forall>c\<in>set s. u_isspace c)"
  unfolding u_strip_def by (rule strip_by_Nil_iff)

lemma u_strip_split:
  "\<exists>a b. s = a @ u_strip s @ b \<and> (\<forall>c\<in>set a. u_isspace c) \<and> (\<forall>c\<in>set b. u_isspace c)"
  unfolding u_strip_def by (rule strip_by_split)

lemma u_strip_hd: "u_strip s \<noteq> [] \<Longrightarrow> \<not> u_isspace (hd (u_strip s))"
  by (rule strip_by_hd [OF u_strip_def])

lemma u_strip_last: "u_strip s \<noteq> [] \<Longrightarrow> \<not> u_isspace (last (u_strip s))"
  by (rule strip_by_last [OF u_strip_def])

lemma u_strip_decomp:
  "\<forall>c\<in>set a. u_isspace c \<Longrightarrow> \<forall>c\<in>set b. u_isspace c \<Longrightarrow> m \<noteq> [] \<Longrightarrow>
   \<not> u_isspace (hd m) \<Longrightarrow> \<not> u_isspace (last m) \<Longrightarrow> u_strip (a @ m @ b) = m"
  unfolding u_strip_def by (rule strip_by_decomp)

text \<open>Whitespace around a text does not change its strip.\<close>

lemma u_strip_pad:
  assumes a: "\<forall>c\<in>set a. u_isspace c" and b: "\<forall>c\<in>set b. u_isspace c"
  shows "u_strip (a @ t @ b) = u_strip t"
proof (cases "u_strip t = []")
  case True
  then have "u_strip (a @ t @ b) = []" using a b by (auto simp: u_strip_Nil_iff)
  with True show ?thesis by simp
next
  case False
  obtain a' b' where t: "t = a' @ u_strip t @ b'" and "\<forall>c\<in>set a'. u_isspace c"
    "\<forall>c\<in>set b'. u_isspace c"
    using u_strip_split [of t] by blast
  with a b have "u_strip ((a @ a') @ u_strip t @ (b' @ b)) = u_strip t"
    using False u_strip_hd u_strip_last by (intro u_strip_decomp) auto
  then show ?thesis using t by (metis append.assoc)
qed

lemma u_strip_id: "\<forall>c\<in>set s. \<not> u_isspace c \<Longrightarrow> u_strip s = s"
proof -
  have d: "dropWhile u_isspace xs = xs" if "\<forall>c\<in>set xs. \<not> u_isspace c" for xs
    using that by (cases xs) simp_all
  assume "\<forall>c\<in>set s. \<not> u_isspace c"
  then show ?thesis using d [of s] d [of "rev s"] by (simp add: u_strip_def)
qed

lemma u_isspace_latin1:
  "n < 256 \<Longrightarrow> u_isspace n \<longleftrightarrow> (9 \<le> n \<and> n \<le> 13) \<or> (28 \<le> n \<and> n \<le> 32) \<or> n = 133 \<or> n = 160"
  by (auto simp: u_isspace_def)

lemma u_isspace_of_char: "u_isspace \<circ> of_char = py_isspace"
  by (simp add: fun_eq_iff u_isspace_latin1 py_isspace_def Let_def)

lemma u_of_dropWhile:
  "dropWhile u_isspace (u_of s) = u_of (dropWhile py_isspace s)"
  by (simp add: u_of_def dropWhile_map u_isspace_of_char)

lemma u_of_period: "of_char c = (0x2E :: nat) \<longleftrightarrow> c = CHR ''.''"
proof -
  have "of_char (CHR ''.'') = (0x2E :: nat)" by simp
  then show ?thesis by (metis of_char_eq_iff)
qed

lemma u_is_heading_of: "u_is_heading (u_of t) \<longleftrightarrow> is_heading t"
  by (cases t rule: rev_cases) (simp_all add: u_is_heading_iff u_of_def u_of_period)

lemma u_strip_of: "u_strip (u_of s) = u_of (py_strip s)"
  by (simp add: u_strip_def py_strip_def u_of_dropWhile flip: u_of_def)
    (simp add: u_of_def rev_map u_of_dropWhile [unfolded u_of_def])

subsection \<open>Properties\<close>

text \<open>
  C18: on every Python string, the strip-then-filter of lines 26--28 keeps a span exactly
  when its text is whitespace, then a core that begins and ends with a code point that is
  not whitespace, then whitespace, with a core of fewer than 100 code points that does not
  end with a period. Both ends are trimmed: a text whose last non-whitespace code point is
  a period is rejected whatever whitespace follows it.
\<close>

theorem u_filter_iff:
  "u_keep t \<longleftrightarrow>
     (\<exists>a m b. t = a @ m @ b \<and> (\<forall>c\<in>set a. u_isspace c) \<and> (\<forall>c\<in>set b. u_isspace c) \<and>
        m \<noteq> [] \<and> \<not> u_isspace (hd m) \<and> \<not> u_isspace (last m) \<and>
        length m < 100 \<and> last m \<noteq> 0x2E)"
proof
  assume "u_keep t"
  then have "u_strip t \<noteq> []" "length (u_strip t) < 100" "last (u_strip t) \<noteq> 0x2E"
    by (auto simp: u_keep_def u_is_heading_def u_endswith_single)
  with u_strip_split [of t] u_strip_hd [of t] u_strip_last [of t] show "\<exists>a m b. t = a @ m @ b \<and>
      (\<forall>c\<in>set a. u_isspace c) \<and> (\<forall>c\<in>set b. u_isspace c) \<and> m \<noteq> [] \<and>
      \<not> u_isspace (hd m) \<and> \<not> u_isspace (last m) \<and> length m < 100 \<and> last m \<noteq> 0x2E"
    by blast
next
  assume "\<exists>a m b. t = a @ m @ b \<and> (\<forall>c\<in>set a. u_isspace c) \<and> (\<forall>c\<in>set b. u_isspace c) \<and>
      m \<noteq> [] \<and> \<not> u_isspace (hd m) \<and> \<not> u_isspace (last m) \<and> length m < 100 \<and> last m \<noteq> 0x2E"
  then obtain a m b where t: "t = a @ m @ b" and ab: "\<forall>c\<in>set a. u_isspace c" "\<forall>c\<in>set b. u_isspace c"
    and m: "m \<noteq> []" "\<not> u_isspace (hd m)" "\<not> u_isspace (last m)" "length m < 100" "last m \<noteq> 0x2E"
    by blast
  from ab m have "u_strip t = m" unfolding t by (intro u_strip_decomp)
  with m show "u_keep t" by (simp add: u_keep_def u_is_heading_def u_endswith_single)
qed

text \<open>
  The Latin-1 model of the filter is the code-point model restricted to strings whose
  code points are below 256: stripping commutes with \<open>u_of\<close>, and the code-point
  filter keeps \<open>u_of s\<close> exactly when \<open>is_heading (py_strip s)\<close> holds.
\<close>

lemma u_filter_refines:
  "u_strip (u_of s) = u_of (py_strip s) \<and> (u_keep (u_of s) \<longleftrightarrow> is_heading (py_strip s))"
  by (simp add: u_keep_def u_strip_of u_is_heading_of)

text \<open>
  C30: the filter's decision does not depend on whitespace around the text: padding a span's
  text on either side with any whitespace code points (spaces, tabs, line breaks, U+3000)
  keeps or drops it exactly as the unpadded text.
\<close>

theorem u_filter_pad:
  "\<forall>c\<in>set a. u_isspace c \<Longrightarrow> \<forall>c\<in>set b. u_isspace c \<Longrightarrow> u_keep (a @ t @ b) \<longleftrightarrow> u_keep t"
  by (simp add: u_keep_def u_strip_pad)

end
