(* ===== verification/Spec2Isabelle.thy ===== *)
theory Spec2Isabelle
  imports Batch_Steps Log_Format Unicode
begin

text \<open>
  \<^bold>\<open>A verified model of the heading extractor (src/main.py).\<close>

  The program reads every PDF of an input directory, classifies its text spans as headings
  by their shape and font size, and writes a JSON outline per document. Its parts, leaf
  first, and the theory that models each:
  \<^item> \<^bold>\<open>Python library\<close> (theory \<open>PyStr\<close>): \<open>str.strip\<close>, \<open>str.endswith\<close>, the
    substring test \<open>in\<close>, \<open>str.replace\<close>, \<open>os.path.basename\<close> and \<open>os.path.join\<close>
    as executable functions on \<open>char list\<close> (\<open>py_strip\<close>, \<open>py_endswith\<close>,
    \<open>py_contains\<close>, \<open>py_replace\<close>, \<open>py_basename\<close>, \<open>py_join\<close>). Characters are
    Latin-1 code points; \<open>py_isspace\<close> is CPython's \<open>isspace\<close> on 0..255.
  \<^item> \<^bold>\<open>Fragment Filter\<close> (\<open>Heading_Filter\<close>): \<open>is_heading\<close>, lines 10--12, on
    Latin-1 text. Theory \<open>Unicode\<close> models the same filter, with the strip of line 26
    (\<open>u_keep\<close>, lines 26--28), on Python's own strings, lists of Unicode code points:
    \<open>len\<close> counts code points and \<open>u_isspace\<close> is CPython's whitespace table, U+3000
    included. The abstraction \<open>u_of = map of_char\<close> embeds Latin-1 text.
  \<^item> \<^bold>\<open>Fragment Source\<close> (\<open>Source\<close>): the nested loops of lines 16--44 over pages,
    blocks, lines and spans. PyMuPDF is not modelled: a document is the list of what
    \<open>page.get_text("dict")\<close> returns per page, each page either an error (\<open>Inl\<close>) or
    its blocks; \<open>span_block\<close> strips and filters one span and builds the
    \<open>text_block\<close> record of line 37; \<open>extract_pages\<close> enumerates pages from 1 and
    stops at the first unreadable page. The language detector is a parameter
    \<open>pystr \<Rightarrow> pystr option\<close>, \<open>None\<close> being the swallowed exception.
  \<^item> \<^bold>\<open>Font-Level Ranker\<close> (\<open>Ranker\<close>): \<open>font_sizes\<close> (line 47) and the dictionary
    comprehension \<open>size_to_level\<close> (line 48, with \<open>dict_of\<close> for the comprehension
    and \<open>nat_str\<close> for the f-string). Font sizes are any linear order.
  \<^item> \<^bold>\<open>Outline Assembler\<close> (\<open>Assembler\<close>): the loop of lines 50--64 as a state record
    \<open>asm_state\<close> (\<open>seen\<close>, \<open>outline\<close>) and one \<open>assemble_step\<close> per block, the
    title of line 66 (\<open>title_of\<close>) and the result record of lines 67--70.
  \<^item> \<^bold>\<open>Document processing\<close> (\<open>Extract\<close>): \<open>extract_headings\<close>, lines 14--77,
    with \<open>fitz.open\<close> a parameter that may fail. The \<open>try\<close> body is \<open>extract_try\<close>
    (\<open>error + result\<close>); the \<open>except\<close> branch returns \<open>error_result\<close> and logs the
    failure (\<open>extract_log\<close>, line 73).
  \<^item> \<^bold>\<open>JSON persistence\<close> (\<open>Json\<close>): \<open>json.dump(result, f, indent=2,
    ensure_ascii=False)\<close> of line 87 as \<open>json_dump\<close>, the text CPython's indenting
    encoder produces for the result record (\<open>json_str\<close> escapes quote, backslash and
    control characters and writes every other character as it is), and a decoder
    \<open>json_load\<close> for that layout (\<open>partial_function (option)\<close> for the entry list).
  \<^item> \<^bold>\<open>Batch Driver and entry point\<close> (\<open>Batch\<close>): \<open>process_all_pdfs\<close>, lines 79--88,
    and \<open>main\<close>, lines 90--92. The effects are a record \<open>sys_state\<close> (files on disk as a
    map from paths to their text, existing directories, the log as a list of
    \<open>log_msg\<close>); the operating system is a record \<open>os_env\<close> (\<open>os.makedirs\<close> may fail,
    \<open>os.listdir\<close> returns a listing or raises, \<open>open(path, "w")\<close> accepts a path or
    raises). Nothing catches these exceptions: an \<open>outcome\<close> is \<open>Done\<close> or
    \<open>Raised\<close>, with the state the exception leaves (files written and lines logged
    before it stay). \<open>after\<close>, \<open>written\<close> and \<open>batch_log\<close> describe the state after a
    prefix of the listing.
  \<^item> \<^bold>\<open>Log output\<close> (\<open>Log_Format\<close>): \<open>logging.basicConfig\<close> of line 8, the level
    filter, the format \<open>[%(levelname)s] %(message)s\<close>, the messages of lines 73, 88 and
    91 (\<open>message\<close>) and the UTF-8 bytes the stderr handler writes (\<open>render_log\<close>).
    Line 88 holds the characters U+00E2 U+2020 U+2019 where an arrow was meant; \<open>arrow\<close>
    is their eight UTF-8 bytes.
  \<^item> \<^bold>\<open>Batch loop as a state machine\<close> (\<open>Batch_Steps\<close>): the loop (lines 81--88) as an
    inductive step relation \<open>batch_step\<close> on \<open>run\<close> states, the names still to be listed
    with the system state, or the crash of an uncaught write error with the state it
    leaves. Its reachable states are characterised by \<open>batch_inv\<close>, proved by rule
    induction over \<open>rtranclp\<close>; the lemmas \<open>batch_step_refines\<close> and
    \<open>batch_steps_bounded\<close> connect it with \<open>process_files\<close> and bound the number of steps.

  \<^bold>\<open>Specifications and results.\<close> The ranker refines \<open>rank_level\<close>: a size gets
  \<open>H(r+1)\<close> where \<open>r\<close> counts the strictly larger sizes, if \<open>r < 3\<close> (C2); the
  assembler's loop equals \<open>first_by_key\<close> on the candidate entries (C1), keeps its
  invariant (C14), keeps encounter order (C15) and the first occurrence (C9), and
  fragments whose identifiers already occurred add nothing (C16). End to end
  (\<open>Extract\<close>): failures give the error record (C3), the language tag never matters
  (C4), identifiers are unique (C5), every top-three heading is present (C6), entries are
  well formed (C7), pages never decrease (C8), the title is the first entry or the
  stripped file name (C10, C11), and the outline is decided by the fragments of the three
  largest sizes alone (C25). Ranker: the sizes in descending order (C12), levels H1--H3
  only (C13), the same dictionary for every order of the fragments (C27). The rendered
  log: one stderr line per message unless a quoted name holds a line break (C17).
  Filter: on every string of code points, the strip-then-filter keeps exactly the text
  that is whitespace, a core starting and ending with non-whitespace, whitespace, with a
  core shorter than 100 code points not ending with a period (C18); whitespace around a
  text never changes the decision (C30); \<open>is_heading\<close> alone accepts every non-empty
  blank text (C19). Batch: completion (C20); the file written for a document holds its
  result and reads back as it (C21); a failing write aborts and keeps the earlier files
  (C22); with colliding output names the last listed document wins (C23); without
  collisions the order of \<open>os.listdir\<close> does not matter (C24); the output name of a
  \<open>".pdf"\<close> name ends in \<open>".json"\<close> and is the intended one when the name holds no other
  \<open>".pdf"\<close> (C31); the exceptions of \<open>os.makedirs\<close> and \<open>os.listdir\<close> (C33); the
  complete log of a run of \<open>main\<close> (C34). Step relation: a crash leaves exactly the files
  and log lines of the names before the failing one (C32); every listed \<open>".pdf"\<close> is
  eventually processed, from any reachable state (C35); every file in the output
  directory is an old one or a decodable result in the output schema (C36). JSON: the
  decoder inverts the encoder and the encoder is injective (C28), and the file holds no
  raw control character but line breaks (C29). Example lemmas evaluate the spec's
  scenario (\<open>ex_spec_scenario\<close>, with the file written for it) and the findings on fixed
  inputs.

  \<^bold>\<open>Findings.\<close> \<open>is_heading\<close> alone accepts blank text (C19); output names collide
  because \<open>replace\<close> rewrites every \<open>".pdf"\<close>, and the \<open>os.listdir\<close> order decides
  which document's file survives (C23); the fallback title can still end in
  \<open>".pdf"\<close> (C10, \<open>ex_title_fallback_keeps_pdf\<close>); a failing write aborts the batch
  (C22), and so do a missing input directory and an output directory that cannot be made
  (C33); a document whose output cannot be opened gets no log line of its own (C32); a
  file name with a line break forges log lines (C17); the error record equals the result
  of a readable heading-less document whose name without \<open>".pdf"\<close> is \<open>Error\<close> (C26);
  \<open>len\<close> counts code points, not visible characters (C18, \<open>ex_unicode_filter\<close>); the
  arrow of line 88 is garbled in the source file.

  \<^bold>\<open>Plan.\<close> Modelled first, in this order: the ranker and the assembler (the decision
  logic), the span loop and its errors, the composition, the batch, the JSON text of
  line 87, the output names, the batch as a step relation, the batch's effects on
  directories and the log, the entry point, the log's rendering, the order of the
  listing and repeated fragments, and the filter on code points. Next: the JSON decoder
  for every JSON text, not only the encoder's layout.

  \<^bold>\<open>Not modelled.\<close> PyMuPDF and langdetect (external libraries, parameters here);
  the imports (lines 1--6); the clock of line 91 (the time stamp is a parameter); parent
  directories that \<open>os.makedirs\<close> creates along the way. Text beyond Latin-1 is
  modelled only in the filter (\<open>Unicode\<close>); the ranker, assembler, JSON text and
  batch take \<open>char\<close> strings, and none of their operations inspects a character other
  than the ASCII ones they compare with (quote, backslash, control characters,
  \<open>".pdf"\<close>), so code points above 0xFF would pass through them unchanged, as in
  CPython with \<open>ensure_ascii=False\<close>; the development does not prove that
  extension. NaN font sizes (Python floats are not a linear order with NaN). No loop of the program can run forever: every loop is
  structural recursion over a finite list, so no fuel is needed.
\<close>

definition ex_span :: "pystr \<Rightarrow> int \<Rightarrow> int span" where
  "ex_span t s = \<lparr>span_text = t, span_size = s, span_font = ''Arial''\<rparr>"

definition ex_pages :: "int page list" where
  "ex_pages =
     [[Text_Block [[ex_span ''Intro'' 18, ex_span ''This is body text.'' 12]], Other_Block],
      [Text_Block [[ex_span '' Intro '' 18], [ex_span ''Background'' 14]]]]"

definition ex_open :: "int opener" where
  "ex_open p = Inr (map Inr ex_pages)"

definition ex_block :: "pystr \<Rightarrow> int \<Rightarrow> page_no \<Rightarrow> int text_block" where
  "ex_block t s n = \<lparr>block_text = t, font_size = s, font = ''Arial'', is_bold = False, lang = '''',
                     page = n\<rparr>"

definition ex_sys :: sys_state where
  "ex_sys = \<lparr>files = Map.empty, dirs = {}, log = []\<rparr>"

definition ex_env :: "pystr list \<Rightarrow> (pystr \<Rightarrow> bool) \<Rightarrow> os_env" where
  "ex_env listing ok = \<lparr>can_mkdir = \<lambda>_. True, listdir = \<lambda>_. Some listing, writable = ok\<rparr>"

lemmas extract_eval = extract_headings_def extract_try_def doc_blocks_def page_blocks_def block_blocks_def
  span_block_def detect_lang_def py_strip_def py_isspace_def font_sizes_def size_to_level_def
  dict_of_def assemble_def asm_init_def assemble_step_def make_result_def title_of_def Let_def
  ex_span_def ex_pages_def ex_open_def

lemmas ex_path_eval = output_name_def py_join_def py_endswith_def

text \<open>
  The scenario of the spec: \<open>Intro\<close> (18 pt) on pages 1 and 2, body text (12 pt),
  \<open>Background\<close> (14 pt). The sentence ends with a period and is filtered out before
  ranking, so only the sizes 18 and 14 are ranked and get \<open>H1\<close> and \<open>H2\<close>; the
  outline lists \<open>Intro\<close> once per page; the file written for it
  (\<open>json.dump(result, f, indent=2, ensure_ascii=False)\<close>, line 87) is, line by line,
  the text Python writes.
\<close>

lemma ex_spec_scenario:
  "extract_headings (\<lambda>_. None) ex_open ''/app/input/doc.pdf'' =
     \<lparr>res_title = ''Intro'', res_outline =
        [\<lparr>level = ''H1'', entry_text = ''Intro'', entry_page = 1\<rparr>,
         \<lparr>level = ''H1'', entry_text = ''Intro'', entry_page = 2\<rparr>,
         \<lparr>level = ''H2'', entry_text = ''Background'', entry_page = 2\<rparr>]\<rparr> \<and>
   json_dump (extract_headings (\<lambda>_. None) ex_open ''/app/input/doc.pdf'') =
   sep_join [CHR 0x0A]
    [''{'',
     ''  \"title\": \"Intro\",'',
     ''  \"outline\": ['',
     ''    {'',
     ''      \"level\": \"H1\",'',
     ''      \"text\": \"Intro\",'',
     ''      \"page\": 1'',
     ''    },'',
     ''    {'',
     ''      \"level\": \"H1\",'',
     ''      \"text\": \"Intro\",'',
     ''      \"page\": 2'',
     ''    },'',
     ''    {'',
     ''      \"level\": \"H2\",'',
     ''      \"text\": \"Background\",'',
     ''      \"page\": 2'',
     ''    }'',
     ''  ]'',
     ''}'']"
proof -
  have r: "extract_headings (\<lambda>_. None) ex_open ''/app/input/doc.pdf'' =
     \<lparr>res_title = ''Intro'', res_outline =
        [\<lparr>level = ''H1'', entry_text = ''Intro'', entry_page = 1\<rparr>,
         \<lparr>level = ''H1'', entry_text = ''Intro'', entry_page = 2\<rparr>,
         \<lparr>level = ''H2'', entry_text = ''Background'', entry_page = 2\<rparr>]\<rparr>"
    by (simp add: extract_eval)
  have "json_dump (\<lparr>res_title = ''Intro'', res_outline =
        [\<lparr>level = ''H1'', entry_text = ''Intro'', entry_page = 1\<rparr>,
         \<lparr>level = ''H1'', entry_text = ''Intro'', entry_page = 2\<rparr>,
         \<lparr>level = ''H2'', entry_text = ''Background'', entry_page = 2\<rparr>]\<rparr>) =
   sep_join [CHR 0x0A]
    [''{'',
     ''  \"title\": \"Intro\",'',
     ''  \"outline\": ['',
     ''    {'',
     ''      \"level\": \"H1\",'',
     ''      \"text\": \"Intro\",'',
     ''      \"page\": 1'',
     ''    },'',
     ''    {'',
     ''      \"level\": \"H1\",'',
     ''      \"text\": \"Intro\",'',
     ''      \"page\": 2'',
     ''    },'',
     ''    {'',
     ''      \"level\": \"H2\",'',
     ''      \"text\": \"Background\",'',
     ''      \"page\": 2'',
     ''    }'',
     ''  ]'',
     ''}'']"
    by code_simp
  with r show ?thesis by simp
qed

text \<open>
  With more than three distinct heading sizes only the three largest get a level; the
  fragment at the fourth size is dropped from the outline although it passed the filter.
\<close>

lemma ex_more_than_three_sizes:
  "extract_headings (\<lambda>_. None)
     (\<lambda>_. Inr [Inr [Text_Block [[ex_span ''A'' 20, ex_span ''B'' 18, ex_span ''C'' 16,
                                  ex_span ''D'' 14]]]]) ''/app/input/doc.pdf'' =
     \<lparr>res_title = ''A'', res_outline =
        [\<lparr>level = ''H1'', entry_text = ''A'', entry_page = 1\<rparr>,
         \<lparr>level = ''H2'', entry_text = ''B'', entry_page = 1\<rparr>,
         \<lparr>level = ''H3'', entry_text = ''C'', entry_page = 1\<rparr>]\<rparr>"
  by (simp add: extract_eval)

text \<open>
  The error record is not distinguishable from a result: a readable document named
  \<open>Error.pdf\<close> without headings gives exactly the record a corrupt document gives.
\<close>

lemma ex_error_marker:
  "extract_headings (\<lambda>_. None) ((\<lambda>_. Inr []) :: int opener) ''/app/input/Error.pdf'' =
   extract_headings (\<lambda>_. None) ((\<lambda>_. Inl (Open_Error ''corrupt'')) :: int opener)
     ''/app/input/Error.pdf''"
  by (simp add: extract_eval error_result_def py_basename_def)

text \<open>
  The title is the first accepted heading, not the largest text: a 24 pt title that
  ends with a period is filtered out, and a 12 pt line becomes title and \<open>H1\<close>.
\<close>

lemma ex_title_not_largest:
  "extract_headings (\<lambda>_. None)
     (\<lambda>_. Inr [Inr [Text_Block [[ex_span ''Annual Report.'' 24], [ex_span ''Summary'' 12]]]])
     ''/app/input/report.pdf'' =
     \<lparr>res_title = ''Summary'', res_outline =
        [\<lparr>level = ''H1'', entry_text = ''Summary'', entry_page = 1\<rparr>]\<rparr>"
  by (simp add: extract_eval)

text \<open>
  The fallback title does not strip "the extension": \<open>replace(".pdf", "")\<close>
  removes every occurrence, and the pieces can join into a new \<open>".pdf"\<close>: the file
  \<open>x.pd.pdff.pdf\<close> without headings gets the title \<open>x.pdf\<close>.
\<close>

lemma ex_title_fallback_keeps_pdf:
  "res_title (extract_headings (\<lambda>_. None) ((\<lambda>_. Inr []) :: int opener)
     ''/app/input/x.pd.pdff.pdf'') = ''x.pdf''"
  by (simp add: extract_eval py_basename_def)

subsection \<open>Witnesses\<close>

theorem extract_headings_failure_witness:
  "(((\<lambda>_. Inl (Open_Error ''corrupt'')) :: int opener) ''a.pdf'' = Inl (Open_Error ''corrupt'') \<or>
    ((\<lambda>_. Inl (Open_Error ''corrupt'')) :: int opener) ''a.pdf'' =
      Inr (map Inr [] @ Inl (Open_Error ''corrupt'') # [])) \<and>
   extract_headings (\<lambda>_. None) ((\<lambda>_. Inl (Open_Error ''corrupt'')) :: int opener) ''a.pdf'' =
     error_result"
  using Extract.extract_headings_failure [where fitz_open = "(\<lambda>_. Inl (Open_Error ''corrupt'')) :: int opener"
      and p = "''a.pdf''" and e = "Open_Error ''corrupt''" and pre = "[]" and post = "[]"
      and detect = "\<lambda>_. None"]
  by simp

theorem outline_complete_witness:
  "ex_open ''d.pdf'' = Inr (map Inr ex_pages) \<and>
   ex_block ''Background'' 14 2 \<in> set (doc_blocks (\<lambda>_. None) ex_pages) \<and>
   rank (font_size ` set (doc_blocks (\<lambda>_. None) ex_pages)) (font_size (ex_block ''Background'' 14 2)) < 3 \<and>
   (block_text (ex_block ''Background'' 14 2), page (ex_block ''Background'' 14 2))
     \<in> entry_key ` set (res_outline (extract_headings (\<lambda>_. None) ex_open ''d.pdf''))"
proof -
  have h1: "ex_open ''d.pdf'' = Inr (map Inr ex_pages)" by (simp add: ex_open_def)
  have h2: "ex_block ''Background'' 14 2 \<in> set (doc_blocks (\<lambda>_. None) ex_pages)"
    by (simp add: extract_eval ex_block_def)
  have s: "font_size ` set (doc_blocks (\<lambda>_. None) ex_pages) = {18, 14}"
    by (simp add: extract_eval insert_commute)
  have "{t \<in> {18, 14}. (14::int) < t} = {18}" by auto
  then have h3: "rank (font_size ` set (doc_blocks (\<lambda>_. None) ex_pages)) (font_size (ex_block ''Background'' 14 2)) < 3"
    by (simp add: s rank_def ex_block_def)
  show ?thesis
    using h1 h2 h3 Extract.outline_complete [where fitz_open = ex_open and p = "''d.pdf''"
        and pages = ex_pages and detect = "\<lambda>_. None" and b = "ex_block ''Background'' 14 2",
        OF h1 h2 h3]
    by simp
qed

theorem outline_entries_sound_witness:
  "\<lparr>level = ''H2'', entry_text = ''Background'', entry_page = 2\<rparr>
     \<in> set (res_outline (extract_headings (\<lambda>_. None) ex_open ''d.pdf'')) \<and>
   ''H2'' \<in> {''H1'', ''H2'', ''H3''} \<and> is_heading ''Background'' \<and>
   py_strip ''Background'' = ''Background'' \<and> 1 \<le> (2::nat)"
proof -
  have h: "\<lparr>level = ''H2'', entry_text = ''Background'', entry_page = 2\<rparr>
     \<in> set (res_outline (extract_headings (\<lambda>_. None) ex_open ''d.pdf''))"
    by (simp add: extract_eval)
  show ?thesis using h Extract.outline_entries_sound [OF h] by simp
qed

theorem assemble_first_wins_witness:
  "\<lparr>level = ''H1'', entry_text = ''A'', entry_page = 1\<rparr>
     \<in> set (assemble [18 \<mapsto> ''H1''] [ex_block ''A'' 18 1, ex_block ''A'' 18 1]) \<and>
   find (\<lambda>c. entry_key c = (''A'', 1))
     (List.map_filter (candidate [18 \<mapsto> ''H1'']) [ex_block ''A'' 18 1, ex_block ''A'' 18 1]) =
   Some \<lparr>level = ''H1'', entry_text = ''A'', entry_page = 1\<rparr>"
proof -
  have h: "\<lparr>level = ''H1'', entry_text = ''A'', entry_page = 1\<rparr>
     \<in> set (assemble [18 \<mapsto> ''H1''] [ex_block ''A'' 18 1, ex_block ''A'' 18 1])"
    by (simp add: assemble_def asm_init_def assemble_step_def ex_block_def)
  show ?thesis using h Assembler.assemble_first_wins [OF h] by (simp add: entry_key_def)
qed

theorem title_fallback_witness:
  "extract_headings (\<lambda>_. None)
     ((\<lambda>_. Inr (map Inr [[Text_Block [[ex_span ''Body text.'' 10]]]])) :: int opener) ''/in/memo.pdf''
   = \<lparr>res_title = ''memo'', res_outline = []\<rparr>"
proof -
  let ?pages = "[[Text_Block [[ex_span ''Body text.'' 10]]]] :: int page list"
  have h1: "((\<lambda>_. Inr (map Inr ?pages)) :: int opener) ''/in/memo.pdf'' = Inr (map Inr ?pages)"
    by simp
  have h2: "\<forall>bs\<in>set ?pages. \<forall>sp\<in>set (page_spans bs). \<not> is_heading (py_strip (span_text sp))"
    by (simp add: page_spans_def block_spans_def ex_span_def py_strip_def py_isspace_def)
  have r: "py_replace ''.pdf'' '''' (py_basename ''/in/memo.pdf'') = ''memo''"
    by (simp add: py_basename_def)
  show ?thesis
    using h1 h2 Extract.title_fallback [where fitz_open = "(\<lambda>_. Inr (map Inr ?pages)) :: int opener"
        and p = "''/in/memo.pdf''" and pages = ?pages and detect = "\<lambda>_. None", OF h1 h2] r
    by simp
qed

theorem title_first_entry_witness:
  "res_outline (extract_headings (\<lambda>_. None) ex_open ''d.pdf'') =
     \<lparr>level = ''H1'', entry_text = ''Intro'', entry_page = 1\<rparr> #
     [\<lparr>level = ''H1'', entry_text = ''Intro'', entry_page = 2\<rparr>,
      \<lparr>level = ''H2'', entry_text = ''Background'', entry_page = 2\<rparr>] \<and>
   res_title (extract_headings (\<lambda>_. None) ex_open ''d.pdf'') = ''Intro''"
proof -
  have h: "res_outline (extract_headings (\<lambda>_. None) ex_open ''d.pdf'') =
     \<lparr>level = ''H1'', entry_text = ''Intro'', entry_page = 1\<rparr> #
     [\<lparr>level = ''H1'', entry_text = ''Intro'', entry_page = 2\<rparr>,
      \<lparr>level = ''H2'', entry_text = ''Background'', entry_page = 2\<rparr>]"
    by (simp add: extract_eval)
  show ?thesis using h Extract.title_first_entry [OF h] by simp
qed

theorem size_to_level_labels_witness:
  "size_to_level (font_sizes [ex_block ''A'' 18 1, ex_block ''B'' 14 1]) 14 = Some ''H2'' \<and>
   ''H2'' \<in> {''H1'', ''H2'', ''H3''}"
proof -
  have h: "size_to_level (font_sizes [ex_block ''A'' 18 1, ex_block ''B'' 14 1]) 14 = Some ''H2''"
    by (simp add: font_sizes_def size_to_level_def dict_of_def ex_block_def)
  show ?thesis using h Ranker.size_to_level_labels [OF h] by simp
qed

theorem assemble_loop_inv_witness:
  "asm_inv asm_init \<and> asm_inv (assemble_loop [18 \<mapsto> ''H1''] asm_init [ex_block ''A'' 18 1])"
proof -
  have h: "asm_inv asm_init" by (simp add: asm_inv_def asm_init_def)
  show ?thesis using h Assembler.assemble_loop_inv [OF h] by blast
qed

theorem is_heading_rejects_witness:
  "\<not> is_heading (py_strip ''Some sentence.'')"
proof -
  have h: "(\<forall>c\<in>set ''Some sentence.''. py_isspace c) \<or> 100 \<le> length (py_strip ''Some sentence.'') \<or>
     py_endswith (py_strip ''Some sentence.'') ''.''"
    by (simp add: py_strip_def py_isspace_def py_endswith_def)
  show ?thesis using h Heading_Filter.is_heading_rejects [OF h] by blast
qed

theorem json_dump_chars_witness:
  "CHR 0x09 \<notin> set (json_dump \<lparr>res_title = ''A'' @ [CHR 0x09] @ ''B'', res_outline = []\<rparr>)"
proof
  assume "CHR 0x09 \<in> set (json_dump \<lparr>res_title = ''A'' @ [CHR 0x09] @ ''B'', res_outline = []\<rparr>)"
  then have "CHR 0x09 = CHR 0x0A \<or> (32::nat) \<le> of_char (CHR 0x09)"
    by (rule bspec [OF Json.json_dump_chars])
  then show False by simp
qed

theorem json_str_plain_witness:
  "json_str (''R'' @ [CHR 0xE9] @ ''sum'' @ [CHR 0xE9]) =
   CHR ''\"'' # (''R'' @ [CHR 0xE9] @ ''sum'' @ [CHR 0xE9]) @ [CHR ''\"'']"
proof -
  have h: "\<forall>c\<in>set (''R'' @ [CHR 0xE9] @ ''sum'' @ [CHR 0xE9]).
             (32::nat) \<le> of_char c \<and> of_char c \<noteq> (34::nat) \<and> of_char c \<noteq> (92::nat)"
    by simp
  show ?thesis by (rule Json.json_str_plain [OF h])
qed

theorem output_name_contract_witness:
  "py_endswith (output_name ''report.pdf'') ''.json'' \<and> output_name (''report'' @ ''.pdf'') = ''report'' @ ''.json''"
proof -
  have h1: "py_endswith ''report.pdf'' ''.pdf''" by (simp add: py_endswith_def)
  have h2: "\<not> py_contains ''.pdf'' ''report''" by simp
  show ?thesis
    using Batch.output_name_contract [where f = "''report.pdf''" and s = "''report''"] h1 h2 by blast
qed

theorem batch_completes_witness:
  "\<exists>st'. process_all_pdfs (\<lambda>_. None) ex_open (ex_env [''a.pdf'', ''notes.txt''] (\<lambda>_. True))
      ''/app/input'' ''/app/output'' ex_sys = Done st' \<and> ''/app/output'' \<in> dirs st' \<and>
    dom (files st') = dom (files ex_sys) \<union> {py_join ''/app/output'' (output_name f) | f.
      f \<in> set [''a.pdf'', ''notes.txt''] \<and> py_endswith f ''.pdf''}"
proof -
  let ?env = "ex_env [''a.pdf'', ''notes.txt''] (\<lambda>_. True)"
  have h1: "''/app/output'' \<in> dirs ex_sys \<or> can_mkdir ?env ''/app/output''" by (simp add: ex_env_def)
  have h2: "listdir ?env ''/app/input'' = Some [''a.pdf'', ''notes.txt'']" by (simp add: ex_env_def)
  have h3: "\<forall>f\<in>set [''a.pdf'', ''notes.txt'']. py_endswith f ''.pdf'' \<longrightarrow>
      writable ?env (py_join ''/app/output'' (output_name f))" by (simp add: ex_env_def)
  show ?thesis using Batch.batch_completes [OF h1 h2 h3, of "\<lambda>_. None" ex_open] .
qed

theorem batch_writes_result_witness:
  "files (outcome_state (process_all_pdfs (\<lambda>_. None) ex_open (ex_env [''a.pdf''] (\<lambda>_. True))
      ''/app/input'' ''/app/output'' ex_sys)) ''/app/output/a.json'' =
     Some (json_dump (extract_headings (\<lambda>_. None) ex_open ''/app/input/a.pdf''))"
proof -
  let ?env = "ex_env [''a.pdf''] (\<lambda>_. True)"
  let ?o = "process_all_pdfs (\<lambda>_. None) ex_open ?env ''/app/input'' ''/app/output'' ex_sys"
  have h1: "''/app/output'' \<in> dirs ex_sys \<or> can_mkdir ?env ''/app/output''" by (simp add: ex_env_def)
  have h2: "listdir ?env ''/app/input'' = Some [''a.pdf'']" by (simp add: ex_env_def)
  have h3: "\<forall>f\<in>set [''a.pdf'']. py_endswith f ''.pdf'' \<longrightarrow>
      writable ?env (py_join ''/app/output'' (output_name f))" by (simp add: ex_env_def)
  have h4: "distinct (map (\<lambda>f. py_join ''/app/output'' (output_name f))
              (filter (\<lambda>f. py_endswith f ''.pdf'') [''a.pdf'']))" by simp
  have h5: "''a.pdf'' \<in> set [''a.pdf'']" by simp
  have h6: "py_endswith ''a.pdf'' ''.pdf''" by (simp add: py_endswith_def)
  have h7: "?o = Done (outcome_state ?o)"
    by (simp add: process_all_pdfs_def makedirs_def ex_env_def ex_sys_def Let_def ex_path_eval)
  have j: "py_join ''/app/output'' (output_name ''a.pdf'') = ''/app/output/a.json''"
    by (simp add: ex_path_eval)
  have j2: "py_join ''/app/input'' ''a.pdf'' = ''/app/input/a.pdf''" by (simp add: py_join_def py_endswith_def)
  show ?thesis using Batch.batch_writes_result [OF h1 h2 h3 h4 h5 h6 h7] unfolding j j2 by blast
qed

theorem batch_write_failure_aborts_witness:
  "\<exists>st'. process_all_pdfs (\<lambda>_. None) ex_open (ex_env [''a.pdf'', ''b.pdf'', ''c.pdf''] (\<lambda>p. p \<noteq> ''/out/b.json''))
      ''/in'' ''/out'' ex_sys = Raised (Write_Error ''/out/b.json'') st' \<and>
    files st' = files ex_sys ++ map_of (rev (written (\<lambda>_. None) ex_open ''/in'' ''/out'' [''a.pdf'']))"
proof -
  let ?env = "ex_env [''a.pdf'', ''b.pdf'', ''c.pdf''] (\<lambda>p. p \<noteq> ''/out/b.json'')"
  have h1: "''/out'' \<in> dirs ex_sys \<or> can_mkdir ?env ''/out''" by (simp add: ex_env_def)
  have h2: "listdir ?env ''/in'' = Some ([''a.pdf''] @ ''b.pdf'' # [''c.pdf''])" by (simp add: ex_env_def)
  have h3: "\<forall>g\<in>set [''a.pdf'']. py_endswith g ''.pdf'' \<longrightarrow> writable ?env (py_join ''/out'' (output_name g))"
    by (simp add: ex_env_def ex_path_eval)
  have h4: "py_endswith ''b.pdf'' ''.pdf''" by (simp add: py_endswith_def)
  have j: "py_join ''/out'' (output_name ''b.pdf'') = ''/out/b.json''" by (simp add: ex_path_eval)
  have h5: "\<not> writable ?env (py_join ''/out'' (output_name ''b.pdf''))" by (simp add: ex_env_def j)
  show ?thesis using Batch.batch_write_failure_aborts [OF h1 h2 h3 h4 h5, of "\<lambda>_. None" ex_open]
    unfolding j .
qed

theorem batch_setup_errors_witness:
  "process_all_pdfs (\<lambda>_. None) ex_open \<lparr>can_mkdir = \<lambda>_. False, listdir = \<lambda>_. None, writable = \<lambda>_. True\<rparr>
     ''/in'' ''/out'' ex_sys = Raised (Mkdir_Error ''/out'') ex_sys \<and>
   process_all_pdfs (\<lambda>_. None) ex_open \<lparr>can_mkdir = \<lambda>_. True, listdir = \<lambda>_. None, writable = \<lambda>_. True\<rparr>
     ''/in'' ''/out'' ex_sys = Raised (List_Error ''/in'') (ex_sys\<lparr>dirs := {''/out''}\<rparr>)"
proof -
  have a: "''/out'' \<notin> dirs ex_sys" by (simp add: ex_sys_def)
  show ?thesis
    using Batch.batch_setup_errors [where st = ex_sys and output_dir = "''/out''" and input_dir = "''/in''"
        and detect = "\<lambda>_. None" and fitz_open = ex_open
        and env = "\<lparr>can_mkdir = \<lambda>_. False, listdir = \<lambda>_. None, writable = \<lambda>_. True\<rparr>"]
      Batch.batch_setup_errors [where st = ex_sys and output_dir = "''/out''" and input_dir = "''/in''"
        and detect = "\<lambda>_. None" and fitz_open = ex_open
        and env = "\<lparr>can_mkdir = \<lambda>_. True, listdir = \<lambda>_. None, writable = \<lambda>_. True\<rparr>"] a
    by (simp add: ex_sys_def)
qed

theorem main_log_witness:
  "\<exists>st'. main (\<lambda>_. None) ex_open (ex_env [''a.pdf''] (\<lambda>_. True)) ''2025-07-01T09:00:00'' ex_sys = Done st' \<and>
    log st' = [Started ''2025-07-01T09:00:00'', Processed ''a.pdf'' ''a.json'']"
proof -
  let ?env = "ex_env [''a.pdf''] (\<lambda>_. True)"
  have h1: "''/app/output'' \<in> dirs ex_sys \<or> can_mkdir ?env ''/app/output''" by (simp add: ex_env_def)
  have h2: "listdir ?env ''/app/input'' = Some [''a.pdf'']" by (simp add: ex_env_def)
  have h3: "\<forall>f\<in>set [''a.pdf'']. py_endswith f ''.pdf'' \<longrightarrow>
      writable ?env (py_join ''/app/output'' (output_name f))" by (simp add: ex_env_def)
  have l: "log ex_sys @ Started ''2025-07-01T09:00:00'' #
      batch_log (\<lambda>_. None) ex_open ''/app/input'' ''/app/output'' [''a.pdf''] =
      [Started ''2025-07-01T09:00:00'', Processed ''a.pdf'' ''a.json'']"
    by (simp add: batch_log_def extract_log_def extract_eval ex_sys_def ex_path_eval py_basename_def)
  show ?thesis
    using Batch.main_log [OF h1 h2 h3, of "\<lambda>_. None" ex_open "''2025-07-01T09:00:00''"] unfolding l .
qed


theorem batch_step_refines_witness:
  "(batch_step (\<lambda>_. None) ex_open (ex_env [''a.pdf''] (\<lambda>_. True)) ''/app/input'' ''/app/output'')\<^sup>*\<^sup>*
     (Running [''a.pdf''] ex_sys)
     (Running [] (after (\<lambda>_. None) ex_open ''/app/input'' ''/app/output'' [''a.pdf''] ex_sys)) \<and>
   batch_outcome (Running [] (after (\<lambda>_. None) ex_open ''/app/input'' ''/app/output'' [''a.pdf''] ex_sys)) =
     process_files (\<lambda>_. None) ex_open (ex_env [''a.pdf''] (\<lambda>_. True)) ''/app/input'' ''/app/output''
       [''a.pdf''] ex_sys"
proof -
  let ?env = "ex_env [''a.pdf''] (\<lambda>_. True)"
  let ?t = "Running [] (after (\<lambda>_. None) ex_open ''/app/input'' ''/app/output'' [''a.pdf''] ex_sys)"
  have "batch_step (\<lambda>_. None) ex_open ?env ''/app/input'' ''/app/output'' (Running [''a.pdf''] ex_sys) ?t"
    by (rule batch_step_pdf_after) (simp_all add: ex_env_def py_endswith_def)
  then have h: "(batch_step (\<lambda>_. None) ex_open ?env ''/app/input'' ''/app/output'')\<^sup>*\<^sup>*
      (Running [''a.pdf''] ex_sys) ?t" by (rule r_into_rtranclp)
  have f: "batch_final ?t" by simp
  show ?thesis using h f Batch_Steps.batch_step_refines [where fs = "[''a.pdf'']" and st = ex_sys and t = ?t
      and detect = "\<lambda>_. None" and fitz_open = ex_open and env = ?env
      and input_dir = "''/app/input''" and output_dir = "''/app/output''"]
    by blast
qed

theorem batch_crash_state_witness:
  "(batch_step (\<lambda>_. None) ex_open (ex_env [''a.pdf'', ''b.pdf'', ''c.pdf''] (\<lambda>p. p \<noteq> ''/out/b.json''))
      ''/in'' ''/out'')\<^sup>*\<^sup>*
     (Running [''a.pdf'', ''b.pdf'', ''c.pdf''] ex_sys)
     (Crashed (Write_Error ''/out/b.json'')
        ((after (\<lambda>_. None) ex_open ''/in'' ''/out'' [''a.pdf''] ex_sys)
           \<lparr>log := log (after (\<lambda>_. None) ex_open ''/in'' ''/out'' [''a.pdf''] ex_sys) @
                    extract_log (\<lambda>_. None) ex_open ''/in/b.pdf''\<rparr>)) \<and>
   (\<exists>pre f post. [''a.pdf'', ''b.pdf'', ''c.pdf''] = pre @ f # post \<and> py_endswith f ''.pdf'' \<and>
      Write_Error ''/out/b.json'' = Write_Error (py_join ''/out'' (output_name f)) \<and>
      files ((after (\<lambda>_. None) ex_open ''/in'' ''/out'' [''a.pdf''] ex_sys)
           \<lparr>log := log (after (\<lambda>_. None) ex_open ''/in'' ''/out'' [''a.pdf''] ex_sys) @
                    extract_log (\<lambda>_. None) ex_open ''/in/b.pdf''\<rparr>) =
        files ex_sys ++ map_of (rev (written (\<lambda>_. None) ex_open ''/in'' ''/out'' pre)))"
proof -
  let ?env = "ex_env [''a.pdf'', ''b.pdf'', ''c.pdf''] (\<lambda>p. p \<noteq> ''/out/b.json'')"
  let ?R = "batch_step (\<lambda>_. None) ex_open ?env ''/in'' ''/out''"
  let ?a = "after (\<lambda>_. None) ex_open ''/in'' ''/out'' [''a.pdf''] ex_sys"
  have jb: "py_join ''/out'' (output_name ''b.pdf'') = ''/out/b.json''" by (simp add: ex_path_eval)
  have ib: "py_join ''/in'' ''b.pdf'' = ''/in/b.pdf''" by (simp add: py_join_def py_endswith_def)
  have s1: "?R (Running [''a.pdf'', ''b.pdf'', ''c.pdf''] ex_sys) (Running [''b.pdf'', ''c.pdf''] ?a)"
    by (rule batch_step_pdf_after) (simp_all add: ex_env_def ex_path_eval)
  have s2: "?R (Running [''b.pdf'', ''c.pdf''] ?a)
      (Crashed (Write_Error (py_join ''/out'' (output_name ''b.pdf'')))
         (?a\<lparr>log := log ?a @ extract_log (\<lambda>_. None) ex_open (py_join ''/in'' ''b.pdf'')\<rparr>))"
    by (rule batch_step.write_fails) (simp_all add: ex_env_def py_endswith_def jb)
  have h: "?R\<^sup>*\<^sup>* (Running [''a.pdf'', ''b.pdf'', ''c.pdf''] ex_sys)
      (Crashed (Write_Error ''/out/b.json'') (?a\<lparr>log := log ?a @ extract_log (\<lambda>_. None) ex_open ''/in/b.pdf''\<rparr>))"
    using s1 s2 unfolding jb ib by (meson converse_rtranclp_into_rtranclp r_into_rtranclp)
  show ?thesis using h Batch_Steps.batch_crash_state [OF h] by blast
qed

theorem batch_steps_bounded_witness:
  "(batch_step (\<lambda>_. None) ex_open (ex_env [] (\<lambda>_. True)) ''/app/input'' ''/app/output'' ^^ 2)
     (Running [''notes.txt'', ''readme.md''] ex_sys) (Running [] ex_sys) \<and>
   (2::nat) \<le> length [''notes.txt'', ''readme.md'']"
proof -
  let ?R = "batch_step (\<lambda>_. None) ex_open (ex_env [] (\<lambda>_. True)) ''/app/input'' ''/app/output''"
  have s1: "?R (Running [''notes.txt'', ''readme.md''] ex_sys) (Running [''readme.md''] ex_sys)"
    by (rule batch_step.skip_other) (simp add: py_endswith_def)
  have s2: "?R (Running [''readme.md''] ex_sys) (Running [] ex_sys)"
    by (rule batch_step.skip_other) (simp add: py_endswith_def)
  have h: "(?R ^^ 2) (Running [''notes.txt'', ''readme.md''] ex_sys) (Running [] ex_sys)"
  proof -
    have "(?R ^^ 1) (Running [''readme.md''] ex_sys) (Running [] ex_sys)" using s2 by (simp only: relpowp_1)
    from relpowp_Suc_I2 [OF s1 this] show ?thesis by (simp add: numeral_2_eq_2)
  qed
  show ?thesis using h Batch_Steps.batch_steps_bounded [OF h] by simp
qed

theorem batch_processes_every_pdf_witness:
  "\<exists>t'. (batch_step (\<lambda>_. None) ex_open (ex_env [''a.pdf''] (\<lambda>_. True)) ''/app/input'' ''/app/output'')\<^sup>*\<^sup>*
      (Running [''a.pdf''] ex_sys) t' \<and>
    Processed ''a.pdf'' ''a.json'' \<in> set (log (run_state t'))"
proof -
  let ?env = "ex_env [''a.pdf''] (\<lambda>_. True)"
  have h1: "\<forall>g\<in>set [''a.pdf'']. py_endswith g ''.pdf'' \<longrightarrow> writable ?env (py_join ''/app/output'' (output_name g))"
    by (simp add: ex_env_def)
  have h2: "''a.pdf'' \<in> set [''a.pdf'']" by simp
  have h3: "py_endswith ''a.pdf'' ''.pdf''" by (simp add: py_endswith_def)
  have h4: "(batch_step (\<lambda>_. None) ex_open ?env ''/app/input'' ''/app/output'')\<^sup>*\<^sup>*
      (Running [''a.pdf''] ex_sys) (Running [''a.pdf''] ex_sys)" by simp
  have j: "py_basename (py_join ''/app/output'' (output_name ''a.pdf'')) = ''a.json''"
    by (simp add: ex_path_eval py_basename_def)
  show ?thesis using Batch_Steps.batch_processes_every_pdf [OF h1 h2 h3 h4] unfolding j .
qed

theorem batch_files_schema_witness:
  "(batch_step (\<lambda>_. None) ex_open (ex_env [''a.pdf''] (\<lambda>_. True)) ''/app/input'' ''/app/output'')\<^sup>*\<^sup>*
     (Running [''a.pdf''] ex_sys)
     (Running [] (after (\<lambda>_. None) ex_open ''/app/input'' ''/app/output'' [''a.pdf''] ex_sys)) \<and>
   (\<exists>r. json_load (json_dump (extract_headings (\<lambda>_. None) ex_open ''/app/input/a.pdf'')) = Some r \<and>
      result_schema r)"
proof -
  let ?env = "ex_env [''a.pdf''] (\<lambda>_. True)"
  let ?t = "Running [] (after (\<lambda>_. None) ex_open ''/app/input'' ''/app/output'' [''a.pdf''] ex_sys)"
  let ?s = "json_dump (extract_headings (\<lambda>_. None) ex_open ''/app/input/a.pdf'')"
  have "batch_step (\<lambda>_. None) ex_open ?env ''/app/input'' ''/app/output'' (Running [''a.pdf''] ex_sys) ?t"
    by (rule batch_step_pdf_after) (simp_all add: ex_env_def py_endswith_def)
  then have h: "(batch_step (\<lambda>_. None) ex_open ?env ''/app/input'' ''/app/output'')\<^sup>*\<^sup>*
      (Running [''a.pdf''] ex_sys) ?t" by (rule r_into_rtranclp)
  have f: "files (run_state ?t) ''/app/output/a.json'' = Some ?s"
    by (simp add: after_single_pdf py_endswith_def ex_path_eval)
  have n: "files ex_sys ''/app/output/a.json'' \<noteq> Some ?s" by (simp add: ex_sys_def)
  show ?thesis using h Batch_Steps.batch_files_schema [OF h f] n by blast
qed

theorem assemble_repeated_witness:
  "assemble [18 \<mapsto> ''H1'', 14 \<mapsto> ''H2''] ([ex_block ''Intro'' 18 1] @ [ex_block ''Intro'' 14 1]) =
   assemble [18 \<mapsto> ''H1'', 14 \<mapsto> ''H2''] [ex_block ''Intro'' 18 1]"
proof -
  have h: "entry_key ` set (List.map_filter (candidate [18 \<mapsto> ''H1'', 14 \<mapsto> ''H2'']) [ex_block ''Intro'' 14 1]) \<subseteq>
           entry_key ` set (List.map_filter (candidate [18 \<mapsto> ''H1'', 14 \<mapsto> ''H2'']) [ex_block ''Intro'' 18 1])"
    by (simp add: List.map_filter_def candidate_def ex_block_def entry_key_def)
  show ?thesis by (rule Assembler.assemble_repeated [OF h])
qed

theorem batch_listing_order_witness:
  "files (outcome_state (process_all_pdfs (\<lambda>_. None) ex_open ((ex_env [] (\<lambda>_. True))\<lparr>listdir := \<lambda>_. Some [''a.pdf'', ''b.pdf'']\<rparr>)
      ''/app/input'' ''/app/output'' ex_sys)) =
   files (outcome_state (process_all_pdfs (\<lambda>_. None) ex_open ((ex_env [] (\<lambda>_. True))\<lparr>listdir := \<lambda>_. Some [''b.pdf'', ''a.pdf'']\<rparr>)
      ''/app/input'' ''/app/output'' ex_sys))"
proof -
  have h1: "mset [''a.pdf'', ''b.pdf''] = mset [''b.pdf'', ''a.pdf'']" by simp
  have h2: "\<forall>f\<in>set [''a.pdf'', ''b.pdf'']. py_endswith f ''.pdf'' \<longrightarrow>
      writable (ex_env [] (\<lambda>_. True)) (py_join ''/app/output'' (output_name f))" by (simp add: ex_env_def)
  have h3: "distinct (map (\<lambda>f. py_join ''/app/output'' (output_name f))
      (filter (\<lambda>f. py_endswith f ''.pdf'') [''a.pdf'', ''b.pdf'']))" by (simp add: ex_path_eval)
  have h4: "''/app/output'' \<in> dirs ex_sys \<or> can_mkdir (ex_env [] (\<lambda>_. True)) ''/app/output''"
    by (simp add: ex_env_def)
  show ?thesis using Batch.batch_listing_order [OF h1 h2 h3 h4, of "\<lambda>_. None" ex_open "''/app/input''"]
    by blast
qed

theorem is_heading_accepts_blank_witness:
  "is_heading ''   '' \<and> \<not> is_heading (py_strip ''   '')"
  using Heading_Filter.is_heading_accepts_blank [of "''   ''"] by (simp add: py_isspace_def)

theorem u_filter_iff_witness: "u_keep [0x3000, 0x41, 0x20]"
proof -
  have "\<exists>a m b. [0x3000, 0x41, 0x20 :: nat] = a @ m @ b \<and> (\<forall>c\<in>set a. u_isspace c) \<and>
      (\<forall>c\<in>set b. u_isspace c) \<and> m \<noteq> [] \<and> \<not> u_isspace (hd m) \<and> \<not> u_isspace (last m) \<and>
      length m < 100 \<and> last m \<noteq> 0x2E"
    by (rule exI [of _ "[0x3000]"], rule exI [of _ "[0x41]"], rule exI [of _ "[0x20]"])
      (simp add: u_isspace_def)
  then show ?thesis using Unicode.u_filter_iff by blast
qed

theorem u_filter_pad_witness:
  "u_isspace 0x3000 \<and> u_isspace 0x20 \<and>
   (u_keep ([0x3000] @ [0x41, 0x2E] @ [0x20]) \<longleftrightarrow> u_keep [0x41, 0x2E])"
  using Unicode.u_filter_pad [of "[0x3000]" "[0x20]" "[0x41, 0x2E]"] by (simp add: u_isspace_def)


theorem outline_top_sizes_witness:
  "res_outline (extract_headings (\<lambda>_. None)
     ((\<lambda>_. Inr (map Inr [[Text_Block [[ex_span ''A'' 20, ex_span ''B'' 18, ex_span ''C'' 16,
        ex_span ''D'' 14]]]])) :: int opener) ''/app/input/doc.pdf'') =
   (let tbs = doc_blocks (\<lambda>_. None) [[Text_Block [[ex_span ''A'' 20, ex_span ''B'' 18,
              ex_span ''C'' 16, ex_span ''D'' 14]]]];
        top = filter (\<lambda>b. rank (font_size ` set tbs) (font_size b) < 3) tbs
    in assemble (size_to_level (font_sizes top)) top)"
  by (rule Extract.outline_top_sizes) simp

theorem error_marker_ambiguous_witness:
  "extract_headings (\<lambda>_. None) ((\<lambda>_. Inr []) :: int opener) ''/app/input/Error.pdf'' = error_result"
proof -
  have h1: "((\<lambda>_. Inr []) :: int opener) ''/app/input/Error.pdf'' = Inr (map Inr [])" by simp
  have h2: "\<forall>bs\<in>set ([] :: int page list). \<forall>sp\<in>set (page_spans bs).
      \<not> is_heading (py_strip (span_text sp))" by simp
  have "py_replace ''.pdf'' '''' (py_basename ''/app/input/Error.pdf'') = ''Error''"
    by (simp add: py_basename_def)
  then show ?thesis using Extract.error_marker_ambiguous [OF h1 h2, of "\<lambda>_. None"] by blast
qed

theorem batch_output_collision_witness:
  "files (outcome_state (process_all_pdfs (\<lambda>_. None) ex_open
      (ex_env [''a.pdf.pdf'', ''a.json.pdf''] (\<lambda>_. True)) ''/app/input'' ''/app/output'' ex_sys))
      ''/app/output/a.json.json'' =
     Some (json_dump (extract_headings (\<lambda>_. None) ex_open ''/app/input/a.json.pdf''))"
proof -
  let ?l = "[''a.pdf.pdf'', ''a.json.pdf'']"
  let ?env = "ex_env ?l (\<lambda>_. True)"
  let ?o = "process_all_pdfs (\<lambda>_. None) ex_open ?env ''/app/input'' ''/app/output'' ex_sys"
  have h1: "''/app/output'' \<in> dirs ex_sys \<or> can_mkdir ?env ''/app/output''" by (simp add: ex_env_def)
  have h2: "listdir ?env ''/app/input'' = Some ?l" by (simp add: ex_env_def)
  have h3: "\<forall>g\<in>set ?l. py_endswith g ''.pdf'' \<longrightarrow>
      writable ?env (py_join ''/app/output'' (output_name g))" by (simp add: ex_env_def)
  have h4: "''a.pdf.pdf'' \<in> set ?l" by simp
  have h5: "py_endswith ''a.pdf.pdf'' ''.pdf''" by (simp add: py_endswith_def)
  have h6: "?o = Done (outcome_state ?o)"
    by (simp add: process_all_pdfs_def makedirs_def ex_env_def ex_sys_def Let_def ex_path_eval)
  have j: "py_join ''/app/output'' (output_name ''a.pdf.pdf'') = ''/app/output/a.json.json''"
    by (simp add: ex_path_eval)
  have l: "last (filter (\<lambda>g. py_endswith g ''.pdf'' \<and>
      py_join ''/app/output'' (output_name g) = ''/app/output/a.json.json'') ?l) =
      ''a.json.pdf''"
    by (simp add: ex_path_eval)
  have j2: "py_join ''/app/input'' ''a.json.pdf'' = ''/app/input/a.json.pdf''"
    by (simp add: py_join_def py_endswith_def)
  show ?thesis using Batch.batch_output_collision [OF h1 h2 h3 h4 h5 h6] unfolding j l j2 .
qed

text \<open>
  A heading in CJK characters padded with ideographic spaces (U+3000): 99 code points,
  297 bytes in UTF-8, are kept and 100 are not, since \<open>len\<close> counts code points; a
  span of U+3000 and U+2003 alone is blank after the strip. Fifty accented letters
  written in decomposed form (e followed by U+0301) are 100 code points and are rejected,
  although a reader sees 50 characters.
\<close>

lemma ex_unicode_filter:
  "u_keep (0x3000 # replicate 99 0x4E2D @ [0x3000]) \<and> \<not> u_keep (replicate 100 0x4E2D) \<and>
   \<not> u_keep [0x3000, 0x2003] \<and> \<not> u_keep (concat (replicate 50 [0x65, 0x301]))"
proof -
  have "\<not> u_keep (concat (replicate 50 [0x65, 0x301]))"
    by (simp add: u_keep_def u_strip_id u_is_heading_def u_isspace_def length_concat
        sum_list_replicate)
  then show ?thesis
    by (simp add: u_keep_def u_strip_def u_is_heading_def u_endswith_def u_isspace_def)
qed

end
